(* ===== verification/Prelude.thy ===== *)
theory Prelude
  imports Main "HOL-Library.AList"
begin

text \<open>
  Shared base of the development: the JSON values that \<open>json.loads\<close> returns, Python exceptions as
  values, the result type of a fallible operation with its combinators, and the lemmas on Python
  dictionaries (association lists in insertion order) that the components share.
\<close>

named_theorems res_simps \<open>inversion of the fallible combinators\<close>
named_theorems dict_simps \<open>lookup and domain of insertion-ordered dictionaries\<close>

section \<open>JSON values\<close>

text \<open>
  A finite Python float is a mantissa and a binary exponent, \<open>m * 2 ^ e\<close>, which is what a double is.
  An object is an association list in insertion order; \<open>json.loads\<close> never repeats a key.
\<close>

datatype pyfloat = FFinite int int | FInf bool | FNaN

datatype json =
    JNull
  | JBool bool
  | JInt int
  | JFloat pyfloat
  | JStr string
  | JList "json list"
  | JObj "(string \<times> json) list"

section \<open>Exceptions as values\<close>

text \<open>
  \<open>RuntimeError t vs\<close> is the exception the program raises itself: the f-string template \<open>t\<close> with its
  holes written \<open>{}\<close>, and the interpolated values \<open>vs\<close>. The other constructors are the exceptions of
  the interpreter and of the standard library that the source lets through or catches.
\<close>

datatype py_error =
    RuntimeError string "json list"
  | ValueError
  | JSONDecodeError
  | UnicodeDecodeError
  | UnicodeError
  | KeyError string
  | IndexError
  | TypeError
  | AttributeError
  | OverflowError
  | ZeroDivisionError
  | StructError
  | OSError
  | DatabaseError
  | KeyboardInterrupt
  | SystemExit string "json list"

type_synonym 'a res = "py_error + 'a"

definition bind_res :: "'a res \<Rightarrow> ('a \<Rightarrow> 'b res) \<Rightarrow> 'b res" where
  "bind_res r f = (case r of Inl e \<Rightarrow> Inl e | Inr x \<Rightarrow> f x)"

lemma bind_res_simps [simp]:
  "bind_res (Inl e) f = Inl e"
  "bind_res (Inr x) f = f x"
  by (simp_all add: bind_res_def)

lemma bind_res_Inr_iff [res_simps]:
  "bind_res r f = Inr y \<longleftrightarrow> (\<exists>x. r = Inr x \<and> f x = Inr y)"
  by (cases r) auto

lemma bind_res_Inl_iff [res_simps]:
  "bind_res r f = Inl e \<longleftrightarrow> r = Inl e \<or> (\<exists>x. r = Inr x \<and> f x = Inl e)"
  by (cases r) auto

lemma if_Inl_iff [res_simps]: "(if b then Inl e else r) = Inr x \<longleftrightarrow> \<not> b \<and> r = Inr x"
  by simp

lemma bind_res_cong [fundef_cong]:
  "r = r' \<Longrightarrow> (\<And>x. r' = Inr x \<Longrightarrow> f x = g x) \<Longrightarrow> bind_res r f = bind_res r' g"
  by (cases r') auto

definition guard_res :: "bool \<Rightarrow> py_error \<Rightarrow> unit res" where
  "guard_res b e = (if b then Inr () else Inl e)"

lemma guard_res_simps [simp]:
  "guard_res True e = Inr ()"
  "guard_res False e = Inl e"
  by (simp_all add: guard_res_def)

lemma guard_res_Inr_iff [res_simps]: "guard_res b e = Inr u \<longleftrightarrow> b"
  by (simp add: guard_res_def)

text \<open>A list comprehension whose element expression may raise: left to right, first error wins.\<close>

fun traverse :: "('a \<Rightarrow> 'b res) \<Rightarrow> 'a list \<Rightarrow> 'b list res" where
  "traverse f [] = Inr []"
| "traverse f (x # xs) = bind_res (f x) (\<lambda>y. bind_res (traverse f xs) (\<lambda>ys. Inr (y # ys)))"

lemma traverse_Inr_map: "(\<And>x. x \<in> set xs \<Longrightarrow> f x = Inr (g x)) \<Longrightarrow> traverse f xs = Inr (map g xs)"
  by (induction xs) auto

lemma traverse_length: "traverse f xs = Inr ys \<Longrightarrow> length ys = length xs"
  by (induction xs arbitrary: ys) (auto simp: res_simps)

lemma traverse_nth: "traverse f xs = Inr ys \<Longrightarrow> i < length xs \<Longrightarrow> f (xs ! i) = Inr (ys ! i)"
  by (induction xs arbitrary: ys i) (auto simp: res_simps nth_Cons split: nat.splits)

lemma traverse_Inl_iff:
  "(\<exists>e. traverse f xs = Inl e) \<longleftrightarrow> (\<exists>x \<in> set xs. \<exists>e. f x = Inl e)"
proof (induction xs)
  case (Cons x xs)
  then show ?case by (cases "f x"; cases "traverse f xs") auto
qed simp

section \<open>Python dictionaries\<close>

text \<open>
  A \<open>dict\<close> whose iteration order matters is an association list: \<^const>\<open>AList.update\<close> overwrites a key in
  its place and appends a new one, as Python does. \<open>setdefault\<close> keeps the first value.
\<close>

definition setdefault :: "'k \<Rightarrow> 'v \<Rightarrow> ('k \<times> 'v) list \<Rightarrow> ('k \<times> 'v) list" where
  "setdefault k v d = (case map_of d k of None \<Rightarrow> d @ [(k, v)] | Some _ \<Rightarrow> d)"

lemma map_of_setdefault [dict_simps]:
  "map_of (setdefault k v d) = (if map_of d k = None then (map_of d)(k \<mapsto> v) else map_of d)"
  by (auto simp: setdefault_def map_add_def fun_eq_iff split: option.splits)

lemma map_of_update [dict_simps]: "map_of (AList.update k v d) = (map_of d)(k \<mapsto> v)"
  by (simp add: update_conv')

lemma distinct_update_keys: "distinct (map fst d) \<Longrightarrow> distinct (map fst (AList.update k v d))"
  by (rule distinct_update)

lemma keys_update_append:
  "map fst (AList.update k v d) = (if k \<in> fst ` set d then map fst d else map fst d @ [k])"
  by (simp add: update_keys)

lemma keys_setdefault:
  "map fst (setdefault k v d) = (if k \<in> fst ` set d then map fst d else map fst d @ [k])"
  by (auto simp: setdefault_def dom_map_of_conv_image_fst domIff map_of_eq_None_iff split: option.splits)
     (metis map_of_eq_None_iff option.distinct(1))+

text \<open>A dictionary is determined by its keys and what it gives for them.\<close>

lemma alist_eq_map:
  "map fst d = ks \<Longrightarrow> distinct ks \<Longrightarrow> (\<And>k. k \<in> set ks \<Longrightarrow> map_of d k = Some (f k)) \<Longrightarrow>
     d = map (\<lambda>k. (k, f k)) ks"
proof (induction d arbitrary: ks)
  case (Cons kv d)
  obtain k v where kv: "kv = (k, v)" by (cases kv)
  have "map_of d k' = Some (f k')" if "k' \<in> set (map fst d)" for k'
  proof -
    have "k' \<noteq> k" using Cons.prems(1,2) that by (metis distinct.simps(2) fst_conv kv list.simps(9))
    moreover have "map_of (kv # d) k' = Some (f k')"
      by (rule Cons.prems(3)) (unfold Cons.prems(1) [symmetric], use that in simp)
    ultimately show ?thesis by (simp add: kv)
  qed
  moreover have "distinct (map fst d)" using Cons.prems(1,2) by (auto simp: kv)
  ultimately have "d = map (\<lambda>k. (k, f k)) (map fst d)" by (intro Cons.IH) simp_all
  moreover have "v = f k" using Cons.prems(3) [of k] Cons.prems(1) by (auto simp: kv)
  ultimately show ?case using Cons.prems(1) by (auto simp: kv)
qed simp

section \<open>Arithmetic\<close>

lemma floor_div_bounds:
  fixes x k :: int
  assumes "0 < k"
  shows "x div k * k \<le> x \<and> x < (x div k + 1) * k"
proof -
  have "x div k * k = x - x mod k" by (simp add: minus_mod_eq_div_mult)
  moreover have "0 \<le> x mod k" "x mod k < k" using assms by simp_all
  ultimately show ?thesis by (simp add: distrib_right)
qed

section \<open>Lists\<close>

lemma sum_concat_map:
  fixes f :: "'b \<Rightarrow> int"
  shows "sum_list (map f (concat (map g xs))) = sum_list (map (\<lambda>x. sum_list (map f (g x))) xs)"
  by (induction xs) auto

lemma image_filter_notin: "g ` set (filter (\<lambda>x. g x \<notin> K) xs) = g ` set xs - K"
  by (induction xs) auto

lemma filter_group_notin: "i \<notin> K \<Longrightarrow> filter (\<lambda>x. g x = i) (filter (\<lambda>x. g x \<notin> K) xs) = filter (\<lambda>x. g x = i) xs"
  by (induction xs) auto

text \<open>The last element of a stable sort is a greatest one.\<close>

lemma last_sort_key:
  assumes "xs \<noteq> []"
  shows "last (sort_key f xs) \<in> set xs" and "x \<in> set xs \<Longrightarrow> f x \<le> f (last (sort_key f xs))"
proof -
  let ?ys = "sort_key f xs"
  have ne: "?ys \<noteq> []" using assms by (metis set_empty set_sort)
  then show "last ?ys \<in> set xs" using last_in_set by fastforce
  assume "x \<in> set xs"
  then obtain i where i: "i < length ?ys" "?ys ! i = x" by (metis in_set_conv_nth set_sort)
  have "map f ?ys ! i \<le> map f ?ys ! (length ?ys - 1)"
    by (rule sorted_nth_mono [OF sorted_sort_key]) (use i in auto)
  with i ne show "f x \<le> f (last ?ys)" by (simp add: last_conv_nth)
qed

text \<open>\<open>find\<close> returns the first element that satisfies the predicate.\<close>

lemma find_first:
  "find P xs = Some x \<Longrightarrow> \<exists>before after. xs = before @ x # after \<and> P x \<and> (\<forall>y \<in> set before. \<not> P y)"
proof (induction xs)
  case (Cons y ys)
  then show ?case
  proof (cases "P y")
    case False
    with Cons obtain before after where "ys = before @ x # after" "P x" "\<forall>z \<in> set before. \<not> P z" by auto
    with False have "y # ys = (y # before) @ x # after \<and> P x \<and> (\<forall>z \<in> set (y # before). \<not> P z)" by simp
    then show ?thesis by blast
  qed (use Cons in force)
qed simp

text \<open>The order-preserving list of distinct elements, each at its first position.\<close>

fun first_occurrences :: "'a list \<Rightarrow> 'a list" where
  "first_occurrences [] = []"
| "first_occurrences (x # xs) = x # filter (\<lambda>y. y \<noteq> x) (first_occurrences xs)"

lemma set_first_occurrences [simp]: "set (first_occurrences xs) = set xs"
  by (induction xs) auto

lemma distinct_first_occurrences [simp]: "distinct (first_occurrences xs)"
  by (induction xs) auto

lemma first_occurrences_snoc:
  "first_occurrences (xs @ [x]) =
     (if x \<in> set xs then first_occurrences xs else first_occurrences xs @ [x])"
  by (induction xs) auto

text \<open>Grouping by a key loses nothing: the sums of the groups add up to the sum of the list.\<close>

lemma sum_first_occurrences:
  fixes h :: "'a \<Rightarrow> int"
  shows "sum_list (map (\<lambda>i. sum_list (map h (filter (\<lambda>x. g x = i) xs))) (first_occurrences (map g xs)))
       = sum_list (map h xs)"
proof (induction xs rule: rev_induct)
  case (snoc x xs)
  let ?old = "\<lambda>i. sum_list (map h (filter (\<lambda>y. g y = i) xs))"
  have new: "sum_list (map h (filter (\<lambda>y. g y = i) (xs @ [x]))) = ?old i + (if i = g x then h x else 0)" for i
    by simp
  have single: "sum_list (map (\<lambda>i. if i = a then h x else 0) ys) = (if a \<in> set ys then h x else 0)"
    if "distinct ys" for ys a
    using that by (induction ys) auto
  show ?case
  proof (cases "g x \<in> set (map g xs)")
    case True
    then have "first_occurrences (map g (xs @ [x])) = first_occurrences (map g xs)"
      by (simp add: first_occurrences_snoc)
    with True snoc show ?thesis
      by (simp only: new sum_list_addf single distinct_first_occurrences set_first_occurrences) simp
  next
    case False
    then have fo: "first_occurrences (map g xs @ [g x]) = first_occurrences (map g xs) @ [g x]"
      by (simp add: first_occurrences_snoc)
    have "\<forall>y \<in> set xs. g y \<noteq> g x" using False by (metis image_eqI list.set_map)
    then have "filter (\<lambda>y. g y = g x) xs = []" by simp
    with False snoc show ?thesis
      by (simp only: fo new map_append list.map sum_list_append sum_list_addf single distinct_first_occurrences
            set_first_occurrences) simp
  qed
qed simp

end
