(* ===== verification/PyStr.thy ===== *)
theory PyStr
  imports Prelude "HOL-Library.Sublist"
begin

text \<open>
  The string operations of the Python standard library that the source uses, on \<open>string\<close> (a character is
  a code point below 256): whitespace stripping, splitting, joining, prefix and suffix tests, search and
  replacement, and the conversions between integers and text. The lemmas are the round trips and the
  membership facts that the parsers rest on.
\<close>

section \<open>Whitespace\<close>

text \<open>\<open>str.isspace\<close> below 256, which is also what \<open>\s\<close> matches in a text pattern.\<close>

definition is_space :: "char \<Rightarrow> bool" where
  "is_space c = (let n = (of_char c :: nat) in
     (9 \<le> n \<and> n \<le> 13) \<or> (28 \<le> n \<and> n \<le> 32) \<or> n = 133 \<or> n = 160)"

definition lstrip :: "string \<Rightarrow> string" where
  "lstrip s = dropWhile is_space s"

definition rstrip :: "string \<Rightarrow> string" where
  "rstrip s = rev (dropWhile is_space (rev s))"

definition strip :: "string \<Rightarrow> string" where
  "strip s = rstrip (lstrip s)"

definition rstrip_chars :: "string \<Rightarrow> string \<Rightarrow> string" where
  "rstrip_chars cs s = rev (dropWhile (\<lambda>c. c \<in> set cs) (rev s))"

definition lstrip_chars :: "string \<Rightarrow> string \<Rightarrow> string" where
  "lstrip_chars cs s = dropWhile (\<lambda>c. c \<in> set cs) s"

lemma strip_no_space: "\<forall>c \<in> set s. \<not> is_space c \<Longrightarrow> strip s = s"
proof -
  have drop_id: "dropWhile is_space t = t" if "\<forall>c \<in> set t. \<not> is_space c" for t
    using that by (cases t) auto
  assume "\<forall>c \<in> set s. \<not> is_space c"
  then show ?thesis
    by (simp add: strip_def lstrip_def rstrip_def drop_id)
qed

lemma rstrip_chars_last: "s' = rstrip_chars cs s \<Longrightarrow> s' \<noteq> [] \<Longrightarrow> last s' \<notin> set cs"
  unfolding rstrip_chars_def
  by (metis hd_dropWhile last_rev rev_is_Nil_conv)

lemma rstrip_chars_prefix: "prefix (rstrip_chars cs s) s"
proof -
  have "s = rev (takeWhile (\<lambda>c. c \<in> set cs) (rev s) @ dropWhile (\<lambda>c. c \<in> set cs) (rev s))"
    by simp
  also have "\<dots> = rstrip_chars cs s @ rev (takeWhile (\<lambda>c. c \<in> set cs) (rev s))"
    by (simp only: rev_append rstrip_chars_def)
  finally show ?thesis by (metis prefixI)
qed

section \<open>Prefixes, suffixes, search\<close>

definition startswith :: "string \<Rightarrow> string \<Rightarrow> bool" where
  "startswith s p = (take (length p) s = p)"

definition endswith :: "string \<Rightarrow> string \<Rightarrow> bool" where
  "endswith s p = (length p \<le> length s \<and> drop (length s - length p) s = p)"

lemma startswith_iff: "startswith s p \<longleftrightarrow> (\<exists>t. s = p @ t)"
  by (auto simp: startswith_def) (metis append_take_drop_id)

lemma endswith_iff: "endswith s p \<longleftrightarrow> (\<exists>t. s = t @ p)"
  by (auto simp: endswith_def) (metis append_take_drop_id)

text \<open>\<open>str.find\<close>: the least index of an occurrence, \<open>None\<close> where Python gives \<open>-1\<close>.\<close>

fun find_sub :: "string \<Rightarrow> string \<Rightarrow> nat option" where
  "find_sub sub [] = (if sub = [] then Some 0 else None)"
| "find_sub sub (c # cs) =
     (if startswith (c # cs) sub then Some 0 else map_option Suc (find_sub sub cs))"

definition contains_sub :: "string \<Rightarrow> string \<Rightarrow> bool" where
  "contains_sub sub s = (find_sub sub s \<noteq> None)"

lemma find_sub_Some: "find_sub sub s = Some i \<Longrightarrow> startswith (drop i s) sub"
  by (induction s arbitrary: i) (auto simp: startswith_def split: if_splits)

lemma contains_sub_iff: "contains_sub sub s \<longleftrightarrow> (\<exists>u v. s = u @ sub @ v)"
proof (induction s)
  case Nil
  then show ?case by (auto simp: contains_sub_def)
next
  case (Cons c cs)
  have "(\<exists>u v. c # cs = u @ sub @ v) \<longleftrightarrow> (\<exists>v. c # cs = sub @ v) \<or> (\<exists>u v. cs = u @ sub @ v)"
    by (metis Cons_eq_append_conv append_Cons append_Nil)
  with Cons show ?case
    by (auto simp: contains_sub_def startswith_iff)
qed

text \<open>\<open>str.replace\<close> of a non-empty pattern, left to right.\<close>

function replace_sub :: "string \<Rightarrow> string \<Rightarrow> string \<Rightarrow> string" where
  "replace_sub old new s =
     (if old = [] then s
      else case find_sub old s of
        None \<Rightarrow> s
      | Some i \<Rightarrow> take i s @ new @ (if s = [] then [] else replace_sub old new (drop (i + length old) s)))"
  by pat_completeness auto
termination
  by (relation "measure (\<lambda>(old, new, s). length s)") auto

declare replace_sub.simps [simp del]

lemma replace_sub_none: "\<not> contains_sub old s \<Longrightarrow> replace_sub old new s = s"
  by (subst replace_sub.simps) (simp add: contains_sub_def)

section \<open>Splitting and joining\<close>

text \<open>\<open>s.split(c)\<close> at every occurrence of one character.\<close>

fun split_on :: "char \<Rightarrow> string \<Rightarrow> string list" where
  "split_on c [] = [[]]"
| "split_on c (x # xs) =
     (if x = c then [] # split_on c xs
      else case split_on c xs of [] \<Rightarrow> [[x]] | y # ys \<Rightarrow> (x # y) # ys)"

lemma split_on_nonempty [simp]: "split_on c s \<noteq> []"
  by (induction s) (auto split: list.splits)

lemma split_on_no_sep: "c \<notin> set s \<Longrightarrow> split_on c s = [s]"
  by (induction s) auto

lemma split_on_append: "c \<notin> set s \<Longrightarrow> split_on c (s @ c # t) = s # split_on c t"
  by (induction s) auto

lemma split_on_parts_no_sep: "p \<in> set (split_on c s) \<Longrightarrow> c \<notin> set p"
  by (induction s arbitrary: p) (auto split: if_splits list.splits)

text \<open>\<open>sep.join(parts)\<close>.\<close>

fun join :: "string \<Rightarrow> string list \<Rightarrow> string" where
  "join sep [] = []"
| "join sep [p] = p"
| "join sep (p # q # ps) = p @ sep @ join sep (q # ps)"

lemma join_split_on: "join [c] (split_on c s) = s"
proof (induction s)
  case (Cons x xs)
  then show ?case by (cases "split_on c xs"; cases "tl (split_on c xs)") auto
qed simp

lemma split_on_join:
  "ps \<noteq> [] \<Longrightarrow> \<forall>p \<in> set ps. c \<notin> set p \<Longrightarrow> split_on c (join [c] ps) = ps"
  by (induction "[c]" ps rule: join.induct) (auto simp: split_on_no_sep split_on_append)

text \<open>\<open>s.split(c, 1)\<close> and \<open>s.partition(c)\<close>: the text before and after the first \<open>c\<close>.\<close>

definition split_first :: "char \<Rightarrow> string \<Rightarrow> (string \<times> string) option" where
  "split_first c s =
     (if c \<in> set s then Some (takeWhile (\<lambda>x. x \<noteq> c) s, tl (dropWhile (\<lambda>x. x \<noteq> c) s)) else None)"

text \<open>\<open>s.rsplit(c, 1)\<close>: the text before and after the last \<open>c\<close>.\<close>

definition split_last :: "char \<Rightarrow> string \<Rightarrow> (string \<times> string) option" where
  "split_last c s =
     (case split_first c (rev s) of None \<Rightarrow> None | Some (b, a) \<Rightarrow> Some (rev a, rev b))"

lemma split_first_append: "c \<notin> set a \<Longrightarrow> split_first c (a @ c # b) = Some (a, b)"
proof -
  assume na: "c \<notin> set a"
  then have "takeWhile (\<lambda>x. x \<noteq> c) (a @ c # b) = a" and "dropWhile (\<lambda>x. x \<noteq> c) (a @ c # b) = c # b"
    by (induction a) auto
  then show ?thesis by (simp add: split_first_def)
qed

lemma split_first_None [simp]: "split_first c s = None \<longleftrightarrow> c \<notin> set s"
  by (simp add: split_first_def)

lemma split_first_Some:
  "split_first c s = Some (a, b) \<longleftrightarrow> s = a @ c # b \<and> c \<notin> set a"
proof
  assume h: "split_first c s = Some (a, b)"
  then have "c \<in> set s" by (metis option.distinct(1) split_first_None)
  then obtain u v where "s = u @ c # v" "c \<notin> set u" by (meson split_list_first)
  with h show "s = a @ c # b \<and> c \<notin> set a" by (simp add: split_first_append)
qed (auto simp: split_first_append)

lemma split_last_Some:
  "split_last c s = Some (a, b) \<longleftrightarrow> s = a @ c # b \<and> c \<notin> set b"
proof -
  have "split_last c s = Some (a, b) \<longleftrightarrow> split_first c (rev s) = Some (rev b, rev a)"
    by (cases "split_first c (rev s)") (auto simp: split_last_def simp del: split_first_None)
  also have "\<dots> \<longleftrightarrow> rev s = rev b @ c # rev a \<and> c \<notin> set b"
    by (simp add: split_first_Some)
  also have "rev s = rev b @ c # rev a \<longleftrightarrow> s = a @ c # b"
    by (metis append.assoc append_Cons append_Nil rev.simps(2) rev_append rev_rev_ident)
  finally show ?thesis .
qed

lemma split_last_None: "split_last c s = None \<longleftrightarrow> c \<notin> set s"
  using split_first_None [of c "rev s"]
  by (cases "split_first c (rev s)") (auto simp: split_last_def simp del: split_first_None)

text \<open>\<open>s.split()\<close>: the maximal runs of non-blank characters.\<close>

function split_ws :: "string \<Rightarrow> string list" where
  "split_ws s =
     (let t = dropWhile is_space s in
      if t = [] then []
      else takeWhile (\<lambda>c. \<not> is_space c) t # split_ws (dropWhile (\<lambda>c. \<not> is_space c) t))"
  by pat_completeness auto
termination
proof (relation "measure length")
  fix s t :: string
  assume t: "t = dropWhile is_space s" and ne: "t \<noteq> []"
  have "\<not> is_space (hd t)" using t ne hd_dropWhile by blast
  then have "length (dropWhile (\<lambda>c. \<not> is_space c) t) < length t"
    using ne by (cases t) (auto simp: length_dropWhile_le less_Suc_eq_le)
  also have "length t \<le> length s" by (simp add: t length_dropWhile_le)
  finally show "(dropWhile (\<lambda>c. \<not> is_space c) t, s) \<in> measure length" by simp
qed simp

declare split_ws.simps [simp del]

lemma split_ws_step:
  "split_ws s = (if dropWhile is_space s = [] then []
     else takeWhile (\<lambda>c. \<not> is_space c) (dropWhile is_space s)
          # split_ws (dropWhile (\<lambda>c. \<not> is_space c) (dropWhile is_space s)))"
  by (subst split_ws.simps) (simp only: Let_def)

lemma split_ws_words: "w \<in> set (split_ws s) \<Longrightarrow> w \<noteq> [] \<and> (\<forall>c \<in> set w. \<not> is_space c)"
proof (induction s rule: split_ws.induct)
  case (1 s)
  show ?case
  proof (cases "dropWhile is_space s = []")
    case True
    then have "split_ws s = []" by (subst split_ws_step) simp
    with "1.prems" show ?thesis by simp
  next
    case False
    define t where "t = dropWhile is_space s"
    have "\<not> is_space (hd t)" using False hd_dropWhile t_def by blast
    then have ne: "takeWhile (\<lambda>c. \<not> is_space c) t \<noteq> []"
      using False by (cases t) (auto simp: t_def)
    from False have eq: "split_ws s = takeWhile (\<lambda>c. \<not> is_space c) t # split_ws (dropWhile (\<lambda>c. \<not> is_space c) t)"
      unfolding t_def by (simp only: split_ws_step [of s] if_False)
    from "1.prems" consider "w = takeWhile (\<lambda>c. \<not> is_space c) t" | "w \<in> set (split_ws (dropWhile (\<lambda>c. \<not> is_space c) t))"
      unfolding eq by auto
    then show ?thesis
    proof cases
      case 1
      with ne show ?thesis by (auto dest: set_takeWhileD)
    next
      case 2
      moreover have "t \<noteq> []" using False by (simp add: t_def)
      ultimately show ?thesis by (intro "1.IH" [OF t_def])
    qed
  qed
qed

text \<open>
  \<open>str.splitlines\<close>: line ends are \<open>\n\<close>, \<open>\r\<close>, \<open>\r\n\<close>, \<open>\v\<close>, \<open>\f\<close>, the separators 28 to 30 and 133; a
  final line end starts no further line.
\<close>

definition is_line_end :: "char \<Rightarrow> bool" where
  "is_line_end c = (let n = (of_char c :: nat) in (10 \<le> n \<and> n \<le> 13) \<or> (28 \<le> n \<and> n \<le> 30) \<or> n = 133)"

fun splitlines_aux :: "string \<Rightarrow> string \<Rightarrow> string list" where
  "splitlines_aux cur [] = (if cur = [] then [] else [rev cur])"
| "splitlines_aux cur (c # cs) =
     (if is_line_end c
      then rev cur # (case cs of
             d # ds \<Rightarrow> if c = CHR 0x0D \<and> d = CHR 0x0A then splitlines_aux [] ds else splitlines_aux [] cs
           | [] \<Rightarrow> [])
      else splitlines_aux (c # cur) cs)"

definition splitlines :: "string \<Rightarrow> string list" where
  "splitlines s = splitlines_aux [] s"

section \<open>Integers and text\<close>

definition digit_val :: "char \<Rightarrow> nat option" where
  "digit_val c = (let n = (of_char c :: nat) in
     if 48 \<le> n \<and> n \<le> 57 then Some (n - 48)
     else if 97 \<le> n \<and> n \<le> 122 then Some (n - 87)
     else if 65 \<le> n \<and> n \<le> 90 then Some (n - 55)
     else None)"

text \<open>Digits of a base, with single underscores between them; \<open>prev\<close> says that a digit came last.\<close>

fun digits_acc :: "nat \<Rightarrow> bool \<Rightarrow> nat \<Rightarrow> string \<Rightarrow> nat option" where
  "digits_acc b prev acc [] = (if prev then Some acc else None)"
| "digits_acc b prev acc (c # cs) =
     (if c = CHR ''_'' then (if prev then digits_acc b False acc cs else None)
      else case digit_val c of
        None \<Rightarrow> None
      | Some d \<Rightarrow> if d < b then digits_acc b True (acc * b + d) cs else None)"

definition strip_hex_prefix :: "string \<Rightarrow> string" where
  "strip_hex_prefix u =
     (case u of
        z # x # r \<Rightarrow>
          if z = CHR ''0'' \<and> (x = CHR ''x'' \<or> x = CHR ''X'')
          then (case r of d # r' \<Rightarrow> if d = CHR ''_'' then r' else r | [] \<Rightarrow> r)
          else u
      | _ \<Rightarrow> u)"

text \<open>\<open>int(s, b)\<close> for \<open>b\<close> 10 or 16; \<open>None\<close> where it raises \<open>ValueError\<close>.\<close>

definition int_of_str :: "nat \<Rightarrow> string \<Rightarrow> int option" where
  "int_of_str b s =
     (let t = strip s;
          neg = (case t of c # _ \<Rightarrow> c = CHR ''-'' | [] \<Rightarrow> False);
          sgnd = (case t of c # _ \<Rightarrow> c = CHR ''-'' \<or> c = CHR ''+'' | [] \<Rightarrow> False);
          u = (if sgnd then tl t else t);
          v = (if b = 16 then strip_hex_prefix u else u)
      in map_option (\<lambda>n. if neg then - int n else int n) (digits_acc b False 0 v))"

definition digit_char :: "nat \<Rightarrow> char" where
  "digit_char d = char_of (if d < 10 then 48 + d else 87 + d)"

fun nat_digits :: "nat \<Rightarrow> nat \<Rightarrow> string" where
  "nat_digits b n = (if n < b \<or> b < 2 then [digit_char n] else nat_digits b (n div b) @ [digit_char (n mod b)])"

declare nat_digits.simps [simp del]

text \<open>\<open>str(i)\<close>.\<close>

definition str_of_int :: "int \<Rightarrow> string" where
  "str_of_int i = (if i < 0 then CHR ''-'' # nat_digits 10 (nat (- i)) else nat_digits 10 (nat i))"

lemma of_char_digit_char: "d < 36 \<Longrightarrow> (of_char (digit_char d) :: nat) = (if d < 10 then 48 + d else 87 + d)"
  by (simp add: digit_char_def)

lemma digit_val_digit_char [simp]: "d < 36 \<Longrightarrow> digit_val (digit_char d) = Some d"
  by (simp add: digit_val_def of_char_digit_char)

lemma digit_val_underscore [simp]: "digit_val (CHR ''_'') = None"
  by (simp add: digit_val_def)

lemma digit_char_not_underscore [simp]: "d < 36 \<Longrightarrow> digit_char d \<noteq> CHR ''_''"
  by (metis digit_val_digit_char digit_val_underscore option.distinct(1))

lemma digits_acc_append:
  "digits_acc b True acc (ds @ [digit_char d]) = map_option (\<lambda>n. n * b + d) (digits_acc b True acc ds)"
  if "d < b" "b \<le> 36" "\<forall>c \<in> set ds. \<exists>e < b. c = digit_char e"
  using that by (induction ds arbitrary: acc) (auto split: option.splits)

lemma nat_digits_all: "1 < b \<Longrightarrow> b \<le> 36 \<Longrightarrow> \<forall>c \<in> set (nat_digits b n). \<exists>e < b. c = digit_char e"
proof (induction b n rule: nat_digits.induct)
  case (1 b n)
  show ?case
  proof (cases "n < b")
    case True
    then show ?thesis by (subst nat_digits.simps) auto
  next
    case False
    with 1 have "\<forall>c \<in> set (nat_digits b (n div b)). \<exists>e < b. c = digit_char e" by simp
    moreover from "1.prems" have "\<exists>e < b. digit_char (n mod b) = digit_char e"
      by (intro exI [of _ "n mod b"]) simp
    ultimately show ?thesis using False "1.prems" by (subst nat_digits.simps) auto
  qed
qed

lemma nat_digits_nonempty [simp]: "nat_digits b n \<noteq> []"
  by (subst nat_digits.simps) simp

lemma digits_acc_prev: "ds \<noteq> [] \<Longrightarrow> hd ds \<noteq> CHR ''_'' \<Longrightarrow> digits_acc b False acc ds = digits_acc b True acc ds"
  by (cases ds) auto

lemma digits_acc_nat_digits: "1 < b \<Longrightarrow> b \<le> 36 \<Longrightarrow> digits_acc b True 0 (nat_digits b n) = Some n"
proof (induction b n rule: nat_digits.induct)
  case (1 b n)
  show ?case
  proof (cases "n < b")
    case True
    with "1.prems" show ?thesis by (subst nat_digits.simps) simp
  next
    case False
    with 1 have "digits_acc b True 0 (nat_digits b (n div b)) = Some (n div b)" by simp
    with False "1.prems" show ?thesis
      by (subst nat_digits.simps) (simp add: digits_acc_append nat_digits_all)
  qed
qed

lemma hd_nat_digits: "1 < b \<Longrightarrow> b \<le> 36 \<Longrightarrow> \<exists>e < b. hd (nat_digits b n) = digit_char e"
  using nat_digits_all [of b n] by (metis hd_in_set nat_digits_nonempty)

text \<open>The digits of a printed number are none of the characters \<open>int\<close> treats specially.\<close>

lemma digit_char_not_special:
  "d < 36 \<Longrightarrow> \<not> is_space (digit_char d) \<and> digit_char d \<noteq> CHR ''-'' \<and> digit_char d \<noteq> CHR ''+''"
  using of_char_digit_char [of d] by (auto simp: is_space_def Let_def split: if_splits)

lemma digit_char_neq: "d < 36 \<Longrightarrow> (of_char c :: nat) < 48 \<Longrightarrow> digit_char d \<noteq> c"
  using of_char_digit_char [of d] by (auto split: if_splits)

lemma strip_nat_digits: "strip (nat_digits 10 n) = nat_digits 10 n"
  by (rule strip_no_space)
     (use nat_digits_all [of 10 n] digit_char_not_special in fastforce)

theorem int_of_str_str_of_int: "int_of_str 10 (str_of_int i) = Some i"
proof -
  have acc: "digits_acc 10 False 0 (nat_digits 10 n) = Some n" for n
    using hd_nat_digits [of 10 n] by (auto simp: digits_acc_prev digits_acc_nat_digits)
  have first: "\<exists>c cs. nat_digits 10 n = c # cs \<and> c \<noteq> CHR ''-'' \<and> c \<noteq> CHR ''+''" for n
    using hd_nat_digits [of 10 n] digit_char_not_special
    by (cases "nat_digits 10 n") fastforce+
  have minus: "strip (CHR ''-'' # nat_digits 10 n) = CHR ''-'' # nat_digits 10 n" for n
    by (rule strip_no_space)
       (use nat_digits_all [of 10 n] digit_char_not_special in \<open>fastforce simp: is_space_def\<close>)
  show ?thesis
  proof (cases "i < 0")
    case True
    then show ?thesis
      by (simp add: int_of_str_def str_of_int_def minus acc Let_def)
  next
    case False
    obtain c cs where c: "nat_digits 10 (nat i) = c # cs" "c \<noteq> CHR ''-''" "c \<noteq> CHR ''+''"
      using first by blast
    with False acc [of "nat i"] strip_nat_digits [of "nat i"] show ?thesis
      by (simp add: int_of_str_def str_of_int_def Let_def)
  qed
qed

end
