(* ===== verification/PyJson.thy ===== *)
theory PyJson
  imports PyStr
begin

text \<open>
  What the source does with a decoded JSON value: \<open>isinstance\<close> tests, subscripts, \<open>.get\<close>, iteration,
  truth value and the \<open>int\<close> conversion, each with the exception Python raises on a value of the wrong
  kind. \<open>json.loads\<close> itself stays a parameter of the definitions that use it.
\<close>

text \<open>\<open>x[k]\<close> with a string key.\<close>

fun py_item :: "json \<Rightarrow> string \<Rightarrow> json res" where
  "py_item (JObj d) k = (case map_of d k of None \<Rightarrow> Inl (KeyError k) | Some v \<Rightarrow> Inr v)"
| "py_item _ k = Inl TypeError"

text \<open>\<open>x.get(k, dflt)\<close>: only a dict has the method.\<close>

fun py_get :: "json \<Rightarrow> string \<Rightarrow> json \<Rightarrow> json res" where
  "py_get (JObj d) k dflt = Inr (case map_of d k of None \<Rightarrow> dflt | Some v \<Rightarrow> v)"
| "py_get _ k dflt = Inl AttributeError"

text \<open>\<open>for y in x\<close>: a list gives its elements, a dict its keys, a string its characters.\<close>

fun py_iter :: "json \<Rightarrow> json list res" where
  "py_iter (JList xs) = Inr xs"
| "py_iter (JObj d) = Inr (map (\<lambda>kv. JStr (fst kv)) d)"
| "py_iter (JStr s) = Inr (map (\<lambda>c. JStr [c]) s)"
| "py_iter _ = Inl TypeError"

text \<open>\<open>k in x\<close> for a string \<open>k\<close>.\<close>

fun py_in :: "string \<Rightarrow> json \<Rightarrow> bool res" where
  "py_in k (JObj d) = Inr (map_of d k \<noteq> None)"
| "py_in k (JList xs) = Inr (JStr k \<in> set xs)"
| "py_in k (JStr s) = Inr (contains_sub k s)"
| "py_in k _ = Inl TypeError"

fun py_truthy :: "json \<Rightarrow> bool" where
  "py_truthy JNull = False"
| "py_truthy (JBool b) = b"
| "py_truthy (JInt i) = (i \<noteq> 0)"
| "py_truthy (JFloat (FFinite m e)) = (m \<noteq> 0)"
| "py_truthy (JFloat _) = True"
| "py_truthy (JStr s) = (s \<noteq> [])"
| "py_truthy (JList xs) = (xs \<noteq> [])"
| "py_truthy (JObj d) = (d \<noteq> [])"

text \<open>\<open>int(f)\<close> truncates a finite float towards zero.\<close>

fun trunc_float :: "pyfloat \<Rightarrow> int res" where
  "trunc_float (FFinite m e) =
     Inr (if 0 \<le> e then m * 2 ^ nat e else sgn m * (\<bar>m\<bar> div 2 ^ nat (- e)))"
| "trunc_float (FInf _) = Inl OverflowError"
| "trunc_float FNaN = Inl ValueError"

fun py_int :: "json \<Rightarrow> int res" where
  "py_int (JInt i) = Inr i"
| "py_int (JBool b) = Inr (if b then 1 else 0)"
| "py_int (JFloat f) = trunc_float f"
| "py_int (JStr s) = (case int_of_str 10 s of None \<Rightarrow> Inl ValueError | Some i \<Rightarrow> Inr i)"
| "py_int _ = Inl TypeError"

text \<open>\<open>int(x[k])\<close> and \<open>int(x.get(k, 0))\<close>.\<close>

definition int_item :: "json \<Rightarrow> string \<Rightarrow> int res" where
  "int_item x k = bind_res (py_item x k) py_int"

definition int_get0 :: "json \<Rightarrow> string \<Rightarrow> int res" where
  "int_get0 x k = bind_res (py_get x k (JInt 0)) py_int"

lemma int_item_JObj [simp]:
  "int_item (JObj d) k = (case map_of d k of None \<Rightarrow> Inl (KeyError k) | Some v \<Rightarrow> py_int v)"
  by (simp add: int_item_def split: option.splits)

lemma int_get0_JObj [simp]:
  "int_get0 (JObj d) k = (case map_of d k of None \<Rightarrow> Inr 0 | Some v \<Rightarrow> py_int v)"
  by (simp add: int_get0_def split: option.splits)

lemma py_int_str_of_int [simp]: "py_int (JStr (str_of_int i)) = Inr i"
  by (simp add: int_of_str_str_of_int)

fun is_dict :: "json \<Rightarrow> bool" where
  "is_dict (JObj _) = True"
| "is_dict _ = False"

end
