(* ===== verification/StructFmt.thy ===== *)
theory StructFmt
  imports PyJson "HOL-Library.Word"
begin

text \<open>
  \<open>struct.unpack\<close> and \<open>struct.pack\<close> for the little-endian formats of the source, the C layout the
  kernel side uses for the same structs, and the byte lists that bpftool prints. The interface locale
  \<open>layout\<close> states what a record with a fixed layout promises; its round trip is proved once.
\<close>

type_synonym byte = "8 word"

section \<open>Little-endian integers\<close>

fun le_uint :: "byte list \<Rightarrow> int" where
  "le_uint [] = 0"
| "le_uint (b # bs) = uint b + 256 * le_uint bs"

fun le_bytes :: "nat \<Rightarrow> int \<Rightarrow> byte list" where
  "le_bytes 0 v = []"
| "le_bytes (Suc n) v = word_of_int v # le_bytes n (v div 256)"

lemma uint_byte [simp]: "0 \<le> v \<Longrightarrow> v < 256 \<Longrightarrow> uint (word_of_int v :: byte) = v"
  by (simp add: uint_word_of_int)

lemma length_le_bytes [simp]: "length (le_bytes n v) = n"
  by (induction n arbitrary: v) auto

lemma le_uint_bounds: "0 \<le> le_uint bs \<and> le_uint bs < 256 ^ length bs"
proof (induction bs)
  case (Cons b bs)
  have "0 \<le> uint b" "uint b < 256" using uint_lt2p [of b] by simp_all
  with Cons show ?case by simp
qed simp

lemma le_uint_le_bytes: "0 \<le> v \<Longrightarrow> v < 256 ^ n \<Longrightarrow> le_uint (le_bytes n v) = v"
proof (induction n arbitrary: v)
  case (Suc n)
  then have "v div 256 < 256 ^ n" by simp
  with Suc have "le_uint (le_bytes n (v div 256)) = v div 256" by simp
  then show ?case by (simp add: uint_word_of_int)
qed simp

lemma le_bytes_le_uint: "le_bytes (length bs) (le_uint bs) = bs"
proof (induction bs)
  case (Cons b bs)
  have b: "0 \<le> uint b" "uint b < 256" using uint_lt2p [of b] by simp_all
  then have "(uint b + 256 * le_uint bs) div 256 = le_uint bs" by simp
  moreover have "word_of_int (uint b + 256 * le_uint bs) = b"
  proof -
    have "uint (word_of_int (uint b + 256 * le_uint bs) :: byte) = uint b"
      using b by (simp only: uint_word_of_int) simp
    then show ?thesis by (simp only: word_uint_eq_iff)
  qed
  ultimately show ?case using Cons by simp
qed simp

section \<open>Formats\<close>

text \<open>The format characters \<open>B\<close>, \<open>H\<close>, \<open>I\<close>, \<open>Q\<close> and \<open>nx\<close> of a \<open><\<close> format: no alignment is added.\<close>

datatype fmt = FB | FH | FI | FQ | FX nat

fun fmt_size :: "fmt \<Rightarrow> nat" where
  "fmt_size FB = 1"
| "fmt_size FH = 2"
| "fmt_size FI = 4"
| "fmt_size FQ = 8"
| "fmt_size (FX n) = n"

fun is_pad :: "fmt \<Rightarrow> bool" where
  "is_pad (FX _) = True"
| "is_pad _ = False"

definition calcsize :: "fmt list \<Rightarrow> nat" where
  "calcsize fs = sum_list (map fmt_size fs)"

lemma calcsize_simps [simp]:
  "calcsize [] = 0" "calcsize (f # fs) = fmt_size f + calcsize fs"
  by (simp_all add: calcsize_def)

text \<open>\<open>struct.unpack\<close>: the byte count must be exact, else \<open>struct.error\<close>.\<close>

fun unpack :: "fmt list \<Rightarrow> byte list \<Rightarrow> int list res" where
  "unpack [] bs = (if bs = [] then Inr [] else Inl StructError)"
| "unpack (f # fs) bs =
     (if length bs < fmt_size f then Inl StructError
      else bind_res (unpack fs (drop (fmt_size f) bs)) (\<lambda>vs.
        Inr (if is_pad f then vs else le_uint (take (fmt_size f) bs) # vs)))"

text \<open>\<open>struct.pack\<close>: a value out of its range, or a wrong number of values, is \<open>struct.error\<close>.\<close>

fun pack :: "fmt list \<Rightarrow> int list \<Rightarrow> byte list res" where
  "pack [] [] = Inr []"
| "pack [] (v # vs) = Inl StructError"
| "pack (FX n # fs) vs = bind_res (pack fs vs) (\<lambda>bs. Inr (replicate n 0 @ bs))"
| "pack (f # fs) [] = Inl StructError"
| "pack (f # fs) (v # vs) =
     (if 0 \<le> v \<and> v < 256 ^ fmt_size f
      then bind_res (pack fs vs) (\<lambda>bs. Inr (le_bytes (fmt_size f) v @ bs))
      else Inl StructError)"

lemma pack_value:
  "\<not> is_pad f \<Longrightarrow> pack (f # fs) (v # vs) =
     (if 0 \<le> v \<and> v < 256 ^ fmt_size f
      then bind_res (pack fs vs) (\<lambda>bs. Inr (le_bytes (fmt_size f) v @ bs))
      else Inl StructError)"
  by (cases f) simp_all

lemma pack_no_value: "\<not> is_pad f \<Longrightarrow> pack (f # fs) [] = Inl StructError"
  by (cases f) simp_all

lemma pack_length: "pack fs vs = Inr bs \<Longrightarrow> length bs = calcsize fs"
proof (induction fs arbitrary: vs bs)
  case Nil
  then show ?case by (cases vs) auto
next
  case (Cons f fs)
  then show ?case
    by (cases "is_pad f"; cases vs)
       (auto simp: res_simps pack_value pack_no_value split: if_splits elim!: is_pad.elims)
qed

lemma unpack_pack: "pack fs vs = Inr bs \<Longrightarrow> unpack fs bs = Inr vs"
proof (induction fs arbitrary: vs bs)
  case Nil
  then show ?case by (cases vs) auto
next
  case (Cons f fs)
  then show ?case
    by (cases "is_pad f"; cases vs)
       (auto simp: res_simps pack_value pack_no_value le_uint_le_bytes split: if_splits elim!: is_pad.elims)
qed

lemma unpack_total: "length bs = calcsize fs \<Longrightarrow> \<exists>vs. unpack fs bs = Inr vs"
proof (induction fs arbitrary: bs)
  case (Cons f fs)
  then have "length (drop (fmt_size f) bs) = calcsize fs" by simp
  from Cons.IH [OF this] Cons.prems show ?case by auto
qed simp

lemma unpack_size: "unpack fs bs = Inr vs \<Longrightarrow> length bs = calcsize fs"
  by (induction fs arbitrary: bs vs) (fastforce simp: res_simps split: if_splits)+

lemma unpack_length: "unpack fs bs = Inr vs \<Longrightarrow> length vs = length (filter (\<lambda>f. \<not> is_pad f) fs)"
  by (induction fs arbitrary: bs vs) (fastforce simp: res_simps split: if_splits)+

section \<open>C struct layout\<close>

text \<open>
  The members of a kernel-side struct, by width in bytes (\<open>__u8\<close>, \<open>__u16\<close>, \<open>__u32\<close>, \<open>__u64\<close>), and whether
  user space reads the member (an explicit \<open>pad\<close> member is skipped). Natural alignment puts each member at
  a multiple of its width and rounds the struct up to its widest member.
\<close>

datatype c_member = CField nat | CPad nat

fun c_width :: "c_member \<Rightarrow> nat" where
  "c_width (CField n) = n"
| "c_width (CPad n) = n"

fun is_field :: "c_member \<Rightarrow> bool" where
  "is_field (CField _) = True"
| "is_field (CPad _) = False"

definition align_gap :: "nat \<Rightarrow> nat \<Rightarrow> nat" where
  "align_gap n off = (if off mod n = 0 then 0 else n - off mod n)"

fun c_offsets :: "nat \<Rightarrow> c_member list \<Rightarrow> (nat \<times> c_member) list" where
  "c_offsets off [] = []"
| "c_offsets off (m # ms) =
     (let o' = off + align_gap (c_width m) off in (o', m) # c_offsets (o' + c_width m) ms)"

definition c_sizeof :: "c_member list \<Rightarrow> nat" where
  "c_sizeof ms =
     (case rev (c_offsets 0 ms) of
        [] \<Rightarrow> 0
      | (o', m) # _ \<Rightarrow> let e = o' + c_width m in e + align_gap (Max (set (map c_width ms))) e)"

text \<open>Offset and width of every value of a format, and of every readable member of a struct.\<close>

fun fmt_offsets :: "nat \<Rightarrow> fmt list \<Rightarrow> (nat \<times> nat) list" where
  "fmt_offsets off [] = []"
| "fmt_offsets off (f # fs) =
     (if is_pad f then fmt_offsets (off + fmt_size f) fs
      else (off, fmt_size f) # fmt_offsets (off + fmt_size f) fs)"

definition c_field_offsets :: "c_member list \<Rightarrow> (nat \<times> nat) list" where
  "c_field_offsets ms =
     map (\<lambda>p. (fst p, c_width (snd p))) (filter (\<lambda>p. is_field (snd p)) (c_offsets 0 ms))"

definition layout_agrees :: "fmt list \<Rightarrow> c_member list \<Rightarrow> bool" where
  "layout_agrees fs ms \<longleftrightarrow> fmt_offsets 0 fs = c_field_offsets ms \<and> calcsize fs = c_sizeof ms"

text \<open>A format reads at its offsets: each value is the little-endian integer there.\<close>

lemma unpack_at_offsets:
  "unpack fs bs = Inr vs \<Longrightarrow>
     vs = map (\<lambda>(o', n). le_uint (take n (drop (o' - off) bs))) (fmt_offsets off fs)"
proof (induction fs arbitrary: bs vs off)
  case Nil
  then show ?case by (simp split: if_splits)
next
  case (Cons f fs)
  from Cons.prems obtain ws where
    ws: "unpack fs (drop (fmt_size f) bs) = Inr ws"
    and vs: "vs = (if is_pad f then ws else le_uint (take (fmt_size f) bs) # ws)"
    by (auto simp: res_simps split: if_splits)
  have ge: "\<forall>(o', n) \<in> set (fmt_offsets o0 gs). o0 \<le> o'" for o0 gs
    by (induction gs arbitrary: o0) (fastforce split: if_splits)+
  have "ws = map (\<lambda>(o', n). le_uint (take n (drop (o' - (off + fmt_size f)) (drop (fmt_size f) bs))))
               (fmt_offsets (off + fmt_size f) fs)"
    by (rule Cons.IH [OF ws])
  also have "\<dots> = map (\<lambda>(o', n). le_uint (take n (drop (o' - off) bs))) (fmt_offsets (off + fmt_size f) fs)"
    by (rule map_cong [OF refl]) (use ge [of "off + fmt_size f" fs] in \<open>fastforce simp: add.commute\<close>)
  finally show ?case by (simp add: vs)
qed

section \<open>Byte lists of bpftool\<close>

text \<open>\<open>raw_bytes\<close> of \<open>ebpf.py\<close>: a list of hex strings or numbers, each of which must be a byte.\<close>

definition raw_byte :: "json \<Rightarrow> byte res" where
  "raw_byte part =
     bind_res (case part of
         JStr s \<Rightarrow> (case int_of_str 16 s of None \<Rightarrow> Inl ValueError | Some i \<Rightarrow> Inr i)
       | _ \<Rightarrow> py_int part) (\<lambda>i.
       if 0 \<le> i \<and> i < 256 then Inr (word_of_int i) else Inl ValueError)"

fun raw_bytes :: "json \<Rightarrow> byte list res" where
  "raw_bytes (JList parts) = traverse raw_byte parts"
| "raw_bytes v = Inl (RuntimeError ''expected bpftool byte list, got: {}'' [v])"

text \<open>How bpftool prints a byte, and a byte string, in its JSON output.\<close>

definition hex_byte :: "byte \<Rightarrow> string" where
  "hex_byte b = [CHR ''0'', CHR ''x'', digit_char (unat b div 16), digit_char (unat b mod 16)]"

definition json_bytes :: "byte list \<Rightarrow> json" where
  "json_bytes bs = JList (map (\<lambda>b. JStr (hex_byte b)) bs)"

lemma unat_byte_lt: "unat (b :: byte) < 256"
  using unsigned_less [of b, where 'a = nat] by simp

lemma int_of_str_hex_byte: "int_of_str 16 (hex_byte b) = Some (uint b)"
proof -
  have d: "unat b div 16 < 16" "unat b mod 16 < 16" using unat_byte_lt [of b] by auto
  have "strip (hex_byte b) = hex_byte b"
    by (rule strip_no_space) (use d digit_char_not_special in \<open>auto simp: hex_byte_def is_space_def\<close>)
  then have "int_of_str 16 (hex_byte b) = Some (int (unat b div 16 * 16 + unat b mod 16))"
    using d by (simp add: int_of_str_def hex_byte_def strip_hex_prefix_def)
  also have "unat b div 16 * 16 + unat b mod 16 = unat b" by simp
  finally show ?thesis by simp
qed

lemma raw_byte_hex_byte [simp]: "raw_byte (JStr (hex_byte b)) = Inr b"
  using uint_lt2p [of b] by (simp add: raw_byte_def int_of_str_hex_byte)

lemma raw_bytes_json_bytes [simp]: "raw_bytes (json_bytes bs) = Inr bs"
  unfolding json_bytes_def by (simp, induction bs) simp_all

lemma is_dict_json_bytes [simp]: "\<not> is_dict (json_bytes bs)" "json_bytes bs \<noteq> JNull"
  by (simp_all add: json_bytes_def)

section \<open>Records with a fixed layout\<close>

text \<open>
  The decoder of a fixed layout takes the first \<open>calcsize\<close> bytes and builds the record from their values.
  What a layout promises is that building a record from its own values gives it back.
\<close>

definition decode_layout :: "fmt list \<Rightarrow> (int list \<Rightarrow> 'r res) \<Rightarrow> byte list \<Rightarrow> 'r res" where
  "decode_layout fs of_vals bs = bind_res (unpack fs (take (calcsize fs) bs)) of_vals"

locale record_layout =
  fixes fs :: "fmt list"
    and of_vals :: "int list \<Rightarrow> 'r res"
    and vals :: "'r \<Rightarrow> int list"
  assumes of_vals_vals: "of_vals (vals r) = Inr r"
    and of_vals_total: "length vs = length (filter (\<lambda>f. \<not> is_pad f) fs) \<Longrightarrow> \<exists>r. of_vals vs = Inr r"
begin

text \<open>Round trip: what the kernel packs is what user space reads, whatever bytes follow.\<close>

lemma decode_encode:
  assumes "pack fs (vals r) = Inr bs"
  shows "decode_layout fs of_vals (bs @ more) = Inr r"
  using pack_length [OF assms] unpack_pack [OF assms]
  by (simp add: decode_layout_def of_vals_vals)

text \<open>Enough bytes always decode: the only failure is a short buffer.\<close>

lemma decode_total:
  assumes "calcsize fs \<le> length bs"
  shows "\<exists>r. decode_layout fs of_vals bs = Inr r"
proof -
  have "length (take (calcsize fs) bs) = calcsize fs" using assms by simp
  from unpack_total [OF this] obtain vs where vs: "unpack fs (take (calcsize fs) bs) = Inr vs" by blast
  from of_vals_total [OF unpack_length [OF vs]] vs show ?thesis by (auto simp: decode_layout_def)
qed

end

end
