(* ===== verification/Os.thy ===== *)
theory Os
  imports StructFmt Complex_Main
begin

text \<open>
  The operating system as the source sees it, and the state-and-exception type its methods are written
  in. Everything outside the program (clocks, files, \<open>/proc\<close>, subprocesses, the resolver, \<open>json.loads\<close>)
  is a field of the record \<open>os\<close> over an abstract world \<open>'w\<close>; a method with an object state runs over the
  pair of the object and the world, so whatever it did before an exception stays visible.
\<close>

section \<open>State and exceptions\<close>

type_synonym ('s, 'a) io = "'s \<Rightarrow> 'a res \<times> 's"

definition io_return :: "'a \<Rightarrow> ('s, 'a) io" where
  "io_return x s = (Inr x, s)"

definition io_raise :: "py_error \<Rightarrow> ('s, 'a) io" where
  "io_raise e s = (Inl e, s)"

definition io_res :: "'a res \<Rightarrow> ('s, 'a) io" where
  "io_res r s = (r, s)"

definition io_bind :: "('s, 'a) io \<Rightarrow> ('a \<Rightarrow> ('s, 'b) io) \<Rightarrow> ('s, 'b) io" where
  "io_bind m f s = (case m s of (Inl e, s') \<Rightarrow> (Inl e, s') | (Inr x, s') \<Rightarrow> f x s')"

text \<open>\<open>io_then m n\<close>: \<open>m\<close>, then \<open>n\<close>.\<close>

definition io_then :: "('s, 'a) io \<Rightarrow> ('s, 'b) io \<Rightarrow> ('s, 'b) io" where
  "io_then m n = io_bind m (\<lambda>_. n)"

text \<open>\<open>try: m / except: h\<close>; the handler sees the exception and the state it left.\<close>

definition io_catch :: "('s, 'a) io \<Rightarrow> (py_error \<Rightarrow> ('s, 'a) io) \<Rightarrow> ('s, 'a) io" where
  "io_catch m h s = (case m s of (Inl e, s') \<Rightarrow> h e s' | (Inr x, s') \<Rightarrow> (Inr x, s'))"

definition io_op :: "('s \<Rightarrow> 'a \<times> 's) \<Rightarrow> ('s, 'a) io" where
  "io_op f s = (case f s of (x, s') \<Rightarrow> (Inr x, s'))"

definition io_get :: "('s \<Rightarrow> 'a) \<Rightarrow> ('s, 'a) io" where
  "io_get f s = (Inr (f s), s)"

definition io_modify :: "('s \<Rightarrow> 's) \<Rightarrow> ('s, unit) io" where
  "io_modify f s = (Inr (), f s)"

text \<open>A world operation, and an operation of an inner object, run inside a method.\<close>

definition io_world :: "('w, 'a) io \<Rightarrow> ('o \<times> 'w, 'a) io" where
  "io_world m s = (case m (snd s) of (r, w') \<Rightarrow> (r, (fst s, w')))"

definition io_self :: "('o \<Rightarrow> 'i) \<Rightarrow> ('i \<Rightarrow> 'o \<Rightarrow> 'o) \<Rightarrow> ('i \<times> 'w, 'a) io \<Rightarrow> ('o \<times> 'w, 'a) io" where
  "io_self get put m s =
     (case m (get (fst s), snd s) of (r, (i', w')) \<Rightarrow> (r, (put i' (fst s), w')))"

definition io_when :: "bool \<Rightarrow> ('s, unit) io \<Rightarrow> ('s, unit) io" where
  "io_when b m = (if b then m else io_return ())"

fun io_traverse :: "('a \<Rightarrow> ('s, 'b) io) \<Rightarrow> 'a list \<Rightarrow> ('s, 'b list) io" where
  "io_traverse f [] = io_return []"
| "io_traverse f (x # xs) = io_bind (f x) (\<lambda>y. io_bind (io_traverse f xs) (\<lambda>ys. io_return (y # ys)))"

lemmas io_defs = io_return_def io_raise_def io_res_def io_bind_def io_then_def io_catch_def io_op_def
  io_get_def io_modify_def io_world_def io_self_def io_when_def

lemma io_bind_Inr_iff [res_simps]:
  "io_bind m f s = (Inr y, t) \<longleftrightarrow> (\<exists>x u. m s = (Inr x, u) \<and> f x u = (Inr y, t))"
  by (auto simp: io_bind_def split: prod.splits sum.splits)

lemma io_bind_Inl_iff [res_simps]:
  "io_bind m f s = (Inl e, t) \<longleftrightarrow> m s = (Inl e, t) \<or> (\<exists>x u. m s = (Inr x, u) \<and> f x u = (Inl e, t))"
  by (auto simp: io_bind_def split: prod.splits sum.splits)

lemma io_bind_return [simp]: "io_bind m io_return = m"
  by (auto simp: io_defs fun_eq_iff split: prod.splits sum.splits)

lemma io_return_bind [simp]: "io_bind (io_return x) f = f x"
  by (simp add: io_defs fun_eq_iff)

lemma io_bind_assoc: "io_bind (io_bind m f) g = io_bind m (\<lambda>x. io_bind (f x) g)"
  by (auto simp: io_defs fun_eq_iff split: prod.splits sum.splits)

section \<open>Frames\<close>

text \<open>
  \<open>frames f m\<close>: whatever \<open>m\<close> does, also when it raises, the observation \<open>f\<close> of the state is the same after
  it. The rules in \<open>frame_intros\<close> follow the program text, so a frame is proved by introduction.
\<close>

named_theorems frame_intros

definition frames :: "('s \<Rightarrow> 'x) \<Rightarrow> ('s, 'a) io \<Rightarrow> bool" where
  "frames f m \<longleftrightarrow> (\<forall>s. f (snd (m s)) = f s)"

lemma framesD: "frames f m \<Longrightarrow> m s = (r, t) \<Longrightarrow> f t = f s"
  by (metis frames_def snd_conv)

lemma frames_bind [frame_intros]:
  assumes "frames f m" and "\<And>x. frames f (g x)"
  shows "frames f (io_bind m g)"
  unfolding frames_def
proof
  fix s
  show "f (snd (io_bind m g s)) = f s"
    using assms framesD [OF assms(1), of s]
    by (cases "m s"; cases "fst (m s)") (auto simp: io_bind_def frames_def)
qed

lemma frames_basic [frame_intros]:
  "frames f (io_return x)" "frames f (io_raise e)" "frames f (io_res r)" "frames f (io_get h)"
  by (simp_all add: frames_def io_defs)

lemma frames_world [frame_intros]: "frames (f \<circ> fst) (io_world m)"
  by (simp add: frames_def io_world_def split: prod.splits)

lemma frames_modify [frame_intros]: "(\<And>s. f (g s) = f s) \<Longrightarrow> frames f (io_modify g)"
  by (simp add: frames_def io_defs)

lemma frames_if [frame_intros]: "frames f m \<Longrightarrow> frames f n \<Longrightarrow> frames f (if b then m else n)"
  by simp

lemma frames_option [frame_intros]:
  "frames f m \<Longrightarrow> (\<And>x. frames f (n x)) \<Longrightarrow> frames f (case q of None \<Rightarrow> m | Some x \<Rightarrow> n x)"
  by (cases q) simp_all

lemma frames_self [frame_intros]:
  "(\<And>i ob. f (put i ob) = f ob) \<Longrightarrow> frames (f \<circ> fst) (io_self get put m)"
  by (simp add: frames_def io_self_def split: prod.splits)

lemma frames_op [frame_intros]: "(\<And>s x t. g s = (x, t) \<Longrightarrow> f t = f s) \<Longrightarrow> frames f (io_op g)"
  by (simp add: frames_def io_op_def split: prod.splits)

lemma frames_case_sum [frame_intros]:
  "(\<And>e. frames f (m e)) \<Longrightarrow> (\<And>x. frames f (n x)) \<Longrightarrow> frames f (case q of Inl e \<Rightarrow> m e | Inr x \<Rightarrow> n x)"
  by (cases q) simp_all

lemma frames_case_prod [frame_intros]:
  "(\<And>a b. frames f (m a b)) \<Longrightarrow> frames f (case p of (a, b) \<Rightarrow> m a b)"
  by (cases p) simp

text \<open>The same for an observation of the world alone.\<close>

lemma frames_world_snd: "frames f m \<Longrightarrow> frames (f \<circ> snd) (io_world m)"
  by (simp add: frames_def io_world_def split: prod.splits) (metis snd_conv)

lemma frames_self_snd: "frames (f \<circ> snd) m \<Longrightarrow> frames (f \<circ> snd) (io_self get put m)"
  by (simp add: frames_def io_self_def split: prod.splits) (metis snd_conv)

section \<open>The operating system\<close>

datatype read_outcome = ReadText string | ReadOSError | ReadDecodeError

record completed_process =
  cp_returncode :: int
  cp_stdout :: string
  cp_stderr :: string

text \<open>\<open>subprocess.run\<close> and \<open>Popen\<close>: the child ran, or starting it raised.\<close>

datatype exec_outcome = ExecCompleted completed_process | ExecNotFound | ExecDenied | ExecOSError

datatype spawn_outcome = Spawned nat | SpawnNotFound | SpawnDenied | SpawnOSError

text \<open>\<open>socket.getaddrinfo\<close>: the family and the socket address of each row, or what it raised.\<close>

datatype resolver_outcome =
  Resolved "(int \<times> string list) list" | ResolverOSError | ResolverUnicodeError

record 'w os =
  os_time_ns :: "'w \<Rightarrow> int \<times> 'w"
  os_monotonic :: "'w \<Rightarrow> rat \<times> 'w"
  os_run :: "string list \<Rightarrow> 'w \<Rightarrow> exec_outcome \<times> 'w"
  os_loads :: "string \<Rightarrow> json option"
  os_repr :: "json \<Rightarrow> string"
  os_read_text :: "string \<Rightarrow> 'w \<Rightarrow> read_outcome \<times> 'w"
  os_iterdir :: "string \<Rightarrow> 'w \<Rightarrow> string list option \<times> 'w"
  os_readlink :: "string \<Rightarrow> 'w \<Rightarrow> string option \<times> 'w"
  os_exists :: "string \<Rightarrow> 'w \<Rightarrow> bool \<times> 'w"
  os_if_indextoname :: "int \<Rightarrow> 'w \<Rightarrow> string option \<times> 'w"
  os_getenv :: "string \<Rightarrow> 'w \<Rightarrow> string option \<times> 'w"
  os_geteuid :: "'w \<Rightarrow> int \<times> 'w"
  os_popen :: "string list \<Rightarrow> 'w \<Rightarrow> spawn_outcome \<times> 'w"
  os_select :: "nat \<Rightarrow> 'w \<Rightarrow> bool \<times> 'w"
  os_readline :: "nat \<Rightarrow> 'w \<Rightarrow> string \<times> 'w"
  os_poll :: "nat \<Rightarrow> 'w \<Rightarrow> int option \<times> 'w"
  os_wait :: "nat \<Rightarrow> 'w \<Rightarrow> int \<times> 'w"
  os_terminate :: "nat \<Rightarrow> 'w \<Rightarrow> unit \<times> 'w"
  os_kill :: "nat \<Rightarrow> 'w \<Rightarrow> unit \<times> 'w"
  os_communicate :: "nat \<Rightarrow> bool \<Rightarrow> 'w \<Rightarrow> string option \<times> 'w"
  os_stderr_text :: "nat \<Rightarrow> 'w \<Rightarrow> string \<times> 'w"
  os_warn :: "string \<Rightarrow> json list \<Rightarrow> 'w \<Rightarrow> unit \<times> 'w"
  os_getaddrinfo :: "string \<Rightarrow> int \<Rightarrow> 'w \<Rightarrow> resolver_outcome \<times> 'w"
  os_glob :: "string \<Rightarrow> string \<Rightarrow> 'w \<Rightarrow> string list \<times> 'w"
  os_bracket_ok :: "string \<Rightarrow> bool"
  os_home :: string

text \<open>
  \<open>os_communicate h timed\<close> is \<open>communicate(timeout=5)\<close> when \<open>timed\<close>, with \<open>None\<close> for \<open>TimeoutExpired\<close>, and
  \<open>communicate()\<close> otherwise. \<open>os_getaddrinfo\<close> resolves a host and a port (a host that has no IDNA
  form raises \<open>UnicodeError\<close>); \<open>os_glob dir pattern\<close> gives the paths that match in a directory; \<open>os_bracket_ok\<close> is
  urllib's check of a bracketed host and \<open>os_home\<close> is \<open>Path.home()\<close>; \<open>os_iterdir\<close> gives the child names, \<open>None\<close> for \<open>OSError\<close>.
\<close>

text \<open>\<open>str(v)\<close>; \<open>os_repr\<close> prints floats and containers.\<close>

definition py_str :: "'w os \<Rightarrow> json \<Rightarrow> string" where
  "py_str os v =
     (case v of
        JStr s \<Rightarrow> s
      | JInt i \<Rightarrow> str_of_int i
      | JBool b \<Rightarrow> (if b then ''True'' else ''False'')
      | JNull \<Rightarrow> ''None''
      | _ \<Rightarrow> os_repr os v)"

text \<open>\<open>read_text(path)\<close> of \<open>tcp_channel.py\<close> and \<open>processes.py\<close>: \<open>OSError\<close> reads as the empty string.\<close>

definition read_text :: "'w os \<Rightarrow> string \<Rightarrow> ('w, string) io" where
  "read_text os path =
     io_bind (io_op (os_read_text os path)) (\<lambda>r. case r of
         ReadText t \<Rightarrow> io_return t
       | ReadOSError \<Rightarrow> io_return []
       | ReadDecodeError \<Rightarrow> io_raise UnicodeDecodeError)"

text \<open>\<open>dir / name\<close> of \<open>pathlib\<close>, for a directory with no trailing slash.\<close>

definition path_join :: "string \<Rightarrow> string \<Rightarrow> string" where
  "path_join dir name = dir @ ''/'' @ name"

end
