(* ===== verification/Checkpoint.thy ===== *)
theory Checkpoint
  imports Os "HOL-Library.Multiset"
begin

text \<open>
  The checkpoint algorithm that \<open>_read_ingress\<close>, \<open>_read_delivered\<close> and the two \<open>_read_flows\<close> share: sum
  the entries of one identity, forget the identities that vanished, seed the ones seen for the first
  time, and emit a delta for the others. The locale \<open>counter_algebra\<close> states what the counters promise;
  its lemmas say what the totals, the first entries and the new baseline are.
\<close>

section \<open>The loops\<close>

definition aggregate_step ::
  "('e \<Rightarrow> 'i) \<Rightarrow> ('e \<Rightarrow> 'c) \<Rightarrow> ('c \<Rightarrow> 'c \<Rightarrow> 'c) \<Rightarrow> 'c \<Rightarrow> 'e
    \<Rightarrow> ('i \<times> 'c) list \<times> ('i \<times> 'e) list \<Rightarrow> ('i \<times> 'c) list \<times> ('i \<times> 'e) list" where
  "aggregate_step ident cnt add zero e tf =
     (let i = ident e;
          acc = (case map_of (fst tf) i of None \<Rightarrow> zero | Some c \<Rightarrow> c)
      in (AList.update i (add acc (cnt e)) (fst tf), setdefault i e (snd tf)))"

text \<open>\<open>totals\<close> and \<open>first_entry\<close> after the loop over the dumped entries.\<close>

definition aggregate ::
  "('e \<Rightarrow> 'i) \<Rightarrow> ('e \<Rightarrow> 'c) \<Rightarrow> ('c \<Rightarrow> 'c \<Rightarrow> 'c) \<Rightarrow> 'c \<Rightarrow> 'e list \<Rightarrow> ('i \<times> 'c) list \<times> ('i \<times> 'e) list" where
  "aggregate ident cnt add zero es = fold (aggregate_step ident cnt add zero) es ([], [])"

text \<open>\<open>for stale in set(previous) - set(totals): del previous[stale]\<close>.\<close>

definition drop_stale :: "('i \<times> 'c) list \<Rightarrow> ('i \<rightharpoonup> 'c) \<Rightarrow> ('i \<rightharpoonup> 'c)" where
  "drop_stale totals p = p |` (fst ` set totals)"

text \<open>
  The loop over \<open>totals.items()\<close>: the baseline is replaced first, an unknown identity is only seeded, and
  for a known one \<open>emit\<close> is the rest of the body, with the old baseline and the new total. The object
  state \<open>'o\<close> holds the baseline under \<open>get\<close> and \<open>put\<close>.
\<close>

fun emit_loop ::
  "(('i \<rightharpoonup> 'c) \<Rightarrow> 'o \<Rightarrow> 'o) \<Rightarrow> ('o \<Rightarrow> ('i \<rightharpoonup> 'c)) \<Rightarrow> ('i \<Rightarrow> 'c \<Rightarrow> 'c \<Rightarrow> ('o \<times> 'w, 'm list) io)
    \<Rightarrow> ('i \<times> 'c) list \<Rightarrow> 'm list \<Rightarrow> ('o \<times> 'w, 'm list) io" where
  "emit_loop put get emit [] acc s = (Inr acc, s)"
| "emit_loop put get emit ((i, c) # rest) acc s =
     (let p = get (fst s);
          s' = (put (p(i \<mapsto> c)) (fst s), snd s)
      in case p i of
           None \<Rightarrow> emit_loop put get emit rest acc s'
         | Some prev \<Rightarrow>
             (case emit i prev c s' of
                (Inl e, s'') \<Rightarrow> (Inl e, s'')
              | (Inr ms, s'') \<Rightarrow> emit_loop put get emit rest (acc @ ms) s''))"

text \<open>What neither the baseline nor the body touches, the loop does not touch.\<close>

lemma frames_emit_loop [frame_intros]:
  assumes put: "\<And>p ob. f (put p ob) = f ob" and body: "\<And>i p c. frames (f \<circ> fst) (emit i p c)"
  shows "frames (f \<circ> fst) (emit_loop put get emit tots acc)"
proof -
  have "f (fst (snd (emit_loop put get emit tots acc s))) = f (fst s)" for s
  proof (induction tots arbitrary: acc s)
    case (Cons ic rest)
    obtain i c where ic: "ic = (i, c)" by (cases ic)
    let ?s = "(put ((get (fst s))(i \<mapsto> c)) (fst s), snd s)"
    have "f (fst (snd (emit i p c ?s))) = f (fst s)" for p
      using body [of i p c] by (simp add: frames_def put)
    with Cons.IH show ?case
      by (auto simp: ic Let_def put split: option.splits prod.splits sum.splits) (metis fst_conv snd_conv)+
  qed simp
  then show ?thesis by (simp add: frames_def)
qed

section \<open>What the counters promise\<close>

locale counter_algebra =
  fixes add :: "'c \<Rightarrow> 'c \<Rightarrow> 'c"
    and zero :: 'c
  assumes add_assoc: "add (add a b) c = add a (add b c)"
    and add_commute: "add a b = add b a"
    and zero_add: "add zero a = a"
begin

definition total :: "('e \<Rightarrow> 'i) \<Rightarrow> ('e \<Rightarrow> 'c) \<Rightarrow> 'e list \<Rightarrow> 'i \<Rightarrow> 'c" where
  "total ident cnt es i = fold (\<lambda>e a. add a (cnt e)) (filter (\<lambda>e. ident e = i) es) zero"

lemma aggregate_snoc:
  "aggregate ident cnt add zero (es @ [e]) =
     aggregate_step ident cnt add zero e (aggregate ident cnt add zero es)"
  by (simp add: aggregate_def)

lemma total_snoc:
  "total ident cnt (es @ [e]) i =
     (if ident e = i then add (total ident cnt es i) (cnt e) else total ident cnt es i)"
  by (simp add: total_def)

lemma total_absent: "i \<notin> ident ` set es \<Longrightarrow> total ident cnt es i = zero"
  by (induction es) (auto simp: total_def)

lemma aggregate_totals:
  "map_of (fst (aggregate ident cnt add zero es)) i =
     (if i \<in> ident ` set es then Some (total ident cnt es i) else None)"
proof (induction es rule: rev_induct)
  case Nil
  then show ?case by (simp add: aggregate_def)
next
  case (snoc e es)
  then show ?case
    by (auto simp: aggregate_snoc aggregate_step_def Let_def dict_simps total_snoc total_absent
             split: if_splits)
qed

lemma aggregate_keys:
  "map fst (fst (aggregate ident cnt add zero es)) = first_occurrences (map ident es)"
proof (induction es rule: rev_induct)
  case Nil
  then show ?case by (simp add: aggregate_def)
next
  case (snoc e es)
  have "fst ` set (fst (aggregate ident cnt add zero es)) = ident ` set es"
    using snoc by (metis list.set_map set_first_occurrences)
  with snoc show ?case
    by (simp add: aggregate_snoc aggregate_step_def Let_def keys_update_append first_occurrences_snoc)
qed

lemma aggregate_distinct: "distinct (map fst (fst (aggregate ident cnt add zero es)))"
  by (simp add: aggregate_keys)

lemma aggregate_first:
  "map_of (snd (aggregate ident cnt add zero es)) i = find (\<lambda>e. ident e = i) es"
proof (induction es rule: rev_induct)
  case Nil
  then show ?case by (simp add: aggregate_def)
next
  case (snoc e es)
  have "find (\<lambda>x. ident x = i) (es @ [e]) =
      (case find (\<lambda>x. ident x = i) es of None \<Rightarrow> if ident e = i then Some e else None | Some x \<Rightarrow> Some x)"
    by (induction es) auto
  with snoc show ?case
    by (auto simp: aggregate_snoc aggregate_step_def Let_def dict_simps split: option.splits)
qed

lemma total_permutation:
  assumes "mset es = mset es'"
  shows "total ident cnt es i = total ident cnt es' i"
proof -
  have f: "mset (filter (\<lambda>e. ident e = i) es) = mset (filter (\<lambda>e. ident e = i) es')"
    using assms by simp
  have "fold (\<lambda>e a. add a (cnt e)) (filter (\<lambda>e. ident e = i) es)
      = fold (\<lambda>e a. add a (cnt e)) (filter (\<lambda>e. ident e = i) es')"
    by (rule fold_multiset_equiv [OF _ f])
       (simp add: fun_eq_iff, metis add_assoc add_commute)
  then show ?thesis by (simp add: total_def)
qed

text \<open>A dump split in two parts: the totals add up.\<close>

lemma total_append: "total ident cnt (es @ es') i = add (total ident cnt es i) (total ident cnt es' i)"
proof (induction es' rule: rev_induct)
  case Nil
  then show ?case by (simp add: total_def) (metis add_commute zero_add)
next
  case (snoc e es')
  then show ?case by (simp add: total_snoc add_assoc flip: append_assoc)
qed

end

section \<open>What one checkpoint does\<close>

text \<open>
  A reader keeps its baseline in its object (\<open>get\<close>, \<open>put\<close>), and the body of its loop leaves the baseline
  alone. Everything below follows from these two laws and the algebra of the counters.
\<close>

locale delta_reader = counter_algebra add zero
  for add :: "'c \<Rightarrow> 'c \<Rightarrow> 'c" and zero :: 'c +
  fixes get :: "'o \<Rightarrow> ('i \<rightharpoonup> 'c)"
    and put :: "('i \<rightharpoonup> 'c) \<Rightarrow> 'o \<Rightarrow> 'o"
    and emit :: "'i \<Rightarrow> 'c \<Rightarrow> 'c \<Rightarrow> ('o \<times> 'w, 'm list) io"
  assumes get_put: "get (put p ob) = p"
    and emit_frame: "emit i prev c s = (r, t) \<Longrightarrow> get (fst t) = get (fst s)"
begin

text \<open>After a checkpoint that did not raise, the baseline holds exactly the totals of this dump.\<close>

lemma loop_baseline:
  "emit_loop put get emit tots acc s = (Inr ms, t) \<Longrightarrow> distinct (map fst tots) \<Longrightarrow>
     get (fst t) = get (fst s) ++ map_of tots"
proof (induction tots arbitrary: acc s)
  case Nil
  then show ?case by simp
next
  case (Cons ic rest)
  obtain i c where ic: "ic = (i, c)" by (cases ic)
  have ni: "map_of rest i = None"
    using Cons.prems(2) by (simp add: ic map_of_eq_None_iff)
  have upd: "((get (fst s))(i \<mapsto> c)) ++ map_of rest = get (fst s) ++ map_of (ic # rest)"
    using ni by (auto simp: ic fun_eq_iff map_add_def split: option.splits)
  obtain acc' s' where
    s': "emit_loop put get emit rest acc' s' = (Inr ms, t)" "get (fst s') = (get (fst s))(i \<mapsto> c)"
    using Cons.prems(1)
    by (auto simp: ic Let_def get_put split: option.splits prod.splits sum.splits dest!: emit_frame)
  from Cons.prems(2) have "distinct (map fst rest)" by simp
  from Cons.IH [OF s'(1) this] show ?case by (simp only: s'(2) upd)
qed

lemma checkpoint_baseline:
  assumes "emit_loop put get emit tots acc (put (drop_stale tots p) ob, w) = (Inr ms, t)"
    and "distinct (map fst tots)"
  shows "get (fst t) = map_of tots"
proof
  fix i
  have eq: "get (fst t) i = (drop_stale tots p ++ map_of tots) i"
    using loop_baseline [OF assms] by (simp add: get_put)
  show "get (fst t) i = map_of tots i"
  proof (cases "map_of tots i")
    case None
    then have "i \<notin> fst ` set tots" by (simp add: map_of_eq_None_iff)
    with None eq show ?thesis by (simp add: drop_stale_def map_add_def)
  next
    case (Some c)
    with eq show ?thesis by (simp add: map_add_def)
  qed
qed

text \<open>A dump whose identities are all new seeds the baseline and emits nothing, whatever the body does.\<close>

lemma loop_seeds:
  "(\<And>i. i \<in> fst ` set tots \<Longrightarrow> get (fst s) i = None) \<Longrightarrow> distinct (map fst tots) \<Longrightarrow>
     \<exists>ob. emit_loop put get emit tots acc s = (Inr acc, (ob, snd s))"
proof (induction tots arbitrary: s)
  case Nil
  then show ?case by (cases s) simp
next
  case (Cons ic rest)
  obtain i c where ic: "ic = (i, c)" by (cases ic)
  let ?s = "(put ((get (fst s))(i \<mapsto> c)) (fst s), snd s)"
  have "get (fst ?s) j = None" if "j \<in> fst ` set rest" for j
    using that Cons.prems by (auto simp: ic get_put)
  from Cons.IH [OF this] Cons.prems show ?case by (auto simp: ic Let_def)
qed

text \<open>
  Every emitted sample comes from a run of the body on a known identity, in a state that satisfies any
  invariant of the loop.
\<close>

lemma loop_samples_keep:
  assumes put: "\<And>p u. keep u \<Longrightarrow> keep (put p (fst u), snd u)"
    and body: "\<And>i prev c u r v. emit i prev c u = (r, v) \<Longrightarrow> keep u \<Longrightarrow> keep v"
  shows "emit_loop put get emit tots acc s = (Inr ms, t) \<Longrightarrow> distinct (map fst tots) \<Longrightarrow> m \<in> set ms \<Longrightarrow> keep s \<Longrightarrow>
     m \<in> set acc \<or> (\<exists>i c prev u v xs. (i, c) \<in> set tots \<and> get (fst s) i = Some prev \<and>
        emit i prev c u = (Inr xs, v) \<and> m \<in> set xs \<and> keep u)"
proof (induction tots arbitrary: acc s)
  case Nil
  then show ?case by simp
next
  case (Cons ic rest)
  obtain i c where ic: "ic = (i, c)" by (cases ic)
  let ?s = "(put ((get (fst s))(i \<mapsto> c)) (fst s), snd s)"
  have later: "get (fst s) j = Some q" if "(j, d) \<in> set rest" "((get (fst s))(i \<mapsto> c)) j = Some q" for j d q
    using that Cons.prems(2) by (auto simp: ic image_iff split: if_splits)
  have keep: "keep ?s" by (rule put) (rule Cons.prems(4))
  show ?case
  proof (cases "get (fst s) i")
    case None
    with Cons.prems(1) have loop: "emit_loop put get emit rest acc ?s = (Inr ms, t)"
      by (simp add: ic Let_def)
    from Cons.IH [OF loop _ _ keep] Cons.prems(2,3) later show ?thesis
      by (simp add: ic get_put) metis
  next
    case (Some prev)
    with Cons.prems(1) obtain xs v where
      e: "emit i prev c ?s = (Inr xs, v)" and loop: "emit_loop put get emit rest (acc @ xs) v = (Inr ms, t)"
      by (auto simp: ic Let_def split: prod.splits sum.splits)
    from emit_frame [OF e] have v: "get (fst v) = (get (fst s))(i \<mapsto> c)" by (simp add: get_put)
    have d: "distinct (map fst rest)" using Cons.prems(2) by simp
    from Cons.IH [OF loop d Cons.prems(3) body [OF e keep]] consider
        "m \<in> set acc" | "m \<in> set xs"
      | j d' q u w ys where "(j, d') \<in> set rest" "get (fst v) j = Some q" "emit j q d' u = (Inr ys, w)" "m \<in> set ys" "keep u"
      by (metis UnE set_append)
    then show ?thesis
    proof cases
      case 2
      have "(i, c) \<in> set (ic # rest)" by (simp add: ic)
      with 2 e Some keep show ?thesis by blast
    next
      case 3
      with later v show ?thesis by (metis ic list.set_intros(2))
    qed simp
  qed
qed

lemmas loop_samples = loop_samples_keep [where keep = "\<lambda>_. True", simplified]

text \<open>
  If in every state of an invariant the value of the body depends on the counters only, the output is a
  comprehension over the totals.
\<close>

lemma loop_pure:
  assumes "\<And>p u. keep u \<Longrightarrow> keep (put p (fst u), snd u)"
  shows "(\<And>i prev c u. (i, c) \<in> set tots \<Longrightarrow> keep u \<Longrightarrow>
            fst (emit i prev c u) = Inr (g i prev c) \<and> keep (snd (emit i prev c u))) \<Longrightarrow>
     distinct (map fst tots) \<Longrightarrow> keep s \<Longrightarrow>
     fst (emit_loop put get emit tots acc s) = Inr (acc @ concat (map (\<lambda>(i, c).
        case get (fst s) i of None \<Rightarrow> [] | Some prev \<Rightarrow> g i prev c) tots))"
proof (induction tots arbitrary: acc s)
  case Nil
  then show ?case by simp
next
  case (Cons ic rest)
  obtain i c where ic: "ic = (i, c)" by (cases ic)
  have same: "map (\<lambda>(j, d). case ((get (fst s))(i \<mapsto> c)) j of None \<Rightarrow> [] | Some q \<Rightarrow> g j q d) rest
      = map (\<lambda>(j, d). case get (fst s) j of None \<Rightarrow> [] | Some q \<Rightarrow> g j q d) rest"
    using Cons.prems(2) by (auto simp: ic image_iff)
  let ?s = "(put ((get (fst s))(i \<mapsto> c)) (fst s), snd s)"
  have s: "get (fst ?s) = (get (fst s))(i \<mapsto> c)" by (simp add: get_put)
  have keep: "keep ?s" by (rule assms) (rule Cons.prems(3))
  have IH: "fst (emit_loop put get emit rest acc' u) = Inr (acc' @ concat (map (\<lambda>(j, d).
        case get (fst u) j of None \<Rightarrow> [] | Some q \<Rightarrow> g j q d) rest))" if "keep u" for acc' u
    by (rule Cons.IH) (use Cons.prems that in \<open>auto simp: ic\<close>)
  show ?case
  proof (cases "get (fst s) i")
    case None
    from IH [OF keep] have "fst (emit_loop put get emit rest acc ?s) = Inr (acc @ concat (map (\<lambda>(j, d).
        case get (fst s) j of None \<Rightarrow> [] | Some q \<Rightarrow> g j q d) rest))"
      by (simp only: s same)
    with None show ?thesis by (simp add: ic Let_def)
  next
    case (Some prev)
    obtain v where e: "emit i prev c ?s = (Inr (g i prev c), v)" and v: "keep v"
      using Cons.prems(1) [of i c ?s prev] keep by (cases "emit i prev c ?s") (auto simp: ic)
    from IH [OF v] have "fst (emit_loop put get emit rest (acc @ g i prev c) v) = Inr ((acc @ g i prev c) @ concat (map (\<lambda>(j, d).
        case get (fst s) j of None \<Rightarrow> [] | Some q \<Rightarrow> g j q d) rest))"
      by (simp only: emit_frame [OF e] s same)
    with Some e show ?thesis by (simp add: ic Let_def)
  qed
qed

text \<open>
  The same for a view \<open>h\<close> of the output that respects concatenation (a part of the rows, some of their
  columns): where the counters determine the view of what the body yields, the view of the whole output is
  a comprehension over the totals, if the loop returns.
\<close>

lemma loop_view:
  assumes put: "\<And>p u. keep u \<Longrightarrow> keep (put p (fst u), snd u)"
    and hom: "\<And>xs ys. h (xs @ ys) = h xs @ h ys"
  shows "(\<And>i prev c u xs v. (i, c) \<in> set tots \<Longrightarrow> keep u \<Longrightarrow> emit i prev c u = (Inr xs, v) \<Longrightarrow>
            h xs = g i prev c \<and> keep v) \<Longrightarrow>
     distinct (map fst tots) \<Longrightarrow> keep s \<Longrightarrow> emit_loop put get emit tots acc s = (Inr ms, t) \<Longrightarrow>
     h ms = h acc @ concat (map (\<lambda>(i, c).
        case get (fst s) i of None \<Rightarrow> [] | Some prev \<Rightarrow> g i prev c) tots)"
proof (induction tots arbitrary: acc s)
  case Nil
  then show ?case by simp
next
  case (Cons ic rest)
  obtain i c where ic: "ic = (i, c)" by (cases ic)
  have same: "map (\<lambda>(j, d). case ((get (fst s))(i \<mapsto> c)) j of None \<Rightarrow> [] | Some q \<Rightarrow> g j q d) rest
      = map (\<lambda>(j, d). case get (fst s) j of None \<Rightarrow> [] | Some q \<Rightarrow> g j q d) rest"
    using Cons.prems(2) by (auto simp: ic image_iff)
  let ?s = "(put ((get (fst s))(i \<mapsto> c)) (fst s), snd s)"
  have s: "get (fst ?s) = (get (fst s))(i \<mapsto> c)" by (simp add: get_put)
  have keep: "keep ?s" by (rule put) (rule Cons.prems(3))
  have IH: "h ms = h acc' @ concat (map (\<lambda>(j, d).
        case get (fst u) j of None \<Rightarrow> [] | Some q \<Rightarrow> g j q d) rest)"
    if "keep u" "emit_loop put get emit rest acc' u = (Inr ms, t)" for acc' u
  proof (rule Cons.IH [OF _ _ that])
    show "h xs = g j q d \<and> keep v" if "(j, d) \<in> set rest" "keep x" "emit j q d x = (Inr xs, v)" for j q d x xs v
      by (rule Cons.prems(1) [OF _ that(2,3)]) (use that(1) in simp)
    show "distinct (map fst rest)" using Cons.prems(2) by simp
  qed
  show ?case
  proof (cases "get (fst s) i")
    case None
    with Cons.prems(4) have "emit_loop put get emit rest acc ?s = (Inr ms, t)" by (simp add: ic Let_def)
    from IH [OF keep this] have "h ms = h acc @ concat (map (\<lambda>(j, d).
        case get (fst s) j of None \<Rightarrow> [] | Some q \<Rightarrow> g j q d) rest)"
      by (simp only: s same)
    with None show ?thesis by (simp add: ic)
  next
    case (Some prev)
    with Cons.prems(4) obtain xs v where
      e: "emit i prev c ?s = (Inr xs, v)" and loop: "emit_loop put get emit rest (acc @ xs) v = (Inr ms, t)"
      by (auto simp: ic Let_def split: prod.splits sum.splits)
    have body: "h xs = g i prev c \<and> keep v"
      by (rule Cons.prems(1) [OF _ keep e]) (simp add: ic)
    from IH [OF conjunct2 [OF body] loop] have "h ms = h (acc @ xs) @ concat (map (\<lambda>(j, d).
        case get (fst s) j of None \<Rightarrow> [] | Some q \<Rightarrow> g j q d) rest)"
      by (simp only: emit_frame [OF e] s same)
    with Some body show ?thesis by (simp add: ic hom)
  qed
qed

end

end
