(* ===== verification/Models.thy ===== *)
theory Models
  imports Checkpoint
begin

text \<open>
  \<open>models.py\<close>: the UDP sample, its filter, the start of a bucket, and the measured interval that the
  three \<open>read_checkpoint\<close> methods report.
\<close>

definition UDP_PROTO :: int where
  "UDP_PROTO = 17"

record udp_sample =
  us_bucket_start_ns :: int
  us_bucket_ms :: int
  us_src_ip :: string
  us_dst_ip :: string
  us_src_port :: int
  us_dst_port :: int
  us_ifindex :: int
  us_ifname :: string
  us_packets :: int
  us_bytes :: int
  us_ip_proto :: int
  us_netns_id :: int
  us_container_id :: string
  us_process_name :: string
  us_host_pid :: int
  us_container_pid :: int
  us_socket_id :: int
  us_layer :: string

record sample_filter =
  sf_src_ip :: "string option"
  sf_dst_ip :: "string option"
  sf_src_port :: "int option"
  sf_dst_port :: "int option"
  sf_ifname :: "string option"
  sf_process_name :: "string option"
  sf_layer :: "string option"

definition no_filter :: sample_filter where
  "no_filter = \<lparr>sf_src_ip = None, sf_dst_ip = None, sf_src_port = None, sf_dst_port = None,
     sf_ifname = None, sf_process_name = None, sf_layer = None\<rparr>"

text \<open>\<open>self.f is None or sample.f == self.f\<close>.\<close>

definition check_opt :: "'a option \<Rightarrow> 'a \<Rightarrow> bool" where
  "check_opt f x = (f = None \<or> f = Some x)"

lemma check_opt_simps [simp]:
  "check_opt None x" "check_opt (Some y) x \<longleftrightarrow> y = x"
  by (simp_all add: check_opt_def)

definition sample_matches :: "sample_filter \<Rightarrow> udp_sample \<Rightarrow> bool" where
  "sample_matches f s =
     list_all id
       [check_opt (sf_src_ip f) (us_src_ip s),
        check_opt (sf_dst_ip f) (us_dst_ip s),
        check_opt (sf_src_port f) (us_src_port s),
        check_opt (sf_dst_port f) (us_dst_port s),
        check_opt (sf_ifname f) (us_ifname s),
        check_opt (sf_process_name f) (us_process_name s),
        check_opt (sf_layer f) (us_layer s)]"

lemma no_filter_matches [simp]: "sample_matches no_filter s"
  by (simp add: sample_matches_def no_filter_def)

text \<open>\<open>UdpSample.to_dict\<close>; \<open>ts_of\<close> is the rendering of \<open>bucket_start_ns\<close> by \<open>datetime\<close>.\<close>

definition udp_to_dict :: "(int \<Rightarrow> string) \<Rightarrow> udp_sample \<Rightarrow> (string \<times> json) list" where
  "udp_to_dict ts_of s =
     [(''ts'', JStr (ts_of (us_bucket_start_ns s))),
      (''bucket_start_ns'', JInt (us_bucket_start_ns s)),
      (''bucket_ms'', JInt (us_bucket_ms s)),
      (''src_ip'', JStr (us_src_ip s)),
      (''dst_ip'', JStr (us_dst_ip s)),
      (''src_port'', JInt (us_src_port s)),
      (''dst_port'', JInt (us_dst_port s)),
      (''ip_proto'', JInt (us_ip_proto s)),
      (''ifindex'', JInt (us_ifindex s)),
      (''ifname'', JStr (us_ifname s)),
      (''netns_id'', JInt (us_netns_id s)),
      (''container_id'', JStr (us_container_id s)),
      (''process_name'', JStr (us_process_name s)),
      (''host_pid'', JInt (us_host_pid s)),
      (''container_pid'', JInt (us_container_pid s)),
      (''socket_id'', JInt (us_socket_id s)),
      (''packets'', JInt (us_packets s)),
      (''bytes'', JInt (us_bytes s)),
      (''layer'', JStr (us_layer s))]"

section \<open>Buckets and intervals\<close>

definition bucket_start_ns :: "int \<Rightarrow> int \<Rightarrow> int res" where
  "bucket_start_ns now_ns bucket_ms =
     (let bucket_ns = bucket_ms * 1000000
      in if bucket_ns = 0 then Inl ZeroDivisionError else Inr ((now_ns div bucket_ns) * bucket_ns))"

text \<open>
  The interval of a checkpoint: the configured bucket, or, once a previous checkpoint exists, the
  milliseconds since it when that is positive.
\<close>

definition measured_ms :: "int \<Rightarrow> int option \<Rightarrow> int \<Rightarrow> int" where
  "measured_ms bucket_ms previous_ns now_ns =
     (case previous_ns of
        None \<Rightarrow> bucket_ms
      | Some p \<Rightarrow> let measured = (now_ns - p) div 1000000 in if measured > 0 then measured else bucket_ms)"

lemma bucket_start_ns_Inr:
  "0 < bucket_ms \<Longrightarrow> bucket_start_ns now_ns bucket_ms =
     Inr ((now_ns div (bucket_ms * 1000000)) * (bucket_ms * 1000000))"
  by (simp add: bucket_start_ns_def Let_def)

lemma measured_ms_pos: "0 < bucket_ms \<Longrightarrow> 0 < measured_ms bucket_ms p now_ns"
  by (simp add: measured_ms_def Let_def split: option.splits)

lemma measured_ms_exact:
  assumes "p + 1000000 \<le> now_ns"
  shows "measured_ms b (Some p) now_ns * 1000000 \<le> now_ns - p \<and> now_ns - p < (measured_ms b (Some p) now_ns + 1) * 1000000"
proof -
  have "(now_ns - p) div 1000000 > 0" using assms by simp
  then have m: "measured_ms b (Some p) now_ns = (now_ns - p) div 1000000"
    by (simp add: measured_ms_def Let_def)
  show ?thesis unfolding m using floor_div_bounds [of 1000000 "now_ns - p"] by simp
qed

end
