(* ===== verification/Processes.thy ===== *)
theory Processes
  imports Models
begin

text \<open>
  \<open>processes.py\<close>: the parsers of the \<open>/proc\<close> files, the inventory of UDP sockets by process, and the
  enricher with its timed cache.
\<close>

section \<open>Parsers\<close>

record udp_socket_row =
  sr_local_ip :: string
  sr_local_port :: int
  sr_remote_ip :: string
  sr_remote_port :: int
  sr_socket_inode :: int

record process_socket =
  ps_host_pid :: int
  ps_container_pid :: int
  ps_process_name :: string
  ps_command_line :: string
  ps_netns_id :: int
  ps_container_id :: string
  ps_socket_inode :: int
  ps_local_ip :: string
  ps_local_port :: int
  ps_remote_ip :: string
  ps_remote_port :: int

text \<open>\<open>bytes.fromhex\<close>: pairs of hex digits, with ASCII blanks between pairs.\<close>

definition hex_val :: "char \<Rightarrow> nat option" where
  "hex_val c = (case digit_val c of None \<Rightarrow> None | Some d \<Rightarrow> if d < 16 then Some d else None)"

fun fromhex :: "string \<Rightarrow> nat list option" where
  "fromhex [] = Some []"
| "fromhex (c # cs) =
     (if (of_char c :: nat) \<in> {9, 10, 11, 12, 13, 32} then fromhex cs
      else case cs of
        [] \<Rightarrow> None
      | d # ds \<Rightarrow> (case (hex_val c, hex_val d) of
            (Some h, Some l) \<Rightarrow> map_option (\<lambda>bs. (16 * h + l) # bs) (fromhex ds)
          | _ \<Rightarrow> None))"

definition dotted :: "nat list \<Rightarrow> string" where
  "dotted bs = join ''.'' (map (\<lambda>b. str_of_int (int b)) bs)"

definition opt_res :: "py_error \<Rightarrow> 'a option \<Rightarrow> 'a res" where
  "opt_res e m = (case m of None \<Rightarrow> Inl e | Some x \<Rightarrow> Inr x)"

lemma opt_res_simps [simp]: "opt_res e None = Inl e" "opt_res e (Some x) = Inr x"
  by (simp_all add: opt_res_def)

definition parse_proc_address :: "string \<Rightarrow> (string \<times> int) res" where
  "parse_proc_address value =
     bind_res (opt_res ValueError (split_first CHR '':'' value)) (\<lambda>(raw_ip, raw_port).
     bind_res (opt_res ValueError (int_of_str 16 raw_port)) (\<lambda>port.
       if length raw_ip = 8 then
         bind_res (opt_res ValueError (fromhex raw_ip)) (\<lambda>bs. Inr (dotted (rev bs), port))
       else if length raw_ip = 32 then
         Inr (join '':'' (map (\<lambda>i. take 8 (drop i raw_ip)) [0, 8, 16, 24]), port)
       else Inr (raw_ip, port)))"

definition parse_udp_row :: "string list \<Rightarrow> udp_socket_row res" where
  "parse_udp_row columns =
     bind_res (parse_proc_address (columns ! 1)) (\<lambda>(local_ip, local_port).
     bind_res (parse_proc_address (columns ! 2)) (\<lambda>(remote_ip, remote_port).
     bind_res (opt_res ValueError (int_of_str 10 (columns ! 9))) (\<lambda>inode.
       Inr \<lparr>sr_local_ip = local_ip, sr_local_port = local_port, sr_remote_ip = remote_ip,
            sr_remote_port = remote_port, sr_socket_inode = inode\<rparr>)))"

text \<open>Lines with fewer than ten columns are skipped; the first line is the header.\<close>

definition parse_proc_net_udp :: "string \<Rightarrow> udp_socket_row list res" where
  "parse_proc_net_udp text =
     traverse parse_udp_row
       (filter (\<lambda>columns. \<not> length columns < 10) (map split_ws (drop 1 (splitlines text))))"

definition cmdline_of_text :: "string \<Rightarrow> string" where
  "cmdline_of_text data = join '' '' (filter (\<lambda>part. part \<noteq> []) (split_on (CHR 0x00) data))"

text \<open>\<open>CONTAINER_ID_RE.search\<close>: the leftmost run of 64 characters of \<open>[0-9a-f]\<close>.\<close>

definition is_lower_hex :: "char \<Rightarrow> bool" where
  "is_lower_hex c = (let n = (of_char c :: nat) in (48 \<le> n \<and> n \<le> 57) \<or> (97 \<le> n \<and> n \<le> 102))"

fun search_hex64 :: "string \<Rightarrow> string option" where
  "search_hex64 [] = None"
| "search_hex64 (c # cs) =
     (let w = take 64 (c # cs)
      in if length w = 64 \<and> list_all is_lower_hex w then Some w else search_hex64 cs)"

definition container_id_of_text :: "string \<Rightarrow> string" where
  "container_id_of_text text = (case search_hex64 text of None \<Rightarrow> [] | Some w \<Rightarrow> w)"

text \<open>The first \<open>NSpid:\<close> line decides: its last word, or the fallback when that is no number.\<close>

fun container_pid_of_lines :: "string list \<Rightarrow> int \<Rightarrow> int" where
  "container_pid_of_lines [] fallback = fallback"
| "container_pid_of_lines (l # ls) fallback =
     (if startswith l ''NSpid:'' then
        (case rev (split_ws l) of
           [] \<Rightarrow> fallback
         | w # _ \<Rightarrow> (case int_of_str 10 w of None \<Rightarrow> fallback | Some i \<Rightarrow> i))
      else container_pid_of_lines ls fallback)"

text \<open>\<open>int(target[len(pre):-1])\<close> of a link \<open>pre...]\<close>; \<open>None\<close> for another shape or no number.\<close>

definition bracket_number :: "string \<Rightarrow> string \<Rightarrow> int option" where
  "bracket_number pre target =
     (if startswith target pre \<and> endswith target '']''
      then int_of_str 10 (butlast (drop (length pre) target))
      else None)"

section \<open>The inventory\<close>

definition pid_dir :: "string \<Rightarrow> int \<Rightarrow> string" where
  "pid_dir proc_root pid = path_join proc_root (str_of_int pid)"

definition is_digit_char :: "char \<Rightarrow> bool" where
  "is_digit_char c = (let n = (of_char c :: nat) in (48 \<le> n \<and> n \<le> 57) \<or> n = 178 \<or> n = 179 \<or> n = 185)"

text \<open>\<open>str.isdigit\<close> also accepts the three superscript digits, which \<open>int\<close> then refuses.\<close>

definition isdigit :: "string \<Rightarrow> bool" where
  "isdigit s = (s \<noteq> [] \<and> list_all is_digit_char s)"

definition list_pids :: "'w os \<Rightarrow> string \<Rightarrow> ('w, string list) io" where
  "list_pids os proc_root =
     io_bind (io_op (os_iterdir os proc_root)) (\<lambda>r. case r of
         None \<Rightarrow> io_raise OSError
       | Some names \<Rightarrow> io_return (filter isdigit names))"

fun link_inodes :: "'w os \<Rightarrow> string \<Rightarrow> string list \<Rightarrow> ('w, int list) io" where
  "link_inodes os fd_dir [] = io_return []"
| "link_inodes os fd_dir (entry # entries) =
     io_bind (io_op (os_readlink os (path_join fd_dir entry))) (\<lambda>target.
     io_bind (link_inodes os fd_dir entries) (\<lambda>rest.
       io_return (case target of
           None \<Rightarrow> rest
         | Some t \<Rightarrow> (case bracket_number ''socket:['' t of None \<Rightarrow> rest | Some i \<Rightarrow> i # rest))))"

text \<open>The set of socket inodes of a process, as a list; only membership and emptiness are used.\<close>

definition process_socket_inodes :: "'w os \<Rightarrow> string \<Rightarrow> int \<Rightarrow> ('w, int list) io" where
  "process_socket_inodes os proc_root pid =
     (let fd_dir = path_join (pid_dir proc_root pid) ''fd'' in
      io_bind (io_op (os_iterdir os fd_dir)) (\<lambda>r. case r of
          None \<Rightarrow> io_return []
        | Some entries \<Rightarrow> link_inodes os fd_dir entries))"

fun read_udp_files :: "'w os \<Rightarrow> string list \<Rightarrow> ('w, udp_socket_row list) io" where
  "read_udp_files os [] = io_return []"
| "read_udp_files os (path # paths) =
     io_bind (io_op (os_read_text os path)) (\<lambda>r. case r of
         ReadOSError \<Rightarrow> read_udp_files os paths
       | ReadDecodeError \<Rightarrow> io_raise UnicodeDecodeError
       | ReadText text \<Rightarrow>
           io_bind (io_res (parse_proc_net_udp text)) (\<lambda>rows.
           io_bind (read_udp_files os paths) (\<lambda>rest. io_return (rows @ rest))))"

definition read_udp_sockets :: "'w os \<Rightarrow> string \<Rightarrow> int \<Rightarrow> ('w, udp_socket_row list) io" where
  "read_udp_sockets os proc_root pid =
     read_udp_files os
       (map (\<lambda>name. path_join (path_join (pid_dir proc_root pid) ''net'') name) [''udp'', ''udp6''])"

definition read_cmdline :: "'w os \<Rightarrow> string \<Rightarrow> ('w, string) io" where
  "read_cmdline os path = io_bind (read_text os path) (\<lambda>data. io_return (cmdline_of_text data))"

definition read_container_id :: "'w os \<Rightarrow> string \<Rightarrow> ('w, string) io" where
  "read_container_id os path = io_bind (read_text os path) (\<lambda>text. io_return (container_id_of_text text))"

definition read_container_pid :: "'w os \<Rightarrow> string \<Rightarrow> int \<Rightarrow> ('w, int) io" where
  "read_container_pid os path fallback =
     io_bind (read_text os path) (\<lambda>text. io_return (container_pid_of_lines (splitlines text) fallback))"

definition read_namespace_id :: "'w os \<Rightarrow> string \<Rightarrow> ('w, int) io" where
  "read_namespace_id os path =
     io_bind (io_op (os_readlink os path)) (\<lambda>target. io_return (case target of
         None \<Rightarrow> 0
       | Some t \<Rightarrow> (case bracket_number ''net:['' t of None \<Rightarrow> 0 | Some i \<Rightarrow> i)))"

definition socket_of_row ::
  "int \<Rightarrow> int \<Rightarrow> string \<Rightarrow> string \<Rightarrow> int \<Rightarrow> string \<Rightarrow> udp_socket_row \<Rightarrow> process_socket" where
  "socket_of_row pid container_pid name command_line netns_id container_id row =
     \<lparr>ps_host_pid = pid, ps_container_pid = container_pid, ps_process_name = name,
      ps_command_line = command_line, ps_netns_id = netns_id, ps_container_id = container_id,
      ps_socket_inode = sr_socket_inode row, ps_local_ip = sr_local_ip row,
      ps_local_port = sr_local_port row, ps_remote_ip = sr_remote_ip row,
      ps_remote_port = sr_remote_port row\<rparr>"

text \<open>The body of \<open>scan\<close> for one process; an empty or missing process name filters nothing.\<close>

definition scan_pid :: "'w os \<Rightarrow> string \<Rightarrow> string option \<Rightarrow> int \<Rightarrow> ('w, process_socket list) io" where
  "scan_pid os proc_root process_name pid =
     (let dir = pid_dir proc_root pid in
      io_bind (read_text os (path_join dir ''comm'')) (\<lambda>comm.
      let name = strip comm in
      if (case process_name of None \<Rightarrow> False | Some n \<Rightarrow> n \<noteq> [] \<and> name \<noteq> n) then io_return [] else
      io_bind (process_socket_inodes os proc_root pid) (\<lambda>socket_inodes.
      if socket_inodes = [] then io_return [] else
      io_bind (read_cmdline os (path_join dir ''cmdline'')) (\<lambda>command_line.
      io_bind (read_container_id os (path_join dir ''cgroup'')) (\<lambda>container_id.
      io_bind (read_container_pid os (path_join dir ''status'') pid) (\<lambda>container_pid.
      io_bind (read_namespace_id os (path_join (path_join dir ''ns'') ''net'')) (\<lambda>netns_id.
      io_bind (read_udp_sockets os proc_root pid) (\<lambda>rows.
        io_return (map (socket_of_row pid container_pid name command_line netns_id container_id)
          (filter (\<lambda>row. sr_socket_inode row \<in> set socket_inodes) rows))))))))))"

definition scan :: "'w os \<Rightarrow> string \<Rightarrow> string option \<Rightarrow> ('w, process_socket list) io" where
  "scan os proc_root process_name =
     io_bind (list_pids os proc_root) (\<lambda>names.
     io_bind (io_traverse (\<lambda>nm.
         io_bind (io_res (opt_res ValueError (int_of_str 10 nm))) (scan_pid os proc_root process_name)) names)
       (\<lambda>xss. io_return (concat xss)))"

section \<open>The enricher\<close>

record enricher =
  en_process_name :: "string option"
  en_proc_root :: string
  en_cache_ttl :: rat
  en_cache_at :: rat
  en_cached_sockets :: "process_socket list"

definition new_enricher :: "string option \<Rightarrow> enricher" where
  "new_enricher process_name =
     \<lparr>en_process_name = process_name, en_proc_root = ''/proc'', en_cache_ttl = 1, en_cache_at = 0,
      en_cached_sockets = []\<rparr>"

text \<open>\<open>sockets\<close>: a new scan when the cache is older than its time to live.\<close>

definition sockets :: "'w os \<Rightarrow> (enricher \<times> 'w, process_socket list) io" where
  "sockets os =
     io_bind (io_world (io_op (os_monotonic os))) (\<lambda>now.
     io_bind (io_get fst) (\<lambda>en.
       if now - en_cache_at en > en_cache_ttl en then
         io_bind (io_world (scan os (en_proc_root en) (en_process_name en))) (\<lambda>found.
         io_bind (io_modify (\<lambda>(e, w). (e\<lparr>en_cached_sockets := found, en_cache_at := now\<rparr>, w))) (\<lambda>_.
           io_return found))
       else io_return (en_cached_sockets en)))"

definition port_match :: "udp_sample \<Rightarrow> process_socket \<Rightarrow> bool" where
  "port_match sample row =
     (ps_local_port row = us_dst_port sample \<and> ps_local_ip row \<in> {''0.0.0.0'', us_dst_ip sample})"

definition find_matches :: "'w os \<Rightarrow> udp_sample \<Rightarrow> (enricher \<times> 'w, process_socket list) io" where
  "find_matches os sample = io_bind (sockets os) (\<lambda>rows. io_return (filter (port_match sample) rows))"

definition find_inode_matches :: "'w os \<Rightarrow> int \<Rightarrow> (enricher \<times> 'w, process_socket list) io" where
  "find_inode_matches os socket_inode =
     (if socket_inode = 0 then io_return []
      else io_bind (sockets os) (\<lambda>rows. io_return (filter (\<lambda>row. ps_socket_inode row = socket_inode) rows)))"

text \<open>The process fields of a matched socket, written over a sample.\<close>

definition with_process :: "udp_sample \<Rightarrow> process_socket \<Rightarrow> udp_sample" where
  "with_process sample m =
     sample\<lparr>us_netns_id := ps_netns_id m, us_container_id := ps_container_id m,
       us_process_name := ps_process_name m, us_host_pid := ps_host_pid m,
       us_container_pid := ps_container_pid m\<rparr>"

definition enrich :: "'w os \<Rightarrow> udp_sample \<Rightarrow> (enricher \<times> 'w, udp_sample list) io" where
  "enrich os sample =
     io_bind (find_matches os sample) (\<lambda>found.
       io_return (if found = [] then [sample]
         else sample # map (\<lambda>m. (with_process sample m)
                \<lparr>us_layer := ''delivered'', us_socket_id := ps_socket_inode m\<rparr>) found))"

definition enrich_exact :: "'w os \<Rightarrow> udp_sample \<Rightarrow> int \<Rightarrow> int \<Rightarrow> (enricher \<times> 'w, udp_sample list) io" where
  "enrich_exact os sample socket_inode socket_cookie =
     (let attributed = sample\<lparr>us_layer := ''delivered'', us_socket_id := socket_cookie\<rparr> in
      io_bind (find_inode_matches os socket_inode) (\<lambda>found.
        io_return (if found = [] then [attributed] else map (with_process attributed) found)))"

section \<open>Facts\<close>

lemma with_process_counters [simp]:
  "us_packets (with_process s m) = us_packets s"
  "us_bytes (with_process s m) = us_bytes s"
  "us_src_ip (with_process s m) = us_src_ip s"
  "us_dst_ip (with_process s m) = us_dst_ip s"
  "us_src_port (with_process s m) = us_src_port s"
  "us_dst_port (with_process s m) = us_dst_port s"
  "us_bucket_ms (with_process s m) = us_bucket_ms s"
  "us_bucket_start_ns (with_process s m) = us_bucket_start_ns s"
  "us_layer (with_process s m) = us_layer s"
  "us_socket_id (with_process s m) = us_socket_id s"
  by (simp_all add: with_process_def)

text \<open>Enrichment copies a sample: no row it yields carries other counters, addresses or times.\<close>

definition same_traffic :: "udp_sample \<Rightarrow> udp_sample \<Rightarrow> bool" where
  "same_traffic s r \<longleftrightarrow> us_packets r = us_packets s \<and> us_bytes r = us_bytes s \<and>
     us_src_ip r = us_src_ip s \<and> us_dst_ip r = us_dst_ip s \<and> us_src_port r = us_src_port s \<and>
     us_dst_port r = us_dst_port s \<and> us_bucket_ms r = us_bucket_ms s \<and>
     us_bucket_start_ns r = us_bucket_start_ns s"

lemma enrich_traffic: "enrich os s x = (Inr rows, y) \<Longrightarrow> r \<in> set rows \<Longrightarrow> same_traffic s r"
  by (auto simp: enrich_def io_bind_Inr_iff io_return_def same_traffic_def split: if_splits)

lemma enrich_head: "enrich os s x = (Inr rows, y) \<Longrightarrow> \<exists>rest. rows = s # rest"
  by (auto simp: enrich_def io_bind_Inr_iff io_return_def split: if_splits)

text \<open>The legacy heuristic keeps the sample and adds a copy for every socket that its port and address match.\<close>

definition legacy_copy :: "udp_sample \<Rightarrow> udp_sample \<Rightarrow> bool" where
  "legacy_copy s r \<longleftrightarrow> (\<exists>m. port_match s m \<and>
     r = (with_process s m)\<lparr>us_layer := ''delivered'', us_socket_id := ps_socket_inode m\<rparr>)"

lemma enrich_copies:
  "enrich os s x = (Inr rows, y) \<Longrightarrow> \<exists>copies. rows = s # copies \<and> (\<forall>r \<in> set copies. legacy_copy s r)"
  by (auto simp: enrich_def find_matches_def legacy_copy_def io_bind_Inr_iff io_return_def split: if_splits)

lemma legacy_copy_layer: "legacy_copy s r \<Longrightarrow> us_layer r = ''delivered''"
  by (auto simp: legacy_copy_def)

lemma enrich_exact_traffic:
  "enrich_exact os s inode cookie x = (Inr rows, y) \<Longrightarrow> r \<in> set rows \<Longrightarrow>
     same_traffic s r \<and> us_layer r = ''delivered'' \<and> us_socket_id r = cookie"
  by (auto simp: enrich_exact_def Let_def io_bind_Inr_iff io_return_def same_traffic_def split: if_splits)

text \<open>Within the time to live the cache answers and \<open>/proc\<close> is not read.\<close>

lemma sockets_cached:
  assumes "os_monotonic os w = (now, w')" and "now - en_cache_at en \<le> en_cache_ttl en"
  shows "sockets os (en, w) = (Inr (en_cached_sockets en), (en, w'))"
  using assms by (simp add: sockets_def io_defs)

text \<open>Every socket of the inventory is owned: its inode is one the process has open.\<close>

lemma scan_pid_owned:
  assumes "scan_pid os proc_root pn pid w = (Inr rows, w')" and "r \<in> set rows"
  shows "ps_host_pid r = pid \<and>
    (\<exists>inodes u v. process_socket_inodes os proc_root pid u = (Inr inodes, v) \<and> ps_socket_inode r \<in> set inodes)"
  using assms
  by (auto simp: scan_pid_def Let_def io_bind_Inr_iff io_return_def socket_of_row_def split: if_splits) blast

lemma scan_pid_named:
  assumes "scan_pid os proc_root (Some n) pid w = (Inr rows, w')" and "r \<in> set rows" and "n \<noteq> []"
  shows "ps_process_name r = n"
  using assms
  by (auto simp: scan_pid_def Let_def io_bind_Inr_iff io_return_def socket_of_row_def split: if_splits)

end
