(* ===== verification/EbpfMaps.thy ===== *)
theory EbpfMaps
  imports Processes
begin

text \<open>
  The keys, values and entries of the two UDP maps in \<open>ebpf.py\<close>, their parsers from bpftool's JSON
  (typed or raw bytes, per-CPU or single), the status line of the receive loader, and the address text
  of a key. Each byte layout is an interpretation of \<open>record_layout\<close> and is compared with the struct
  of the BPF program; the counters are an interpretation of \<open>counter_algebra\<close>.
\<close>

section \<open>Ingress map\<close>

record udp_map_key =
  mk_family :: int
  mk_ip_proto :: int
  mk_src_port :: int
  mk_dst_port :: int
  mk_ifindex :: int
  mk_src_ip4 :: int
  mk_dst_ip4 :: int

record udp_map_counters =
  mc_packets :: int
  mc_bytes :: int

record udp_map_entry =
  me_key :: udp_map_key
  me_counters :: udp_map_counters

definition udp_key_identity :: "udp_map_key \<Rightarrow> int \<times> int \<times> int \<times> int \<times> int \<times> int \<times> int" where
  "udp_key_identity k =
     (mk_family k, mk_ip_proto k, mk_src_port k, mk_dst_port k, mk_ifindex k, mk_src_ip4 k, mk_dst_ip4 k)"

text \<open>\<open>str(IPv4Address(struct.pack("<I", value)))\<close>: the four bytes in memory order.\<close>

definition ipv4_from_bpf_int :: "int \<Rightarrow> string res" where
  "ipv4_from_bpf_int value = bind_res (pack [FI] [value]) (\<lambda>bs. Inr (dotted (map unat bs)))"

definition udp_key_fmt :: "fmt list" where
  "udp_key_fmt = [FB, FB, FH, FH, FX 2, FI, FI, FI]"

fun udp_key_of_vals :: "int list \<Rightarrow> udp_map_key res" where
  "udp_key_of_vals [family, ip_proto, src_port, dst_port, ifindex, src_ip4, dst_ip4] =
     Inr \<lparr>mk_family = family, mk_ip_proto = ip_proto, mk_src_port = src_port, mk_dst_port = dst_port,
          mk_ifindex = ifindex, mk_src_ip4 = src_ip4, mk_dst_ip4 = dst_ip4\<rparr>"
| "udp_key_of_vals _ = Inl ValueError"

definition parse_bpftool_key :: "json \<Rightarrow> udp_map_key res" where
  "parse_bpftool_key raw_key =
     (if is_dict raw_key then
        bind_res (traverse (int_item raw_key)
          [''family'', ''ip_proto'', ''src_port'', ''dst_port'', ''ifindex'', ''src_ip4'', ''dst_ip4''])
          udp_key_of_vals
      else
        bind_res (raw_bytes raw_key) (\<lambda>key_bytes.
          if length key_bytes < 20
          then Inl (RuntimeError ''unexpected udp_key size from bpftool: {}'' [JInt (int (length key_bytes))])
          else bind_res (unpack udp_key_fmt (take 20 key_bytes)) udp_key_of_vals))"

definition add_udp_counters :: "udp_map_counters \<Rightarrow> udp_map_counters \<Rightarrow> udp_map_counters" where
  "add_udp_counters a b =
     \<lparr>mc_packets = mc_packets a + mc_packets b, mc_bytes = mc_bytes a + mc_bytes b\<rparr>"

definition zero_udp_counters :: udp_map_counters where
  "zero_udp_counters = \<lparr>mc_packets = 0, mc_bytes = 0\<rparr>"

definition udp_counters_fmt :: "fmt list" where
  "udp_counters_fmt = [FQ, FQ]"

fun udp_counters_of_vals :: "int list \<Rightarrow> udp_map_counters res" where
  "udp_counters_of_vals [packets, bytes_seen] = Inr \<lparr>mc_packets = packets, mc_bytes = bytes_seen\<rparr>"
| "udp_counters_of_vals _ = Inl ValueError"

text \<open>\<open>parse_bpftool_counters\<close> without per-CPU values.\<close>

definition udp_counters_of_value :: "json \<Rightarrow> udp_map_counters res" where
  "udp_counters_of_value v =
     (if is_dict v then
        bind_res (traverse (int_item v) [''packets'', ''bytes'']) udp_counters_of_vals
      else
        bind_res (raw_bytes v) (\<lambda>value_bytes.
          if length value_bytes < 16
          then Inl (RuntimeError ''unexpected udp_counters size from bpftool: {}'' [JInt (int (length value_bytes))])
          else bind_res (unpack udp_counters_fmt (take 16 value_bytes)) udp_counters_of_vals))"

text \<open>The values of all CPUs are summed; a missing or null \<open>values\<close> means a single \<open>value\<close>.\<close>

definition parse_bpftool_counters :: "json \<Rightarrow> json \<Rightarrow> udp_map_counters res" where
  "parse_bpftool_counters v values =
     (if values \<noteq> JNull then
        bind_res (py_iter values) (\<lambda>cpus.
        bind_res (traverse (\<lambda>cpu. bind_res (py_get cpu ''value'' JNull) udp_counters_of_value) cpus)
          (\<lambda>parsed. Inr (fold (\<lambda>c acc. add_udp_counters acc c) parsed zero_udp_counters)))
      else udp_counters_of_value v)"

definition parse_bpftool_entry :: "json \<Rightarrow> udp_map_entry res" where
  "parse_bpftool_entry entry =
     bind_res (bind_res (py_get entry ''key'' JNull) parse_bpftool_key) (\<lambda>key.
     bind_res (py_get entry ''value'' JNull) (\<lambda>v.
     bind_res (py_get entry ''values'' JNull) (\<lambda>values.
     bind_res (parse_bpftool_counters v values) (\<lambda>counters.
       Inr \<lparr>me_key = key, me_counters = counters\<rparr>))))"

section \<open>Delivered map\<close>

record delivered_map_key =
  dk_socket_cookie :: int
  dk_src_ip4 :: int
  dk_dst_ip4 :: int
  dk_src_port :: int
  dk_dst_port :: int
  dk_family :: int
  dk_ip_proto :: int

record delivered_map_value =
  dv_packets :: int
  dv_bytes :: int
  dv_socket_inode :: int
  dv_ifindex :: int

record delivered_map_entry =
  de_key :: delivered_map_key
  de_value :: delivered_map_value

definition delivered_key_identity :: "delivered_map_key \<Rightarrow> int \<times> int \<times> int \<times> int \<times> int \<times> int \<times> int" where
  "delivered_key_identity k =
     (dk_socket_cookie k, dk_src_ip4 k, dk_dst_ip4 k, dk_src_port k, dk_dst_port k, dk_family k, dk_ip_proto k)"

definition delivered_counters :: "delivered_map_value \<Rightarrow> udp_map_counters" where
  "delivered_counters v = \<lparr>mc_packets = dv_packets v, mc_bytes = dv_bytes v\<rparr>"

definition delivered_key_fmt :: "fmt list" where
  "delivered_key_fmt = [FQ, FI, FI, FH, FH, FB, FB, FX 2]"

fun delivered_key_of_vals :: "int list \<Rightarrow> delivered_map_key res" where
  "delivered_key_of_vals [socket_cookie, src_ip4, dst_ip4, src_port, dst_port, family, ip_proto] =
     Inr \<lparr>dk_socket_cookie = socket_cookie, dk_src_ip4 = src_ip4, dk_dst_ip4 = dst_ip4,
          dk_src_port = src_port, dk_dst_port = dst_port, dk_family = family, dk_ip_proto = ip_proto\<rparr>"
| "delivered_key_of_vals _ = Inl ValueError"

definition parse_bpftool_delivered_key :: "json \<Rightarrow> delivered_map_key res" where
  "parse_bpftool_delivered_key raw_key =
     (if is_dict raw_key then
        bind_res (traverse (int_item raw_key)
          [''socket_cookie'', ''src_ip4'', ''dst_ip4'', ''src_port'', ''dst_port'', ''family'', ''ip_proto''])
          delivered_key_of_vals
      else
        bind_res (raw_bytes raw_key) (\<lambda>key_bytes.
          if length key_bytes < 24
          then Inl (RuntimeError ''unexpected delivered_key size from bpftool: {}'' [JInt (int (length key_bytes))])
          else bind_res (unpack delivered_key_fmt (take 24 key_bytes)) delivered_key_of_vals))"

definition delivered_value_fmt :: "fmt list" where
  "delivered_value_fmt = [FQ, FQ, FQ, FI, FX 4]"

fun delivered_value_of_vals :: "int list \<Rightarrow> delivered_map_value res" where
  "delivered_value_of_vals [packets, bytes_seen, socket_inode, ifindex] =
     Inr \<lparr>dv_packets = packets, dv_bytes = bytes_seen, dv_socket_inode = socket_inode, dv_ifindex = ifindex\<rparr>"
| "delivered_value_of_vals _ = Inl ValueError"

definition delivered_value_of_value :: "json \<Rightarrow> delivered_map_value res" where
  "delivered_value_of_value v =
     (if is_dict v then
        bind_res (int_item v ''packets'') (\<lambda>packets.
        bind_res (int_item v ''bytes'') (\<lambda>bytes_seen.
        bind_res (int_get0 v ''socket_inode'') (\<lambda>socket_inode.
        bind_res (int_get0 v ''ifindex'') (\<lambda>ifindex.
          delivered_value_of_vals [packets, bytes_seen, socket_inode, ifindex]))))
      else
        bind_res (raw_bytes v) (\<lambda>value_bytes.
          if length value_bytes < 32
          then Inl (RuntimeError ''unexpected delivered_value size from bpftool: {}'' [JInt (int (length value_bytes))])
          else bind_res (unpack delivered_value_fmt (take 32 value_bytes)) delivered_value_of_vals))"

text \<open>\<open>a or b\<close> on integers.\<close>

definition int_or :: "int \<Rightarrow> int \<Rightarrow> int" where
  "int_or a b = (if a \<noteq> 0 then a else b)"

text \<open>One step of the per-CPU loop: counters add up, the first non-zero inode and interface stay.\<close>

definition merge_delivered :: "delivered_map_value \<Rightarrow> delivered_map_value \<Rightarrow> delivered_map_value" where
  "merge_delivered acc p =
     \<lparr>dv_packets = dv_packets acc + dv_packets p, dv_bytes = dv_bytes acc + dv_bytes p,
      dv_socket_inode = int_or (dv_socket_inode acc) (dv_socket_inode p),
      dv_ifindex = int_or (dv_ifindex acc) (dv_ifindex p)\<rparr>"

definition parse_bpftool_delivered_value :: "json \<Rightarrow> json \<Rightarrow> delivered_map_value res" where
  "parse_bpftool_delivered_value v values =
     (if values \<noteq> JNull then
        bind_res (py_iter values) (\<lambda>cpus.
        bind_res (traverse (\<lambda>cpu. bind_res (py_get cpu ''value'' JNull) delivered_value_of_value) cpus)
          (\<lambda>parsed. Inr (fold (\<lambda>p acc. merge_delivered acc p) parsed
              \<lparr>dv_packets = 0, dv_bytes = 0, dv_socket_inode = 0, dv_ifindex = 0\<rparr>)))
      else delivered_value_of_value v)"

definition parse_bpftool_delivered_entry :: "json \<Rightarrow> delivered_map_entry res" where
  "parse_bpftool_delivered_entry entry =
     bind_res (bind_res (py_get entry ''key'' JNull) parse_bpftool_delivered_key) (\<lambda>key.
     bind_res (py_get entry ''value'' JNull) (\<lambda>v.
     bind_res (py_get entry ''values'' JNull) (\<lambda>values.
     bind_res (parse_bpftool_delivered_value v values) (\<lambda>parsed.
       Inr \<lparr>de_key = key, de_value = parsed\<rparr>))))"

section \<open>Receive loader status\<close>

record receive_loader_status =
  rl_backend :: string
  rl_map_id :: int

text \<open>\<open>except (json.JSONDecodeError, KeyError, TypeError, ValueError)\<close>.\<close>

fun status_line_error :: "py_error \<Rightarrow> bool" where
  "status_line_error JSONDecodeError = True"
| "status_line_error (KeyError _) = True"
| "status_line_error TypeError = True"
| "status_line_error ValueError = True"
| "status_line_error UnicodeDecodeError = True"
| "status_line_error UnicodeError = True"
| "status_line_error _ = False"

definition parse_receive_loader_status :: "'w os \<Rightarrow> string \<Rightarrow> receive_loader_status res" where
  "parse_receive_loader_status os line =
     (let bad = RuntimeError ''invalid receive loader status: {}'' [JStr line] in
      case bind_res (opt_res JSONDecodeError (os_loads os line)) (\<lambda>raw.
           bind_res (py_item raw ''backend'') (\<lambda>b.
           bind_res (int_item raw ''map_id'') (\<lambda>map_id. Inr (py_str os b, map_id)))) of
        Inl e \<Rightarrow> Inl (if status_line_error e then bad else e)
      | Inr (backend, map_id) \<Rightarrow>
          if backend \<notin> {''fentry'', ''kprobe''} \<or> map_id \<le> 0 then Inl bad
          else Inr \<lparr>rl_backend = backend, rl_map_id = map_id\<rparr>)"

section \<open>Layouts\<close>

text \<open>The structs of \<open>udp_ingress.bpf.c\<close> and \<open>udp_receive.bpf.c\<close>, and the values of each record in field order.\<close>

definition udp_key_struct :: "c_member list" where
  "udp_key_struct = [CField 1, CField 1, CField 2, CField 2, CField 4, CField 4, CField 4]"

definition udp_counters_struct :: "c_member list" where
  "udp_counters_struct = [CField 8, CField 8]"

definition delivered_key_struct :: "c_member list" where
  "delivered_key_struct =
     [CField 8, CField 4, CField 4, CField 2, CField 2, CField 1, CField 1, CPad 2]"

definition delivered_value_struct :: "c_member list" where
  "delivered_value_struct = [CField 8, CField 8, CField 8, CField 4, CPad 4]"

lemma udp_key_layout: "layout_agrees udp_key_fmt udp_key_struct"
  by code_simp

lemma udp_counters_layout: "layout_agrees udp_counters_fmt udp_counters_struct"
  by code_simp

lemma delivered_key_layout: "layout_agrees delivered_key_fmt delivered_key_struct"
  by code_simp

lemma delivered_value_layout: "layout_agrees delivered_value_fmt delivered_value_struct"
  by code_simp

definition udp_key_vals :: "udp_map_key \<Rightarrow> int list" where
  "udp_key_vals k =
     [mk_family k, mk_ip_proto k, mk_src_port k, mk_dst_port k, mk_ifindex k, mk_src_ip4 k, mk_dst_ip4 k]"

definition udp_counters_vals :: "udp_map_counters \<Rightarrow> int list" where
  "udp_counters_vals c = [mc_packets c, mc_bytes c]"

definition delivered_key_vals :: "delivered_map_key \<Rightarrow> int list" where
  "delivered_key_vals k =
     [dk_socket_cookie k, dk_src_ip4 k, dk_dst_ip4 k, dk_src_port k, dk_dst_port k, dk_family k, dk_ip_proto k]"

definition delivered_value_vals :: "delivered_map_value \<Rightarrow> int list" where
  "delivered_value_vals v = [dv_packets v, dv_bytes v, dv_socket_inode v, dv_ifindex v]"

interpretation udp_key: record_layout udp_key_fmt udp_key_of_vals udp_key_vals
proof unfold_locales
  show "udp_key_of_vals (udp_key_vals r) = Inr r" for r by (simp add: udp_key_vals_def)
  show "\<exists>r. udp_key_of_vals vs = Inr r" if "length vs = length (filter (\<lambda>f. \<not> is_pad f) udp_key_fmt)" for vs
    using that by (cases vs rule: udp_key_of_vals.cases) (simp_all add: udp_key_fmt_def)
qed

interpretation udp_counters: record_layout udp_counters_fmt udp_counters_of_vals udp_counters_vals
proof unfold_locales
  show "udp_counters_of_vals (udp_counters_vals r) = Inr r" for r by (simp add: udp_counters_vals_def)
  show "\<exists>r. udp_counters_of_vals vs = Inr r" if "length vs = length (filter (\<lambda>f. \<not> is_pad f) udp_counters_fmt)" for vs
    using that by (cases vs rule: udp_counters_of_vals.cases) (simp_all add: udp_counters_fmt_def)
qed

interpretation delivered_key: record_layout delivered_key_fmt delivered_key_of_vals delivered_key_vals
proof unfold_locales
  show "delivered_key_of_vals (delivered_key_vals r) = Inr r" for r by (simp add: delivered_key_vals_def)
  show "\<exists>r. delivered_key_of_vals vs = Inr r" if "length vs = length (filter (\<lambda>f. \<not> is_pad f) delivered_key_fmt)" for vs
    using that by (cases vs rule: delivered_key_of_vals.cases) (simp_all add: delivered_key_fmt_def)
qed

interpretation delivered_val: record_layout delivered_value_fmt delivered_value_of_vals delivered_value_vals
proof unfold_locales
  show "delivered_value_of_vals (delivered_value_vals r) = Inr r" for r by (simp add: delivered_value_vals_def)
  show "\<exists>r. delivered_value_of_vals vs = Inr r" if "length vs = length (filter (\<lambda>f. \<not> is_pad f) delivered_value_fmt)" for vs
    using that by (cases vs rule: delivered_value_of_vals.cases) (simp_all add: delivered_value_fmt_def)
qed

lemma calcsize_fmts [simp]:
  "calcsize udp_key_fmt = 20" "calcsize udp_counters_fmt = 16"
  "calcsize delivered_key_fmt = 24" "calcsize delivered_value_fmt = 32"
  by (simp_all add: udp_key_fmt_def udp_counters_fmt_def delivered_key_fmt_def delivered_value_fmt_def)

text \<open>On raw bytes each parser is the layout's decoder behind its length check.\<close>

lemma parse_key_bytes:
  "20 \<le> length bs \<Longrightarrow> parse_bpftool_key (json_bytes bs) = decode_layout udp_key_fmt udp_key_of_vals bs"
  by (simp add: parse_bpftool_key_def decode_layout_def)

lemma counters_bytes:
  "16 \<le> length bs \<Longrightarrow>
     udp_counters_of_value (json_bytes bs) = decode_layout udp_counters_fmt udp_counters_of_vals bs"
  by (simp add: udp_counters_of_value_def decode_layout_def)

lemma parse_delivered_key_bytes:
  "24 \<le> length bs \<Longrightarrow>
     parse_bpftool_delivered_key (json_bytes bs) = decode_layout delivered_key_fmt delivered_key_of_vals bs"
  by (simp add: parse_bpftool_delivered_key_def decode_layout_def)

lemma delivered_value_bytes:
  "32 \<le> length bs \<Longrightarrow>
     delivered_value_of_value (json_bytes bs) = decode_layout delivered_value_fmt delivered_value_of_vals bs"
  by (simp add: delivered_value_of_value_def decode_layout_def)

section \<open>Counters\<close>

interpretation udp_ctr: counter_algebra add_udp_counters zero_udp_counters
  by unfold_locales (simp_all add: add_udp_counters_def zero_udp_counters_def)

lemma mc_fold [simp]:
  "mc_packets (fold (\<lambda>c acc. add_udp_counters acc c) cs a) = mc_packets a + sum_list (map mc_packets cs)"
  "mc_bytes (fold (\<lambda>c acc. add_udp_counters acc c) cs a) = mc_bytes a + sum_list (map mc_bytes cs)"
  by (induction cs arbitrary: a) (simp_all add: add_udp_counters_def)

lemma dv_fold [simp]:
  "dv_packets (fold (\<lambda>p acc. merge_delivered acc p) ps a) = dv_packets a + sum_list (map dv_packets ps)"
  "dv_bytes (fold (\<lambda>p acc. merge_delivered acc p) ps a) = dv_bytes a + sum_list (map dv_bytes ps)"
  by (induction ps arbitrary: a) (simp_all add: merge_delivered_def)

text \<open>The inode of a merged value is the first one that is not zero.\<close>

lemma dv_fold_inode:
  "dv_socket_inode (fold (\<lambda>p acc. merge_delivered acc p) ps a) =
     (case filter (\<lambda>i. i \<noteq> 0) (dv_socket_inode a # map dv_socket_inode ps) of [] \<Rightarrow> 0 | i # _ \<Rightarrow> i)"
  by (induction ps arbitrary: a) (auto simp: merge_delivered_def int_or_def split: list.splits)

section \<open>Addresses\<close>

lemma dot_not_in_number: "CHR ''.'' \<notin> set (str_of_int (int n))"
proof
  assume "CHR ''.'' \<in> set (str_of_int (int n))"
  then obtain e where "e < 10" "digit_char e = CHR ''.''"
    using nat_digits_all [of 10 n] by (auto simp: str_of_int_def)
  then show False using digit_char_neq [of e "CHR ''.''"] by simp
qed

lemma dotted_inj:
  assumes "dotted xs = dotted ys" and "xs \<noteq> []" and "ys \<noteq> []"
  shows "xs = ys"
proof -
  have split: "split_on CHR ''.'' (dotted zs) = map (\<lambda>b. str_of_int (int b)) zs" if "zs \<noteq> []" for zs
    unfolding dotted_def by (rule split_on_join) (use that dot_not_in_number in auto)
  have "map (\<lambda>b. str_of_int (int b)) xs = map (\<lambda>b. str_of_int (int b)) ys"
    using split assms by metis
  moreover have "inj (\<lambda>b. str_of_int (int b))"
    by (rule injI) (metis int_of_str_str_of_int of_nat_eq_iff option.inject)
  ultimately show ?thesis by (simp add: inj_map_eq_map)
qed

lemma ipv4_from_bpf_int_range: "(\<exists>s. ipv4_from_bpf_int v = Inr s) \<longleftrightarrow> 0 \<le> v \<and> v < 2 ^ 32"
  by (simp add: ipv4_from_bpf_int_def)

lemma ipv4_from_bpf_int_inj:
  assumes "ipv4_from_bpf_int v = Inr s" and "ipv4_from_bpf_int w = Inr s"
  shows "v = w"
proof -
  obtain bs where bs: "pack [FI] [v] = Inr bs" "s = dotted (map unat bs)"
    using assms(1) by (auto simp: ipv4_from_bpf_int_def simp del: pack.simps simp: res_simps)
  obtain cs where cs: "pack [FI] [w] = Inr cs" "s = dotted (map unat cs)"
    using assms(2) by (auto simp: ipv4_from_bpf_int_def simp del: pack.simps simp: res_simps)
  have "bs \<noteq> []" "cs \<noteq> []"
    using pack_length [OF bs(1)] pack_length [OF cs(1)] by auto
  with bs(2) cs(2) have "map unat bs = map unat cs" by (intro dotted_inj) auto
  then have "bs = cs" by (metis inj_map_eq_map injI word_unat_eq_iff)
  with unpack_pack [OF bs(1)] unpack_pack [OF cs(1)] show ?thesis by simp
qed

end
