(* ===== verification/EbpfAttach.thy ===== *)
theory EbpfAttach
  imports EbpfMaps
begin

text \<open>
  The parts of \<open>ebpf.py\<close> that talk to the system: the command runner, the tc filter attachment, the
  receive loader attachment, the two map readers and the default interface. Each object is a record;
  each method runs over the object and the world, so its effects before an exception are kept.
\<close>

section \<open>Command runner\<close>

definition sudo_command :: "string list \<Rightarrow> bool \<Rightarrow> string list" where
  "sudo_command args sudo = (if sudo then [''sudo'', ''-n''] @ args else args)"

definition first_detail :: "completed_process \<Rightarrow> string" where
  "first_detail r = (let e = strip (cp_stderr r) in if e \<noteq> [] then e else strip (cp_stdout r))"

definition run_command :: "'w os \<Rightarrow> string list \<Rightarrow> bool \<Rightarrow> bool \<Rightarrow> ('w, completed_process) io" where
  "run_command os args sudo check =
     (let command = sudo_command args sudo in
      io_bind (io_op (os_run os command)) (\<lambda>outcome. case outcome of
          ExecNotFound \<Rightarrow> io_raise (RuntimeError ''required command not found: {}'' [JStr (concat (take 1 command))])
        | ExecDenied \<Rightarrow> io_raise (RuntimeError ''permission denied running command: {}'' [JStr (concat (take 1 command))])
        | ExecOSError \<Rightarrow> io_raise OSError
        | ExecCompleted r \<Rightarrow>
            if check \<and> cp_returncode r \<noteq> 0
            then io_raise (RuntimeError ''command failed: {}{}'' [JStr (join '' '' command), JStr (first_detail r)])
            else io_return r))"

definition run_json :: "'w os \<Rightarrow> string list \<Rightarrow> bool \<Rightarrow> ('w, json) io" where
  "run_json os args sudo =
     io_bind (run_command os args sudo True) (\<lambda>r.
       case os_loads os (if cp_stdout r \<noteq> [] then cp_stdout r else ''null'') of
         None \<Rightarrow> io_raise (RuntimeError ''command did not return JSON: {}{}''
                    [JStr (join '' '' args), JStr (cp_stdout r)])
       | Some v \<Rightarrow> io_return v)"

section \<open>tc filter\<close>

record tc_attachment =
  tc_ifname :: string
  tc_object_path :: string
  tc_section :: string
  tc_pref :: int
  tc_attached :: bool

definition tc_detach_args :: "tc_attachment \<Rightarrow> string list" where
  "tc_detach_args t =
     [''tc'', ''filter'', ''del'', ''dev'', tc_ifname t, ''ingress'', ''pref'', str_of_int (tc_pref t)]"

definition tc_add_args :: "tc_attachment \<Rightarrow> string list" where
  "tc_add_args t =
     [''tc'', ''filter'', ''add'', ''dev'', tc_ifname t, ''ingress'', ''protocol'', ''ip'', ''pref'',
      str_of_int (tc_pref t), ''bpf'', ''da'', ''obj'', tc_object_path t, ''sec'', tc_section t]"

definition tc_qdisc_args :: "tc_attachment \<Rightarrow> string list" where
  "tc_qdisc_args t = [''tc'', ''qdisc'', ''add'', ''dev'', tc_ifname t, ''clsact'']"

definition set_attached :: "bool \<Rightarrow> (tc_attachment \<times> 'w, unit) io" where
  "set_attached b = io_modify (\<lambda>(t, w). (t\<lparr>tc_attached := b\<rparr>, w))"

definition tc_detach :: "'w os \<Rightarrow> bool \<Rightarrow> (tc_attachment \<times> 'w, unit) io" where
  "tc_detach os ignore_missing =
     io_bind (io_get fst) (\<lambda>t.
     io_bind (io_world (run_command os (tc_detach_args t) True False)) (\<lambda>r.
       if cp_returncode r = 0 then set_attached False
       else if ignore_missing then io_return ()
       else io_raise (RuntimeError ''failed to detach tc filter: {}'' [JStr (first_detail r)])))"

definition qdisc_already_exists :: "string \<Rightarrow> bool" where
  "qdisc_already_exists err = (contains_sub ''File exists'' err \<or> contains_sub ''Exclusivity flag on'' err)"

definition tc_attach :: "'w os \<Rightarrow> (tc_attachment \<times> 'w, unit) io" where
  "tc_attach os =
     io_bind (io_get fst) (\<lambda>t.
     io_bind (io_world (io_op (os_exists os (tc_object_path t)))) (\<lambda>found.
       if \<not> found then io_raise (RuntimeError ''BPF object does not exist: {}'' [JStr (tc_object_path t)]) else
       io_bind (io_world (run_command os (tc_qdisc_args t) True False)) (\<lambda>q.
       if cp_returncode q \<noteq> 0 \<and> \<not> qdisc_already_exists (cp_stderr q)
       then io_raise (RuntimeError ''{}'' [JStr (strip (cp_stderr q))]) else
       io_bind (tc_detach os True) (\<lambda>_.
       io_bind (io_world (run_command os (tc_add_args t) True True)) (\<lambda>_.
         set_attached True)))))"

section \<open>Receive loader\<close>

record receive_attachment =
  ra_loader_path :: string
  ra_object_path :: string
  ra_hook :: string
  ra_startup_timeout :: json
  ra_process :: "nat option"
  ra_status :: "receive_loader_status option"

definition new_receive_attachment :: "string \<Rightarrow> string \<Rightarrow> string \<Rightarrow> receive_attachment res" where
  "new_receive_attachment loader_path object_path hook =
     (if hook \<notin> {''auto'', ''fentry'', ''kprobe''}
      then Inl (RuntimeError ''unsupported receive hook: {}'' [JStr hook])
      else Inr \<lparr>ra_loader_path = loader_path, ra_object_path = object_path, ra_hook = hook,
                ra_startup_timeout = JInt 10, ra_process = None, ra_status = None\<rparr>)"

text \<open>
  Stopping a child that may still run: \<open>terminate\<close>, five seconds to finish, then \<open>kill\<close>. Shared by the
  three loader attachments of the program.
\<close>

definition stop_child :: "'w os \<Rightarrow> nat \<Rightarrow> ('w, unit) io" where
  "stop_child os h =
     io_bind (io_op (os_terminate os h)) (\<lambda>_.
     io_bind (io_op (os_communicate os h True)) (\<lambda>out. case out of
         Some _ \<Rightarrow> io_return ()
       | None \<Rightarrow>
           io_bind (io_op (os_kill os h)) (\<lambda>_.
           io_bind (io_op (os_communicate os h False)) (\<lambda>_. io_return ()))))"

definition receive_detach :: "'w os \<Rightarrow> (receive_attachment \<times> 'w, unit) io" where
  "receive_detach os =
     io_bind (io_get (ra_process \<circ> fst)) (\<lambda>process.
     io_bind (io_modify (\<lambda>(a, w). (a\<lparr>ra_process := None, ra_status := None\<rparr>, w))) (\<lambda>_.
       case process of
         None \<Rightarrow> io_return ()
       | Some h \<Rightarrow>
           io_bind (io_world (io_op (os_poll os h))) (\<lambda>rc. case rc of
               Some _ \<Rightarrow> io_return ()
             | None \<Rightarrow> io_world (stop_child os h))))"

text \<open>\<open>stderr\<close> of a child whose output ended, and its exit status once \<open>communicate\<close> has reaped it.\<close>

definition exit_detail :: "'w os \<Rightarrow> nat \<Rightarrow> ('w, string) io" where
  "exit_detail os h =
     io_bind (io_op (os_communicate os h False)) (\<lambda>err.
     io_bind (io_op (os_wait os h)) (\<lambda>rc.
       let e = strip (case err of None \<Rightarrow> [] | Some x \<Rightarrow> x)
       in io_return (if e \<noteq> [] then e else ''exit status '' @ str_of_int rc)))"

definition receive_command :: "receive_attachment \<Rightarrow> string list" where
  "receive_command a = [''sudo'', ''-n'', ra_loader_path a, ra_object_path a, ra_hook a]"

definition receive_attach :: "'w os \<Rightarrow> (receive_attachment \<times> 'w, receive_loader_status) io" where
  "receive_attach os =
     io_bind (io_get fst) (\<lambda>a.
     io_bind (io_world (io_op (os_exists os (ra_loader_path a)))) (\<lambda>loader.
       if \<not> loader then io_raise (RuntimeError ''receive BPF loader does not exist: {}'' [JStr (ra_loader_path a)]) else
     io_bind (io_world (io_op (os_exists os (ra_object_path a)))) (\<lambda>object.
       if \<not> object then io_raise (RuntimeError ''receive BPF object does not exist: {}'' [JStr (ra_object_path a)]) else
     io_bind (io_world (io_op (os_popen os (receive_command a)))) (\<lambda>spawn. case spawn of
         SpawnNotFound \<Rightarrow> io_raise (RuntimeError ''required command not found: {}'' [JStr ''sudo''])
       | SpawnDenied \<Rightarrow> io_raise (RuntimeError ''permission denied running: {}'' [JStr ''sudo''])
       | SpawnOSError \<Rightarrow> io_raise OSError
       | Spawned h \<Rightarrow>
     io_bind (io_modify (\<lambda>(x, w). (x\<lparr>ra_process := Some h\<rparr>, w))) (\<lambda>_.
     io_bind (io_world (io_op (os_select os h))) (\<lambda>ready.
       if \<not> ready then
         io_bind (receive_detach os) (\<lambda>_. io_raise
           (RuntimeError ''receive BPF loader did not report readiness within {}s'' [ra_startup_timeout a])) else
     io_bind (io_world (io_op (os_readline os h))) (\<lambda>line.
       if line = [] then
         io_bind (io_world (exit_detail os h)) (\<lambda>detail.
         io_bind (io_modify (\<lambda>(x, w). (x\<lparr>ra_process := None\<rparr>, w))) (\<lambda>_.
           io_raise (RuntimeError ''receive BPF attach failed: {}'' [JStr detail]))) else
       (case parse_receive_loader_status os line of
          Inr status \<Rightarrow>
            io_bind (io_modify (\<lambda>(x, w). (x\<lparr>ra_status := Some status\<rparr>, w))) (\<lambda>_. io_return status)
        | Inl e \<Rightarrow>
            (case e of
               RuntimeError _ _ \<Rightarrow> io_bind (receive_detach os) (\<lambda>_. io_raise e)
             | _ \<Rightarrow> io_raise e)))))))))"

section \<open>Map readers\<close>

definition UDP_INGRESS_PROGRAM_NAME :: string where
  "UDP_INGRESS_PROGRAM_NAME = ''udp_ingress''"

definition UDP_INGRESS_MAP_NAME :: string where
  "UDP_INGRESS_MAP_NAME = ''udp_ingress_counters''"

record map_reader =
  mr_program_name :: string
  mr_map_name :: string
  mr_map_id :: "int option"

definition new_map_reader :: map_reader where
  "new_map_reader =
     \<lparr>mr_program_name = UDP_INGRESS_PROGRAM_NAME, mr_map_name = UDP_INGRESS_MAP_NAME, mr_map_id = None\<rparr>"

text \<open>Loaded programs of the wanted name that own a map.\<close>

fun candidate_programs :: "string \<Rightarrow> json list \<Rightarrow> json list res" where
  "candidate_programs wanted [] = Inr []"
| "candidate_programs wanted (p # ps) =
     bind_res (py_get p ''name'' JNull) (\<lambda>nm.
     bind_res (py_get p ''map_ids'' JNull) (\<lambda>ids.
     bind_res (candidate_programs wanted ps) (\<lambda>rest.
       Inr (if nm = JStr wanted \<and> py_truthy ids then p # rest else rest))))"

text \<open>\<open>sorted(candidates, key=...)[-1]\<close>: the sort is stable, so the last of the greatest ids.\<close>

definition newest_program :: "json list \<Rightarrow> json res" where
  "newest_program candidates =
     bind_res (traverse (\<lambda>item. int_get0 item ''id'') candidates) (\<lambda>ids.
       Inr (snd (last (sort_key fst (zip ids candidates)))))"

text \<open>\<open>{int(m["id"]): str(m.get("name", "")) for m in maps if "id" in m}\<close>.\<close>

fun map_names :: "'w os \<Rightarrow> json list \<Rightarrow> (int \<rightharpoonup> string) \<Rightarrow> (int \<rightharpoonup> string) res" where
  "map_names os [] names = Inr names"
| "map_names os (m # ms) names =
     bind_res (py_in ''id'' m) (\<lambda>has_id.
       if has_id then
         bind_res (int_item m ''id'') (\<lambda>i.
         bind_res (py_get m ''name'' (JStr [])) (\<lambda>nm.
           map_names os ms (names(i \<mapsto> py_str os nm))))
       else map_names os ms names)"

definition name_of_map :: "(int \<rightharpoonup> string) \<Rightarrow> string \<Rightarrow> int \<Rightarrow> string" where
  "name_of_map names dflt i = (case names i of None \<Rightarrow> dflt | Some n \<Rightarrow> n)"

text \<open>The choice of \<open>refresh_map_id\<close>, from the two listings to the map id.\<close>

definition choose_map :: "'w os \<Rightarrow> map_reader \<Rightarrow> json \<Rightarrow> int list \<Rightarrow> int res" where
  "choose_map os rd maps map_ids =
     (let wanted = take 15 (mr_map_name rd) in
      bind_res (if py_truthy maps then py_iter maps else Inr []) (\<lambda>ms.
      bind_res (map_names os ms Map.empty) (\<lambda>names.
        case find (\<lambda>i. name_of_map names [] i = wanted) map_ids of
          Some i \<Rightarrow> Inr i
        | None \<Rightarrow> Inl (RuntimeError ''program {} owns maps {}, none named {}''
            [JStr (mr_program_name rd),
             JList (map (\<lambda>i. JList [JInt i, JStr (name_of_map names ''?'' i)]) map_ids), JStr wanted]))))"

definition owned_map_ids :: "map_reader \<Rightarrow> json \<Rightarrow> int list res" where
  "owned_map_ids rd programs =
     bind_res (py_iter programs) (\<lambda>ps.
     bind_res (candidate_programs (mr_program_name rd) ps) (\<lambda>candidates.
       if candidates = []
       then Inl (RuntimeError ''could not find loaded BPF program named {}'' [JStr (mr_program_name rd)])
       else
         bind_res (newest_program candidates) (\<lambda>newest.
         bind_res (py_get newest ''map_ids'' JNull) (\<lambda>ids.
         bind_res (if py_truthy ids then py_iter ids else Inr []) (traverse py_int)))))"

definition refresh_map_id :: "'w os \<Rightarrow> (map_reader \<times> 'w, int) io" where
  "refresh_map_id os =
     io_bind (io_get fst) (\<lambda>rd.
     io_bind (io_world (run_json os [''bpftool'', ''-j'', ''prog'', ''show''] True)) (\<lambda>programs.
     io_bind (io_res (owned_map_ids rd programs)) (\<lambda>map_ids.
     io_bind (io_world (run_json os [''bpftool'', ''-j'', ''map'', ''show''] True)) (\<lambda>maps.
     io_bind (io_res (choose_map os rd maps map_ids)) (\<lambda>map_id.
     io_bind (io_modify (\<lambda>(r, w). (r\<lparr>mr_map_id := Some map_id\<rparr>, w))) (\<lambda>_.
       io_return map_id))))))"

definition dump_command :: "int \<Rightarrow> string list" where
  "dump_command map_id = [''bpftool'', ''-j'', ''map'', ''dump'', ''id'', str_of_int map_id]"

text \<open>The body that every \<open>dump_entries\<close> shares: a null dump is empty, anything else is parsed entry by entry.\<close>

definition parse_dump :: "(json \<Rightarrow> 'e res) \<Rightarrow> json \<Rightarrow> 'e list res" where
  "parse_dump parse_entry raw =
     (if raw = JNull then Inr [] else bind_res (py_iter raw) (traverse parse_entry))"

definition dump_entries :: "'w os \<Rightarrow> (map_reader \<times> 'w, udp_map_entry list) io" where
  "dump_entries os =
     io_bind (io_get (mr_map_id \<circ> fst)) (\<lambda>cached.
     io_bind (case cached of Some i \<Rightarrow> if i \<noteq> 0 then io_return i else refresh_map_id os
                           | None \<Rightarrow> refresh_map_id os) (\<lambda>map_id.
     io_bind (io_world (run_json os (dump_command map_id) True)) (\<lambda>raw.
       io_res (parse_dump parse_bpftool_entry raw))))"

definition new_delivered_reader :: "int \<Rightarrow> int res" where
  "new_delivered_reader map_id =
     (if map_id \<le> 0 then Inl (RuntimeError ''invalid delivered map id: {}'' [JInt map_id]) else Inr map_id)"

definition delivered_dump_entries :: "'w os \<Rightarrow> int \<Rightarrow> ('w, delivered_map_entry list) io" where
  "delivered_dump_entries os map_id =
     io_bind (run_json os (dump_command map_id) True) (\<lambda>raw.
       io_res (parse_dump parse_bpftool_delivered_entry raw))"

section \<open>Interfaces\<close>

definition ifname_from_index :: "'w os \<Rightarrow> int \<Rightarrow> string \<Rightarrow> ('w, string) io" where
  "ifname_from_index os ifindex fallback =
     io_bind (io_op (os_if_indextoname os ifindex)) (\<lambda>n.
       io_return (case n of None \<Rightarrow> fallback | Some nm \<Rightarrow> nm))"

text \<open>The word after the first \<open>dev\<close>, when there is one.\<close>

definition word_after_dev :: "string list \<Rightarrow> string option" where
  "word_after_dev ws =
     (case dropWhile (\<lambda>w. w \<noteq> ''dev'') ws of _ # nm # _ \<Rightarrow> Some nm | _ \<Rightarrow> None)"

definition default_route_interface :: "'w os \<Rightarrow> ('w, string) io" where
  "default_route_interface os =
     io_bind (run_command os [''ip'', ''route'', ''show'', ''default''] False False) (\<lambda>r.
       case (if cp_returncode r = 0 then word_after_dev (split_ws (cp_stdout r)) else None) of
         Some nm \<Rightarrow> io_return nm
       | None \<Rightarrow>
           io_bind (io_op (os_getenv os ''UDP_ANALYZER_IFACE'')) (\<lambda>env. case env of
               Some nm \<Rightarrow> if nm \<noteq> [] then io_return nm
                 else io_raise (RuntimeError ''could not detect default interface; pass --interface or set UDP_ANALYZER_IFACE'' [])
             | None \<Rightarrow>
                 io_raise (RuntimeError ''could not detect default interface; pass --interface or set UDP_ANALYZER_IFACE'' [])))"

end
