(* ===== verification/EbpfCollector.thy ===== *)
theory EbpfCollector
  imports EbpfAttach
begin

text \<open>
  \<open>EbpfIngressCollector\<close> of \<open>ebpf.py\<close>: construction with its attribution modes and its clean-up, the two
  delta readers, the checkpoint and \<open>close\<close>. The two readers are interpretations of \<open>delta_reader\<close>.
\<close>

type_synonym ident7 = "int \<times> int \<times> int \<times> int \<times> int \<times> int \<times> int"

record ingress_collector =
  ic_ifname :: string
  ic_bucket_ms :: int
  ic_filter :: sample_filter
  ic_detach_on_close :: bool
  ic_enricher :: "enricher option"
  ic_requested_attribution :: string
  ic_attribution :: string
  ic_receive_backend :: "string option"
  ic_attachment :: tc_attachment
  ic_reader :: map_reader
  ic_previous :: "ident7 \<rightharpoonup> udp_map_counters"
  ic_receive_attachment :: "receive_attachment option"
  ic_delivered_reader :: "int option"
  ic_delivered_previous :: "ident7 \<rightharpoonup> udp_map_counters"
  ic_last_checkpoint_ns :: "int option"

text \<open>The arguments of the constructor.\<close>

record ingress_args =
  ia_ifname :: "string option"
  ia_object_path :: string
  ia_section :: string
  ia_pref :: int
  ia_bucket_ms :: int
  ia_filter :: "sample_filter option"
  ia_attach :: bool
  ia_detach_on_close :: bool
  ia_enricher :: "enricher option"
  ia_attribution :: string
  ia_receive_object_path :: string
  ia_receive_loader_path :: string
  ia_receive_hook :: string
  ia_receive_map_id :: "int option"

text \<open>Methods of the parts, run inside the collector.\<close>

definition on_attachment :: "(tc_attachment \<times> 'w, 'a) io \<Rightarrow> (ingress_collector \<times> 'w, 'a) io" where
  "on_attachment = io_self ic_attachment (\<lambda>a c. c\<lparr>ic_attachment := a\<rparr>)"

definition on_reader :: "(map_reader \<times> 'w, 'a) io \<Rightarrow> (ingress_collector \<times> 'w, 'a) io" where
  "on_reader = io_self ic_reader (\<lambda>r c. c\<lparr>ic_reader := r\<rparr>)"

text \<open>\<open>self.x\<close> of an optional part: nothing happens when it is \<open>None\<close>.\<close>

definition on_receive :: "(receive_attachment \<times> 'w, unit) io \<Rightarrow> (ingress_collector \<times> 'w, unit) io" where
  "on_receive m s =
     (case ic_receive_attachment (fst s) of
        None \<Rightarrow> (Inr (), s)
      | Some a \<Rightarrow> (case m (a, snd s) of
          (r, (a', w')) \<Rightarrow> (r, ((fst s)\<lparr>ic_receive_attachment := Some a'\<rparr>, w'))))"

definition on_enricher ::
  "(enricher \<times> 'w, 'a list) io \<Rightarrow> 'a \<Rightarrow> (ingress_collector \<times> 'w, 'a list) io" where
  "on_enricher m dflt s =
     (case ic_enricher (fst s) of
        None \<Rightarrow> (Inr [dflt], s)
      | Some e \<Rightarrow> (case m (e, snd s) of
          (r, (e', w')) \<Rightarrow> (r, ((fst s)\<lparr>ic_enricher := Some e'\<rparr>, w'))))"

section \<open>Construction\<close>

definition fall_back_to_legacy :: "'w os \<Rightarrow> json \<Rightarrow> (ingress_collector \<times> 'w, unit) io" where
  "fall_back_to_legacy os reason =
     io_bind (io_modify (\<lambda>(c, w). (c\<lparr>ic_attribution := ''legacy'', ic_receive_backend := None\<rparr>, w))) (\<lambda>_.
       io_world (io_op (os_warn os
         ''receive-side socket-cookie attribution unavailable; using legacy port heuristic: {}'' [reason])))"

text \<open>The text of a \<open>RuntimeError\<close>, as the warning shows it.\<close>

definition error_text :: "string \<Rightarrow> json list \<Rightarrow> json" where
  "error_text msg vs = JList (JStr msg # vs)"

definition configure_cookie ::
  "'w os \<Rightarrow> ingress_args \<Rightarrow> string \<Rightarrow> (ingress_collector \<times> 'w, unit) io" where
  "configure_cookie os args mode =
     io_bind (io_res (new_receive_attachment (ia_receive_loader_path args) (ia_receive_object_path args)
                (ia_receive_hook args))) (\<lambda>att (c, w).
       case receive_attach os (att, w) of
         (Inl e, (att', w')) \<Rightarrow>
           (case e of
              RuntimeError msg vs \<Rightarrow>
                if mode = ''auto'' then fall_back_to_legacy os (error_text msg vs) (c, w') else (Inl e, (c, w'))
            | _ \<Rightarrow> (Inl e, (c, w')))
       | (Inr status, (att', w')) \<Rightarrow>
           (let c' = c\<lparr>ic_receive_attachment := Some att'\<rparr> in
            case new_delivered_reader (rl_map_id status) of
              Inl e \<Rightarrow> (Inl e, (c', w'))
            | Inr rd \<Rightarrow> (Inr (), (c'\<lparr>ic_delivered_reader := Some rd, ic_attribution := ''cookie'',
                             ic_receive_backend := Some (rl_backend status)\<rparr>, w'))))"

definition configure_delivery :: "'w os \<Rightarrow> ingress_args \<Rightarrow> (ingress_collector \<times> 'w, unit) io" where
  "configure_delivery os args =
     io_bind (io_get (ic_attribution \<circ> fst)) (\<lambda>mode.
     if mode = ''none'' then io_return () else
     io_bind (io_modify (\<lambda>(c, w).
         (if ic_enricher c = None then c\<lparr>ic_enricher := Some (new_enricher None)\<rparr> else c, w))) (\<lambda>_.
     if mode = ''legacy'' then io_return () else
     if \<not> ia_attach args then
       (case ia_receive_map_id args of
          Some map_id \<Rightarrow>
            io_bind (io_res (new_delivered_reader map_id)) (\<lambda>rd.
              io_modify (\<lambda>(c, w). (c\<lparr>ic_delivered_reader := Some rd, ic_attribution := ''cookie'',
                ic_receive_backend := Some ''existing-map''\<rparr>, w)))
        | None \<Rightarrow>
            if mode = ''auto'' then
              fall_back_to_legacy os
                (JStr ''--no-attach needs --receive-map-id for socket-cookie attribution'')
            else
              io_raise (RuntimeError
                ''--delivery-attribution cookie with --no-attach requires --receive-map-id'' []))
     else configure_cookie os args mode))"

definition initial_collector :: "ingress_args \<Rightarrow> string \<Rightarrow> string \<Rightarrow> ingress_collector" where
  "initial_collector args ifname attribution =
     \<lparr>ic_ifname = ifname, ic_bucket_ms = ia_bucket_ms args,
      ic_filter = (case ia_filter args of None \<Rightarrow> no_filter | Some f \<Rightarrow> f),
      ic_detach_on_close = ia_detach_on_close args, ic_enricher = ia_enricher args,
      ic_requested_attribution = attribution, ic_attribution = attribution,
      ic_receive_backend = None,
      ic_attachment = \<lparr>tc_ifname = ifname, tc_object_path = ia_object_path args,
        tc_section = ia_section args, tc_pref = ia_pref args, tc_attached = False\<rparr>,
      ic_reader = new_map_reader, ic_previous = Map.empty, ic_receive_attachment = None,
      ic_delivered_reader = None, ic_delivered_previous = Map.empty, ic_last_checkpoint_ns = None\<rparr>"

definition collector_setup :: "'w os \<Rightarrow> ingress_args \<Rightarrow> (ingress_collector \<times> 'w, unit) io" where
  "collector_setup os args =
     io_bind (if ia_attach args then on_attachment (tc_attach os) else io_return ()) (\<lambda>_.
     io_bind (on_reader (refresh_map_id os)) (\<lambda>_.
       configure_delivery os args))"

text \<open>The clean-up of the constructor: \<open>except Exception\<close> lets \<open>KeyboardInterrupt\<close> pass.\<close>

definition collector_cleanup ::
  "'w os \<Rightarrow> ingress_args \<Rightarrow> py_error \<Rightarrow> (ingress_collector \<times> 'w, unit) io" where
  "collector_cleanup os args e =
     (if e = KeyboardInterrupt then io_raise e else
      io_bind (on_receive (receive_detach os)) (\<lambda>_.
      io_bind (if ia_attach args then on_attachment (tc_detach os True) else io_return ()) (\<lambda>_.
        io_raise e)))"

definition collector_ifname :: "'w os \<Rightarrow> ingress_args \<Rightarrow> ('w, string) io" where
  "collector_ifname os args =
     (case ia_ifname args of
        Some n \<Rightarrow> if n \<noteq> [] then io_return n
                  else if ia_attach args then default_route_interface os else io_return ''unknown''
      | None \<Rightarrow> if ia_attach args then default_route_interface os else io_return ''unknown'')"

definition effective_attribution :: "ingress_args \<Rightarrow> string" where
  "effective_attribution args =
     (if ia_enricher args \<noteq> None \<and> ia_attribution args = ''none'' then ''legacy'' else ia_attribution args)"

definition new_ingress_collector :: "'w os \<Rightarrow> ingress_args \<Rightarrow> ('w, ingress_collector) io" where
  "new_ingress_collector os args w =
     (if ia_attribution args \<notin> {''none'', ''auto'', ''cookie'', ''legacy''}
      then (Inl (RuntimeError ''unsupported delivery attribution: {}'' [JStr (ia_attribution args)]), w)
      else case collector_ifname os args w of
        (Inl e, w') \<Rightarrow> (Inl e, w')
      | (Inr ifname, w') \<Rightarrow>
          (case io_catch (collector_setup os args) (collector_cleanup os args)
                  (initial_collector args ifname (effective_attribution args), w') of
             (Inl e, (c, w'')) \<Rightarrow> (Inl e, w'')
           | (Inr _, (c, w'')) \<Rightarrow> (Inr c, w'')))"

section \<open>Reading one checkpoint\<close>

definition delta_sample ::
  "int \<Rightarrow> int \<Rightarrow> string \<Rightarrow> string \<Rightarrow> int \<Rightarrow> int \<Rightarrow> int \<Rightarrow> int \<Rightarrow> string \<Rightarrow> int \<Rightarrow> int \<Rightarrow> int \<Rightarrow> string \<Rightarrow> udp_sample" where
  "delta_sample bucket_ns elapsed_ms src dst sport dport proto ifindex ifname packets bts sock layer =
     \<lparr>us_bucket_start_ns = bucket_ns, us_bucket_ms = elapsed_ms, us_src_ip = src, us_dst_ip = dst,
      us_src_port = sport, us_dst_port = dport, us_ifindex = ifindex, us_ifname = ifname,
      us_packets = packets, us_bytes = bts, us_ip_proto = proto, us_netns_id = 0,
      us_container_id = [], us_process_name = [], us_host_pid = 0, us_container_pid = 0,
      us_socket_id = sock, us_layer = layer\<rparr>"

text \<open>The samples of a flow that the filter lets through.\<close>

definition keep_matching :: "udp_sample list \<Rightarrow> (ingress_collector \<times> 'w, udp_sample list) io" where
  "keep_matching rows =
     io_bind (io_get (ic_filter \<circ> fst)) (\<lambda>f. io_return (filter (sample_matches f) rows))"

text \<open>The body of the loop of \<open>_read_ingress\<close> for a known flow.\<close>

definition ingress_emit ::
  "'w os \<Rightarrow> int \<Rightarrow> int \<Rightarrow> (ident7 \<times> udp_map_entry) list
    \<Rightarrow> ident7 \<Rightarrow> udp_map_counters \<Rightarrow> udp_map_counters \<Rightarrow> (ingress_collector \<times> 'w, udp_sample list) io" where
  "ingress_emit os bucket_ns elapsed_ms first_entry i prev now =
     (let packet_delta = mc_packets now - mc_packets prev;
          byte_delta = mc_bytes now - mc_bytes prev
      in if packet_delta \<le> 0 \<and> byte_delta \<le> 0 then io_return [] else
         case map_of first_entry i of
           None \<Rightarrow> io_raise (KeyError [])
         | Some entry \<Rightarrow>
             let key = me_key entry in
             io_bind (io_res (ipv4_from_bpf_int (mk_src_ip4 key))) (\<lambda>src.
             io_bind (io_res (ipv4_from_bpf_int (mk_dst_ip4 key))) (\<lambda>dst.
             io_bind (io_get (ic_ifname \<circ> fst)) (\<lambda>fallback.
             io_bind (io_world (ifname_from_index os (mk_ifindex key) fallback)) (\<lambda>ifname.
             let sample = delta_sample bucket_ns elapsed_ms src dst (mk_src_port key) (mk_dst_port key)
                   (mk_ip_proto key) (mk_ifindex key) ifname (max packet_delta 0) (max byte_delta 0) 0 ''ingress''
             in io_bind (io_get (ic_attribution \<circ> fst)) (\<lambda>mode.
                io_bind (if mode = ''legacy'' then on_enricher (enrich os sample) sample
                         else io_return [sample]) keep_matching))))))"

definition put_previous :: "(ident7 \<rightharpoonup> udp_map_counters) \<Rightarrow> ingress_collector \<Rightarrow> ingress_collector" where
  "put_previous p c = c\<lparr>ic_previous := p\<rparr>"

definition read_ingress ::
  "'w os \<Rightarrow> int \<Rightarrow> int \<Rightarrow> (ingress_collector \<times> 'w, udp_sample list) io" where
  "read_ingress os bucket_ns elapsed_ms =
     io_bind (on_reader (dump_entries os)) (\<lambda>entries.
       let (totals, first_entry) =
             aggregate (udp_key_identity \<circ> me_key) me_counters add_udp_counters zero_udp_counters entries
       in io_bind (io_modify (\<lambda>(c, w). (put_previous (drop_stale totals (ic_previous c)) c, w))) (\<lambda>_.
            emit_loop put_previous ic_previous (ingress_emit os bucket_ns elapsed_ms first_entry) totals []))"

text \<open>The body of the loop of \<open>_read_delivered\<close> for a known flow.\<close>

definition delivered_emit ::
  "'w os \<Rightarrow> int \<Rightarrow> int \<Rightarrow> (ident7 \<times> delivered_map_entry) list
    \<Rightarrow> ident7 \<Rightarrow> udp_map_counters \<Rightarrow> udp_map_counters \<Rightarrow> (ingress_collector \<times> 'w, udp_sample list) io" where
  "delivered_emit os bucket_ns elapsed_ms first_entry i prev now =
     (let packet_delta = mc_packets now - mc_packets prev;
          byte_delta = mc_bytes now - mc_bytes prev
      in if packet_delta \<le> 0 \<and> byte_delta \<le> 0 then io_return [] else
         case map_of first_entry i of
           None \<Rightarrow> io_raise (KeyError [])
         | Some entry \<Rightarrow>
             let key = de_key entry; v = de_value entry in
             io_bind (io_res (ipv4_from_bpf_int (dk_src_ip4 key))) (\<lambda>src.
             io_bind (io_res (ipv4_from_bpf_int (dk_dst_ip4 key))) (\<lambda>dst.
             io_bind (io_get (ic_ifname \<circ> fst)) (\<lambda>fallback.
             io_bind (io_world (ifname_from_index os (dv_ifindex v) fallback)) (\<lambda>ifname.
             let sample = delta_sample bucket_ns elapsed_ms src dst (dk_src_port key) (dk_dst_port key)
                   (dk_ip_proto key) (dv_ifindex v) ifname (max packet_delta 0) (max byte_delta 0)
                   (dk_socket_cookie key) ''delivered''
             in io_bind (on_enricher (enrich_exact os sample (dv_socket_inode v) (dk_socket_cookie key)) sample)
                  keep_matching)))))"

definition put_delivered :: "(ident7 \<rightharpoonup> udp_map_counters) \<Rightarrow> ingress_collector \<Rightarrow> ingress_collector" where
  "put_delivered p c = c\<lparr>ic_delivered_previous := p\<rparr>"

definition read_delivered ::
  "'w os \<Rightarrow> int \<Rightarrow> int \<Rightarrow> (ingress_collector \<times> 'w, udp_sample list) io" where
  "read_delivered os bucket_ns elapsed_ms =
     io_bind (io_get (ic_delivered_reader \<circ> fst)) (\<lambda>reader. case reader of
       None \<Rightarrow> io_return []
     | Some map_id \<Rightarrow>
         io_bind (io_world (delivered_dump_entries os map_id)) (\<lambda>entries.
           let (totals, first_entry) =
                 aggregate (delivered_key_identity \<circ> de_key) (delivered_counters \<circ> de_value)
                   add_udp_counters zero_udp_counters entries
           in io_bind (io_modify (\<lambda>(c, w). (put_delivered (drop_stale totals (ic_delivered_previous c)) c, w))) (\<lambda>_.
                emit_loop put_delivered ic_delivered_previous
                  (delivered_emit os bucket_ns elapsed_ms first_entry) totals [])))"

definition read_checkpoint :: "'w os \<Rightarrow> (ingress_collector \<times> 'w, udp_sample list) io" where
  "read_checkpoint os =
     io_bind (io_world (io_op (os_time_ns os))) (\<lambda>now_ns.
     io_bind (io_get fst) (\<lambda>c.
     io_bind (io_res (bucket_start_ns now_ns (ic_bucket_ms c))) (\<lambda>bucket_ns.
     let elapsed_ms = measured_ms (ic_bucket_ms c) (ic_last_checkpoint_ns c) now_ns in
     io_bind (io_modify (\<lambda>(x, w). (x\<lparr>ic_last_checkpoint_ns := Some now_ns\<rparr>, w))) (\<lambda>_.
     io_bind (read_ingress os bucket_ns elapsed_ms) (\<lambda>ingress.
     if ic_delivered_reader c = None then io_return ingress else
     io_bind (read_delivered os bucket_ns elapsed_ms) (\<lambda>delivered.
       io_return (ingress @ delivered)))))))"

text \<open>\<open>close\<close> detaches when it was asked to, whoever attached the filter.\<close>

definition close_collector :: "'w os \<Rightarrow> (ingress_collector \<times> 'w, unit) io" where
  "close_collector os =
     io_bind (io_get (ic_detach_on_close \<circ> fst)) (\<lambda>detach.
       if detach then
         io_bind (on_receive (receive_detach os)) (\<lambda>_. on_attachment (tc_detach os True))
       else io_return ())"

end
