(* ===== verification/SimOs.thy ===== *)
theory SimOs
  imports EbpfAttach
begin

text \<open>
  A small concrete system. The properties of the development hold for every \<open>os\<close>; the witnesses run the
  same definitions on this one, whose n-th command (or loader line) yields the n-th JSON value of a table.
  The ghost observations of a world (which commands ran, which children live) are stated here as laws.
\<close>

section \<open>Ghost observations\<close>

text \<open>A trace of the commands: running one appends it; a file test and the control of a child leave it alone.\<close>

definition records_commands :: "'w os \<Rightarrow> ('w \<Rightarrow> string list list) \<Rightarrow> bool" where
  "records_commands os trace \<longleftrightarrow>
     (\<forall>args w. trace (snd (os_run os args w)) = trace w @ [args]) \<and>
     (\<forall>p w. trace (snd (os_exists os p w)) = trace w) \<and>
     (\<forall>h w. trace (snd (os_poll os h w)) = trace w) \<and>
     (\<forall>h w. trace (snd (os_terminate os h w)) = trace w) \<and>
     (\<forall>h w. trace (snd (os_kill os h w)) = trace w) \<and>
     (\<forall>h b w. trace (snd (os_communicate os h b w)) = trace w)"

text \<open>
  The children that run. Starting one adds it and nothing else does; \<open>communicate\<close> that returned and
  \<open>wait\<close> have reaped their child, a \<open>poll\<close> with a status saw it dead.
\<close>

definition child_laws :: "'w os \<Rightarrow> ('w \<Rightarrow> nat set) \<Rightarrow> bool" where
  "child_laws os alive \<longleftrightarrow>
     (\<forall>args w s w'. os_popen os args w = (s, w') \<longrightarrow>
        alive w' = (case s of Spawned h \<Rightarrow> insert h (alive w) | _ \<Rightarrow> alive w)) \<and>
     (\<forall>h b w y w'. os_communicate os h b w = (y, w') \<longrightarrow>
        alive w' \<subseteq> (if b \<and> y = None then alive w else alive w - {h})) \<and>
     (\<forall>h w rc w'. os_poll os h w = (rc, w') \<longrightarrow>
        alive w' \<subseteq> (if rc = None then alive w else alive w - {h})) \<and>
     (\<forall>h w u w'. os_terminate os h w = (u, w') \<or> os_kill os h w = (u, w') \<longrightarrow> alive w' \<subseteq> alive w) \<and>
     (\<forall>h w i w'. os_wait os h w = (i, w') \<longrightarrow> alive w' \<subseteq> alive w - {h}) \<and>
     (\<forall>h w l w'. os_readline os h w = (l, w') \<longrightarrow> alive w' = alive w) \<and>
     (\<forall>h w f w'. os_select os h w = (f, w') \<longrightarrow> alive w' = alive w) \<and>
     (\<forall>p w f w'. os_exists os p w = (f, w') \<longrightarrow> alive w' = alive w) \<and>
     (\<forall>args w oc w'. os_run os args w = (oc, w') \<longrightarrow> alive w' = alive w) \<and>
     (\<forall>n w v w'. os_getenv os n w = (v, w') \<longrightarrow> alive w' = alive w) \<and>
     (\<forall>t vs w u w'. os_warn os t vs w = (u, w') \<longrightarrow> alive w' = alive w) \<and>
     (\<forall>w i w'. os_geteuid os w = (i, w') \<longrightarrow> alive w' = alive w) \<and>
     (\<forall>h w x w'. os_stderr_text os h w = (x, w') \<longrightarrow> alive w' = alive w)"

lemma child_call:
  assumes "child_laws os alive"
  shows child_popen: "os_popen os args w = (s, w') \<Longrightarrow>
      alive w' = (case s of Spawned h \<Rightarrow> insert h (alive w) | _ \<Rightarrow> alive w)"
    and child_communicate: "os_communicate os h b w = (y, w') \<Longrightarrow>
      alive w' \<subseteq> (if b \<and> y = None then alive w else alive w - {h})"
    and child_poll: "os_poll os h w = (rc, w') \<Longrightarrow> alive w' \<subseteq> (if rc = None then alive w else alive w - {h})"
    and child_terminate: "os_terminate os h w = (u, w') \<Longrightarrow> alive w' \<subseteq> alive w"
    and child_kill: "os_kill os h w = (u, w') \<Longrightarrow> alive w' \<subseteq> alive w"
    and child_wait: "os_wait os h w = (i, w') \<Longrightarrow> alive w' \<subseteq> alive w - {h}"
    and child_readline: "os_readline os h w = (l, w') \<Longrightarrow> alive w' = alive w"
    and child_select: "os_select os h w = (f, w') \<Longrightarrow> alive w' = alive w"
    and child_exists: "os_exists os p w = (f, w') \<Longrightarrow> alive w' = alive w"
    and child_run: "os_run os args w = (oc, w') \<Longrightarrow> alive w' = alive w"
    and child_getenv: "os_getenv os n w = (v, w') \<Longrightarrow> alive w' = alive w"
    and child_warn: "os_warn os t vs w = (u, w') \<Longrightarrow> alive w' = alive w"
    and child_geteuid: "os_geteuid os w = (i, w') \<Longrightarrow> alive w' = alive w"
    and child_stderr: "os_stderr_text os h w = (x, w') \<Longrightarrow> alive w' = alive w"
proof -
  note laws = assms [unfolded child_laws_def]
  note popen = laws [THEN conjunct1, rule_format] and rest0 = laws [THEN conjunct2]
  note communicate = rest0 [THEN conjunct1, rule_format] and rest1 = rest0 [THEN conjunct2]
  note poll = rest1 [THEN conjunct1, rule_format] and rest2 = rest1 [THEN conjunct2]
  note stop = rest2 [THEN conjunct1, rule_format] and rest3 = rest2 [THEN conjunct2]
  note wait = rest3 [THEN conjunct1, rule_format] and rest4 = rest3 [THEN conjunct2]
  note readline = rest4 [THEN conjunct1, rule_format] and rest5 = rest4 [THEN conjunct2]
  note select = rest5 [THEN conjunct1, rule_format] and rest6 = rest5 [THEN conjunct2]
  note exists = rest6 [THEN conjunct1, rule_format] and rest7 = rest6 [THEN conjunct2]
  note run = rest7 [THEN conjunct1, rule_format] and rest8 = rest7 [THEN conjunct2]
  note getenv = rest8 [THEN conjunct1, rule_format] and rest9 = rest8 [THEN conjunct2]
  note warn = rest9 [THEN conjunct1, rule_format] and rest10 = rest9 [THEN conjunct2]
  note geteuid = rest10 [THEN conjunct1, rule_format] and stderr = rest10 [THEN conjunct2, rule_format]
  show "os_popen os args w = (s, w') \<Longrightarrow>
      alive w' = (case s of Spawned h \<Rightarrow> insert h (alive w) | _ \<Rightarrow> alive w)"
    by (rule popen)
  show "os_communicate os h b w = (y, w') \<Longrightarrow>
      alive w' \<subseteq> (if b \<and> y = None then alive w else alive w - {h})"
    by (rule communicate)
  show "os_poll os h w = (rc, w') \<Longrightarrow> alive w' \<subseteq> (if rc = None then alive w else alive w - {h})"
    by (rule poll)
  show "os_terminate os h w = (u, w') \<Longrightarrow> alive w' \<subseteq> alive w"
    by (rule stop) blast
  show "os_kill os h w = (u, w') \<Longrightarrow> alive w' \<subseteq> alive w"
    by (rule stop) blast
  show "os_wait os h w = (i, w') \<Longrightarrow> alive w' \<subseteq> alive w - {h}"
    by (rule wait)
  show "os_readline os h w = (l, w') \<Longrightarrow> alive w' = alive w"
    by (rule readline)
  show "os_select os h w = (f, w') \<Longrightarrow> alive w' = alive w"
    by (rule select)
  show "os_exists os p w = (f, w') \<Longrightarrow> alive w' = alive w"
    by (rule exists)
  show "os_run os args w = (oc, w') \<Longrightarrow> alive w' = alive w"
    by (rule run)
  show "os_getenv os n w = (v, w') \<Longrightarrow> alive w' = alive w"
    by (rule getenv)
  show "os_warn os t vs w = (u, w') \<Longrightarrow> alive w' = alive w"
    by (rule warn)
  show "os_geteuid os w = (i, w') \<Longrightarrow> alive w' = alive w"
    by (rule geteuid)
  show "os_stderr_text os h w = (x, w') \<Longrightarrow> alive w' = alive w"
    by (rule stderr)
qed

section \<open>A concrete system\<close>

record sim =
  sim_step :: nat
  sim_alive :: "nat list"
  sim_log :: "string list list"

definition sim_start :: sim where
  "sim_start = \<lparr>sim_step = 0, sim_alive = [], sim_log = []\<rparr>"

definition sim_line :: "sim \<Rightarrow> string" where
  "sim_line s = replicate (Suc (sim_step s)) CHR ''x''"

definition sim_loads :: "json list \<Rightarrow> string \<Rightarrow> json option" where
  "sim_loads table s =
     (if 0 < length s \<and> length s \<le> length table then Some (table ! (length s - 1)) else None)"

definition sim_os :: "json list \<Rightarrow> sim os" where
  "sim_os table =
     \<lparr>os_time_ns = (\<lambda>s. (int (Suc (sim_step s)) * 1000000000, s)),
      os_monotonic = (\<lambda>s. (of_nat (sim_step s), s)),
      os_run = (\<lambda>args s. (ExecCompleted \<lparr>cp_returncode = 0, cp_stdout = sim_line s, cp_stderr = []\<rparr>,
        s\<lparr>sim_step := Suc (sim_step s), sim_log := sim_log s @ [args]\<rparr>)),
      os_loads = sim_loads table,
      os_repr = (\<lambda>_. []),
      os_read_text = (\<lambda>_ s. (ReadOSError, s)),
      os_iterdir = (\<lambda>_ s. (None, s)),
      os_readlink = (\<lambda>_ s. (None, s)),
      os_exists = (\<lambda>_ s. (True, s)),
      os_if_indextoname = (\<lambda>_ s. (None, s)),
      os_getenv = (\<lambda>_ s. (None, s)),
      os_geteuid = (\<lambda>s. (0, s)),
      os_popen = (\<lambda>_ s. (Spawned (sim_step s), s\<lparr>sim_alive := sim_step s # sim_alive s\<rparr>)),
      os_select = (\<lambda>_ s. (True, s)),
      os_readline = (\<lambda>_ s. (sim_line s, s\<lparr>sim_step := Suc (sim_step s)\<rparr>)),
      os_poll = (\<lambda>h s. (if h \<in> set (sim_alive s) then None else Some 0, s)),
      os_wait = (\<lambda>h s. (0, s\<lparr>sim_alive := filter (\<lambda>x. x \<noteq> h) (sim_alive s)\<rparr>)),
      os_terminate = (\<lambda>_ s. ((), s)),
      os_kill = (\<lambda>_ s. ((), s)),
      os_communicate = (\<lambda>h _ s. (Some [], s\<lparr>sim_alive := filter (\<lambda>x. x \<noteq> h) (sim_alive s)\<rparr>)),
      os_stderr_text = (\<lambda>_ s. ([], s)),
      os_warn = (\<lambda>_ _ s. ((), s)),
      os_getaddrinfo = (\<lambda>_ _ s. (ResolverOSError, s)),
      os_glob = (\<lambda>_ _ s. ([], s)),
      os_bracket_ok = (\<lambda>_. False),
      os_home = ''/root''\<rparr>"

text \<open>Each operation, so that \<open>sim_os\<close> itself stays folded.\<close>

lemma sim_ops [simp]:
  "os_time_ns (sim_os table) = (\<lambda>s. (int (Suc (sim_step s)) * 1000000000, s))"
  "os_monotonic (sim_os table) = (\<lambda>s. (of_nat (sim_step s), s))"
  "os_run (sim_os table) = (\<lambda>args s. (ExecCompleted \<lparr>cp_returncode = 0, cp_stdout = sim_line s, cp_stderr = []\<rparr>,
        s\<lparr>sim_step := Suc (sim_step s), sim_log := sim_log s @ [args]\<rparr>))"
  "os_loads (sim_os table) = sim_loads table"
  "os_repr (sim_os table) = (\<lambda>_. [])"
  "os_read_text (sim_os table) = (\<lambda>_ s. (ReadOSError, s))"
  "os_iterdir (sim_os table) = (\<lambda>_ s. (None, s))"
  "os_readlink (sim_os table) = (\<lambda>_ s. (None, s))"
  "os_exists (sim_os table) = (\<lambda>_ s. (True, s))"
  "os_if_indextoname (sim_os table) = (\<lambda>_ s. (None, s))"
  "os_getenv (sim_os table) = (\<lambda>_ s. (None, s))"
  "os_geteuid (sim_os table) = (\<lambda>s. (0, s))"
  "os_popen (sim_os table) = (\<lambda>_ s. (Spawned (sim_step s), s\<lparr>sim_alive := sim_step s # sim_alive s\<rparr>))"
  "os_select (sim_os table) = (\<lambda>_ s. (True, s))"
  "os_readline (sim_os table) = (\<lambda>_ s. (sim_line s, s\<lparr>sim_step := Suc (sim_step s)\<rparr>))"
  "os_poll (sim_os table) = (\<lambda>h s. (if h \<in> set (sim_alive s) then None else Some 0, s))"
  "os_wait (sim_os table) = (\<lambda>h s. (0, s\<lparr>sim_alive := filter (\<lambda>x. x \<noteq> h) (sim_alive s)\<rparr>))"
  "os_terminate (sim_os table) = (\<lambda>_ s. ((), s))"
  "os_kill (sim_os table) = (\<lambda>_ s. ((), s))"
  "os_communicate (sim_os table) = (\<lambda>h _ s. (Some [], s\<lparr>sim_alive := filter (\<lambda>x. x \<noteq> h) (sim_alive s)\<rparr>))"
  "os_stderr_text (sim_os table) = (\<lambda>_ s. ([], s))"
  "os_warn (sim_os table) = (\<lambda>_ _ s. ((), s))"
  "os_getaddrinfo (sim_os table) = (\<lambda>_ _ s. (ResolverOSError, s))"
  "os_glob (sim_os table) = (\<lambda>_ _ s. ([], s))"
  "os_bracket_ok (sim_os table) = (\<lambda>_. False)"
  "os_home (sim_os table) = ''/root''"
  by (simp_all add: sim_os_def)

lemma sim_records: "records_commands (sim_os table) sim_log"
  by (simp add: records_commands_def)

lemma sim_child_laws: "child_laws (sim_os table) (set \<circ> sim_alive)"
  by (auto simp: child_laws_def)

lemma sim_loads_line [simp]:
  "sim_loads table (sim_line s) = (if sim_step s < length table then Some (table ! sim_step s) else None)"
  by (simp add: sim_loads_def sim_line_def)

lemma sim_line_neq_Nil [simp]: "sim_line s \<noteq> []"
  by (simp add: sim_line_def)

lemma sim_run_command:
  "run_command (sim_os table) args sudo check s =
     (Inr \<lparr>cp_returncode = 0, cp_stdout = sim_line s, cp_stderr = []\<rparr>,
      s\<lparr>sim_step := Suc (sim_step s), sim_log := sim_log s @ [sudo_command args sudo]\<rparr>)"
  by (simp add: run_command_def Let_def io_defs)

lemma sim_run_json:
  "sim_step s < length table \<Longrightarrow> run_json (sim_os table) args sudo s =
     (Inr (table ! sim_step s),
      s\<lparr>sim_step := Suc (sim_step s), sim_log := sim_log s @ [sudo_command args sudo]\<rparr>)"
  by (simp add: run_json_def sim_run_command io_defs)

end
