(* ===== verification/Collectors.thy ===== *)
theory Collectors
  imports EbpfCollector SimOs
begin

text \<open>
  \<open>collectors.py\<close>: the deterministic dry-run collector, and \<open>EbpfCollector\<close>, which forwards its arguments
  to the ingress collector of \<open>ebpf.py\<close> with its own defaults.
\<close>

section \<open>Dry run\<close>

record dry_run_stream =
  ds_src_ip :: string
  ds_dst_ip :: string
  ds_src_port :: int
  ds_dst_port :: int
  ds_ifindex :: int
  ds_ifname :: string
  ds_payload_size :: int
  ds_packet_base :: int
  ds_layer :: string
  ds_container_id :: string
  ds_process_name :: string
  ds_host_pid :: int
  ds_container_pid :: int
  ds_socket_id :: int

record dry_run_collector =
  dr_bucket_ms :: int
  dr_filter :: sample_filter
  dr_tick :: int
  dr_streams :: "dry_run_stream list"

definition demo_streams :: "dry_run_stream list" where
  "demo_streams =
     [\<lparr>ds_src_ip = ''192.0.2.10'', ds_dst_ip = ''198.51.100.20'', ds_src_port = 40000, ds_dst_port = 5000,
       ds_ifindex = 2, ds_ifname = ''eth0'', ds_payload_size = 1316, ds_packet_base = 100, ds_layer = ''delivered'',
       ds_container_id = ''demo-ffmpeg'', ds_process_name = ''ffmpeg'', ds_host_pid = 4242, ds_container_pid = 101,
       ds_socket_id = 500001\<rparr>,
      \<lparr>ds_src_ip = ''192.0.2.11'', ds_dst_ip = ''198.51.100.20'', ds_src_port = 40010, ds_dst_port = 5001,
       ds_ifindex = 2, ds_ifname = ''eth0'', ds_payload_size = 1200, ds_packet_base = 75, ds_layer = ''delivered'',
       ds_container_id = ''demo-ffmpeg'', ds_process_name = ''ffmpeg'', ds_host_pid = 4243, ds_container_pid = 102,
       ds_socket_id = 500002\<rparr>,
      \<lparr>ds_src_ip = ''192.0.2.12'', ds_dst_ip = ''198.51.100.20'', ds_src_port = 40020, ds_dst_port = 5999,
       ds_ifindex = 2, ds_ifname = ''eth0'', ds_payload_size = 512, ds_packet_base = 12, ds_layer = ''ingress'',
       ds_container_id = [], ds_process_name = [], ds_host_pid = 0, ds_container_pid = 0, ds_socket_id = 0\<rparr>]"

definition new_dry_run :: "int \<Rightarrow> sample_filter option \<Rightarrow> dry_run_collector" where
  "new_dry_run bucket_ms f =
     \<lparr>dr_bucket_ms = bucket_ms, dr_filter = (case f of None \<Rightarrow> no_filter | Some x \<Rightarrow> x), dr_tick = 0,
      dr_streams = demo_streams\<rparr>"

definition dry_run_sample :: "int \<Rightarrow> int \<Rightarrow> int \<Rightarrow> nat \<Rightarrow> dry_run_stream \<Rightarrow> udp_sample" where
  "dry_run_sample bucket_ns bucket_ms tick index s =
     (let packets = ds_packet_base s + tick + int index in
      \<lparr>us_bucket_start_ns = bucket_ns, us_bucket_ms = bucket_ms, us_src_ip = ds_src_ip s, us_dst_ip = ds_dst_ip s,
       us_src_port = ds_src_port s, us_dst_port = ds_dst_port s, us_ifindex = ds_ifindex s, us_ifname = ds_ifname s,
       us_packets = packets, us_bytes = packets * ds_payload_size s, us_ip_proto = UDP_PROTO, us_netns_id = 0,
       us_container_id = ds_container_id s, us_process_name = ds_process_name s, us_host_pid = ds_host_pid s,
       us_container_pid = ds_container_pid s, us_socket_id = ds_socket_id s, us_layer = ds_layer s\<rparr>)"

definition dry_run_checkpoint :: "'w os \<Rightarrow> (dry_run_collector \<times> 'w, udp_sample list) io" where
  "dry_run_checkpoint os =
     io_bind (io_world (io_op (os_time_ns os))) (\<lambda>now_ns.
     io_bind (io_get (dr_bucket_ms \<circ> fst)) (\<lambda>bucket_ms.
     io_bind (io_res (bucket_start_ns now_ns bucket_ms)) (\<lambda>bucket_ns.
     io_bind (io_modify (\<lambda>(c, w). (c\<lparr>dr_tick := dr_tick c + 1\<rparr>, w))) (\<lambda>_.
     io_bind (io_get fst) (\<lambda>c.
       io_return (filter (sample_matches (dr_filter c))
         (map (\<lambda>(index, s). dry_run_sample bucket_ns bucket_ms (dr_tick c) index s)
           (enumerate 0 (dr_streams c)))))))))"

definition dry_run_close :: "(dry_run_collector \<times> 'w, unit) io" where
  "dry_run_close = io_return ()"

section \<open>The kernel collector\<close>

text \<open>The defaults of \<open>EbpfCollector\<close>.\<close>

definition ebpf_collector_defaults :: "int \<Rightarrow> ingress_args" where
  "ebpf_collector_defaults bucket_ms =
     \<lparr>ia_ifname = None, ia_object_path = ''bpf/udp_ingress.bpf.o'', ia_section = ''classifier/udp_ingress'',
      ia_pref = 49152, ia_bucket_ms = bucket_ms, ia_filter = None, ia_attach = True, ia_detach_on_close = True,
      ia_enricher = None, ia_attribution = ''none'', ia_receive_object_path = ''bpf/udp_receive.bpf.o'',
      ia_receive_loader_path = ''bpf/udp_receive_loader'', ia_receive_hook = ''auto'', ia_receive_map_id = None\<rparr>"

definition new_ebpf_collector :: "'w os \<Rightarrow> ingress_args \<Rightarrow> ('w, ingress_collector) io" where
  "new_ebpf_collector = new_ingress_collector"

section \<open>What a dry run reports\<close>

lemma demo_streams_valid:
  "list_all (\<lambda>s. ds_packet_base s > 0 \<and> ds_payload_size s > 0 \<and> ds_layer s \<in> {''ingress'', ''delivered''}) demo_streams"
  by (simp add: demo_streams_def)

text \<open>The dry run is deterministic: the rows of the n-th checkpoint depend on the clock only through
  the start of their bucket, they are those of the three demo streams that pass the filter, and every
  stream counts one packet more than at the checkpoint before.\<close>

theorem dry_run_deterministic:
  assumes run: "dry_run_checkpoint os (c, w) = (Inr rows, (d, v))" and clock: "os_time_ns os w = (now, w1)"
  shows "dr_tick d = dr_tick c + 1 \<and> v = w1 \<and>
    (\<exists>b. bucket_start_ns now (dr_bucket_ms c) = Inr b \<and>
      rows = filter (sample_matches (dr_filter c))
        (map (\<lambda>(index, s). dry_run_sample b (dr_bucket_ms c) (dr_tick d) index s) (enumerate 0 (dr_streams c)))) \<and>
    (\<forall>index s b b'. us_packets (dry_run_sample b (dr_bucket_ms c) (dr_tick d) index s) =
       us_packets (dry_run_sample b' (dr_bucket_ms c) (dr_tick c) index s) + 1)"
  using run clock
  by (cases "bucket_start_ns now (dr_bucket_ms c)")
     (auto simp: dry_run_checkpoint_def io_defs dry_run_sample_def Let_def)

lemma dry_run_deterministic_witness:
  "\<exists>rows d v. dry_run_checkpoint (sim_os []) (new_dry_run 1000 None, sim_start) = (Inr rows, (d, v)) \<and>
    dr_tick d = 1 \<and> length rows = 3"
proof -
  have clock: "os_time_ns (sim_os []) sim_start = (1000000000, sim_start)" by (simp add: sim_start_def)
  obtain rows d v where run: "dry_run_checkpoint (sim_os []) (new_dry_run 1000 None, sim_start) = (Inr rows, (d, v))"
    by (simp add: dry_run_checkpoint_def new_dry_run_def bucket_start_ns_Inr io_defs sim_start_def)
  have "length (enumerate 0 demo_streams) = 3" by (simp add: demo_streams_def)
  with dry_run_deterministic [OF run clock] run show ?thesis by (auto simp: new_dry_run_def)
qed

end
