(* ===== verification/FlowMaps.thy ===== *)
theory FlowMaps
  imports EbpfAttach
begin

text \<open>
  The channel flow maps of \<open>tcp_channel.py\<close> and \<open>udp_channel.py\<close>: keys, values and entries, their parsers
  from bpftool's JSON, and the loader's status line. The two modules are the same code over two protocols;
  what differs is collected in a record, and each module is the shared definitions at its record.
\<close>

section \<open>Data\<close>

record flow_key =
  fk_socket_cookie :: int
  fk_src_ip4 :: int
  fk_dst_ip4 :: int
  fk_src_port :: int
  fk_dst_port :: int
  fk_family :: int
  fk_ip_proto :: int
  fk_cgroup_id :: int

record flow_counters =
  fc_tx_bytes :: int
  fc_rx_bytes :: int
  fc_tx_calls :: int
  fc_rx_calls :: int
  fc_connections :: int

record flow_value =
  fv_tx_bytes :: int
  fv_rx_bytes :: int
  fv_tx_calls :: int
  fv_rx_calls :: int
  fv_connections :: int
  fv_start_ns :: int
  fv_last_ns :: int
  fv_pid :: int
  fv_ifindex :: int
  fv_state :: int

record flow_entry =
  fe_key :: flow_key
  fe_value :: flow_value

type_synonym ident8 = "int \<times> int \<times> int \<times> int \<times> int \<times> int \<times> int \<times> int"

definition flow_key_identity :: "flow_key \<Rightarrow> ident8" where
  "flow_key_identity k =
     (fk_socket_cookie k, fk_src_ip4 k, fk_dst_ip4 k, fk_src_port k, fk_dst_port k, fk_family k,
      fk_ip_proto k, fk_cgroup_id k)"

definition flow_value_counters :: "flow_value \<Rightarrow> flow_counters" where
  "flow_value_counters v =
     \<lparr>fc_tx_bytes = fv_tx_bytes v, fc_rx_bytes = fv_rx_bytes v, fc_tx_calls = fv_tx_calls v,
      fc_rx_calls = fv_rx_calls v, fc_connections = fv_connections v\<rparr>"

definition add_flow_counters :: "flow_counters \<Rightarrow> flow_counters \<Rightarrow> flow_counters" where
  "add_flow_counters a b =
     \<lparr>fc_tx_bytes = fc_tx_bytes a + fc_tx_bytes b, fc_rx_bytes = fc_rx_bytes a + fc_rx_bytes b,
      fc_tx_calls = fc_tx_calls a + fc_tx_calls b, fc_rx_calls = fc_rx_calls a + fc_rx_calls b,
      fc_connections = fc_connections a + fc_connections b\<rparr>"

definition zero_flow_counters :: flow_counters where
  "zero_flow_counters =
     \<lparr>fc_tx_bytes = 0, fc_rx_bytes = 0, fc_tx_calls = 0, fc_rx_calls = 0, fc_connections = 0\<rparr>"

section \<open>The two protocols\<close>

text \<open>
  The name in messages, the name of the structs, the protocol number, the layer and the option of a sample,
  the kernel function with the marker of its old signature, and the endpoint that is looked up.
\<close>

record flow_proto =
  fp_label :: string
  fp_struct :: string
  fp_ip_proto :: int
  fp_layer :: string
  fp_map_option :: string
  fp_kernel_function :: string
  fp_old_parameter :: string
  fp_endpoint :: "flow_key \<Rightarrow> (string \<times> int) res"

definition tcp_endpoint :: "flow_key \<Rightarrow> (string \<times> int) res" where
  "tcp_endpoint k = bind_res (ipv4_from_bpf_int (fk_dst_ip4 k)) (\<lambda>ip. Inr (ip, fk_dst_port k))"

text \<open>A multicast receiver is bound, not connected: with no destination the bound source is the endpoint.\<close>

definition udp_endpoint :: "flow_key \<Rightarrow> (string \<times> int) res" where
  "udp_endpoint k =
     bind_res (ipv4_from_bpf_int (if fk_dst_ip4 k \<noteq> 0 then fk_dst_ip4 k else fk_src_ip4 k)) (\<lambda>ip.
       Inr (ip, if fk_dst_port k \<noteq> 0 then fk_dst_port k else fk_src_port k))"

definition tcp_flows :: flow_proto where
  "tcp_flows = \<lparr>fp_label = ''TCP'', fp_struct = ''tcp'', fp_ip_proto = 6, fp_layer = ''tcp_channel'',
     fp_map_option = ''--tcp-map-id'', fp_kernel_function = ''tcp_recvmsg'', fp_old_parameter = ''nonblock'',
     fp_endpoint = tcp_endpoint\<rparr>"

definition udp_flows :: flow_proto where
  "udp_flows = \<lparr>fp_label = ''UDP'', fp_struct = ''udp'', fp_ip_proto = 17, fp_layer = ''udp_channel'',
     fp_map_option = ''--udp-map-id'', fp_kernel_function = ''udp_recvmsg'', fp_old_parameter = ''noblock'',
     fp_endpoint = udp_endpoint\<rparr>"

section \<open>Parsing\<close>

definition validate_flow_key :: "flow_proto \<Rightarrow> flow_key \<Rightarrow> unit res" where
  "validate_flow_key pr k =
     (if fk_socket_cookie k \<le> 0
      then Inl (RuntimeError ''{} channel map contains a zero socket cookie'' [JStr (fp_label pr)])
      else if fk_family k \<noteq> 2 \<or> fk_ip_proto k \<noteq> fp_ip_proto pr
      then Inl (RuntimeError ''{} channel map contains a non-IPv4-{} key: family={} protocol={}''
             [JStr (fp_label pr), JStr (fp_label pr), JInt (fk_family k), JInt (fk_ip_proto k)])
      else Inr ())"

definition flow_key_fmt :: "fmt list" where
  "flow_key_fmt = [FQ, FI, FI, FH, FH, FB, FB, FX 2, FQ]"

fun flow_key_of_vals :: "int list \<Rightarrow> flow_key res" where
  "flow_key_of_vals [socket_cookie, src_ip4, dst_ip4, src_port, dst_port, family, ip_proto, cgroup_id] =
     Inr \<lparr>fk_socket_cookie = socket_cookie, fk_src_ip4 = src_ip4, fk_dst_ip4 = dst_ip4, fk_src_port = src_port,
          fk_dst_port = dst_port, fk_family = family, fk_ip_proto = ip_proto, fk_cgroup_id = cgroup_id\<rparr>"
| "flow_key_of_vals _ = Inl ValueError"

text \<open>A typed or a raw key, before validation.\<close>

definition decode_flow_key :: "flow_proto \<Rightarrow> json \<Rightarrow> flow_key res" where
  "decode_flow_key pr raw_key =
     (if is_dict raw_key then
        bind_res (traverse (int_item raw_key)
          [''socket_cookie'', ''src_ip4'', ''dst_ip4'', ''src_port'', ''dst_port'', ''family'', ''ip_proto'', ''cgroup_id''])
          flow_key_of_vals
      else
        bind_res (raw_bytes raw_key) (\<lambda>key_bytes.
          if length key_bytes < 32
          then Inl (RuntimeError ''unexpected {}_flow_key size from bpftool: {}''
                 [JStr (fp_struct pr), JInt (int (length key_bytes))])
          else bind_res (unpack flow_key_fmt (take 32 key_bytes)) flow_key_of_vals))"

definition parse_flow_key :: "flow_proto \<Rightarrow> json \<Rightarrow> flow_key res" where
  "parse_flow_key pr raw_key =
     bind_res (decode_flow_key pr raw_key) (\<lambda>k. bind_res (validate_flow_key pr k) (\<lambda>_. Inr k))"

definition min_nonzero :: "int \<Rightarrow> int \<Rightarrow> int" where
  "min_nonzero left right = (if left = 0 then right else if right = 0 then left else min left right)"

text \<open>One step of the per-CPU loop.\<close>

definition merge_flow_values :: "flow_value \<Rightarrow> flow_value \<Rightarrow> flow_value" where
  "merge_flow_values acc p =
     \<lparr>fv_tx_bytes = fv_tx_bytes acc + fv_tx_bytes p, fv_rx_bytes = fv_rx_bytes acc + fv_rx_bytes p,
      fv_tx_calls = fv_tx_calls acc + fv_tx_calls p, fv_rx_calls = fv_rx_calls acc + fv_rx_calls p,
      fv_connections = fv_connections acc + fv_connections p,
      fv_start_ns = min_nonzero (fv_start_ns acc) (fv_start_ns p),
      fv_last_ns = max (fv_last_ns acc) (fv_last_ns p),
      fv_pid = int_or (fv_pid acc) (fv_pid p), fv_ifindex = int_or (fv_ifindex acc) (fv_ifindex p),
      fv_state = int_or (fv_state acc) (fv_state p)\<rparr>"

definition zero_flow_value :: flow_value where
  "zero_flow_value =
     \<lparr>fv_tx_bytes = 0, fv_rx_bytes = 0, fv_tx_calls = 0, fv_rx_calls = 0, fv_connections = 0,
      fv_start_ns = 0, fv_last_ns = 0, fv_pid = 0, fv_ifindex = 0, fv_state = 0\<rparr>"

definition flow_value_fmt :: "fmt list" where
  "flow_value_fmt = [FQ, FQ, FQ, FQ, FQ, FQ, FQ, FI, FI, FI, FI]"

text \<open>The last value is the padding that the format reads and the source drops.\<close>

fun flow_value_of_vals :: "int list \<Rightarrow> flow_value res" where
  "flow_value_of_vals [tx_bytes, rx_bytes, tx_calls, rx_calls, connections, start_ns, last_ns, pid, ifindex, state, _] =
     Inr \<lparr>fv_tx_bytes = tx_bytes, fv_rx_bytes = rx_bytes, fv_tx_calls = tx_calls, fv_rx_calls = rx_calls,
          fv_connections = connections, fv_start_ns = start_ns, fv_last_ns = last_ns, fv_pid = pid,
          fv_ifindex = ifindex, fv_state = state\<rparr>"
| "flow_value_of_vals _ = Inl ValueError"

definition flow_value_of_value :: "flow_proto \<Rightarrow> json \<Rightarrow> flow_value res" where
  "flow_value_of_value pr v =
     (if is_dict v then
        bind_res (traverse (int_item v) [''tx_bytes'', ''rx_bytes'', ''tx_calls'', ''rx_calls'']) (\<lambda>required.
        bind_res (traverse (int_get0 v) [''connections'', ''start_ns'', ''last_ns'', ''pid'', ''ifindex'', ''state'']) (\<lambda>optional.
          flow_value_of_vals (required @ optional @ [0])))
      else
        bind_res (raw_bytes v) (\<lambda>value_bytes.
          if length value_bytes < 72
          then Inl (RuntimeError ''unexpected {}_flow_value size from bpftool: {}''
                 [JStr (fp_struct pr), JInt (int (length value_bytes))])
          else bind_res (unpack flow_value_fmt (take 72 value_bytes)) flow_value_of_vals))"

definition parse_flow_value :: "flow_proto \<Rightarrow> json \<Rightarrow> json \<Rightarrow> flow_value res" where
  "parse_flow_value pr v values =
     (if values \<noteq> JNull then
        bind_res (py_iter values) (\<lambda>cpus.
        bind_res (traverse (\<lambda>cpu. bind_res (py_get cpu ''value'' JNull) (flow_value_of_value pr)) cpus)
          (\<lambda>parsed. Inr (fold (\<lambda>p acc. merge_flow_values acc p) parsed zero_flow_value)))
      else flow_value_of_value pr v)"

definition parse_flow_entry :: "flow_proto \<Rightarrow> json \<Rightarrow> flow_entry res" where
  "parse_flow_entry pr entry =
     bind_res (bind_res (py_get entry ''key'' JNull) (parse_flow_key pr)) (\<lambda>key.
     bind_res (py_get entry ''value'' JNull) (\<lambda>v.
     bind_res (py_get entry ''values'' JNull) (\<lambda>values.
     bind_res (parse_flow_value pr v values) (\<lambda>parsed.
       Inr \<lparr>fe_key = key, fe_value = parsed\<rparr>))))"

definition parse_flow_loader_status :: "flow_proto \<Rightarrow> 'w os \<Rightarrow> string \<Rightarrow> int res" where
  "parse_flow_loader_status pr os line =
     (let bad = RuntimeError ''invalid {} channel loader status: {}'' [JStr (fp_label pr), JStr line] in
      case bind_res (opt_res JSONDecodeError (os_loads os line)) (\<lambda>raw. int_item raw ''map_id'') of
        Inl e \<Rightarrow> Inl (if status_line_error e then bad else e)
      | Inr map_id \<Rightarrow> if map_id \<le> 0 then Inl bad else Inr map_id)"

definition new_flow_reader :: "flow_proto \<Rightarrow> int \<Rightarrow> int res" where
  "new_flow_reader pr map_id =
     (if map_id \<le> 0 then Inl (RuntimeError ''invalid {} channel map id: {}'' [JStr (fp_label pr), JInt map_id])
      else Inr map_id)"

definition flow_dump_entries :: "flow_proto \<Rightarrow> 'w os \<Rightarrow> int \<Rightarrow> ('w, flow_entry list) io" where
  "flow_dump_entries pr os map_id =
     io_bind (run_json os (dump_command map_id) True) (\<lambda>raw.
       io_res (parse_dump (parse_flow_entry pr) raw))"

section \<open>Layouts and counters\<close>

definition flow_key_struct :: "c_member list" where
  "flow_key_struct =
     [CField 8, CField 4, CField 4, CField 2, CField 2, CField 1, CField 1, CPad 2, CField 8]"

definition flow_value_struct :: "c_member list" where
  "flow_value_struct =
     [CField 8, CField 8, CField 8, CField 8, CField 8, CField 8, CField 8, CField 4, CField 4, CField 4, CField 4]"

lemma flow_key_layout: "layout_agrees flow_key_fmt flow_key_struct"
  by code_simp

lemma flow_value_layout: "layout_agrees flow_value_fmt flow_value_struct"
  by code_simp

definition flow_key_vals :: "flow_key \<Rightarrow> int list" where
  "flow_key_vals k =
     [fk_socket_cookie k, fk_src_ip4 k, fk_dst_ip4 k, fk_src_port k, fk_dst_port k, fk_family k,
      fk_ip_proto k, fk_cgroup_id k]"

definition flow_value_vals :: "flow_value \<Rightarrow> int list" where
  "flow_value_vals v =
     [fv_tx_bytes v, fv_rx_bytes v, fv_tx_calls v, fv_rx_calls v, fv_connections v, fv_start_ns v,
      fv_last_ns v, fv_pid v, fv_ifindex v, fv_state v, 0]"

interpretation flow_key_layout: record_layout flow_key_fmt flow_key_of_vals flow_key_vals
proof unfold_locales
  show "flow_key_of_vals (flow_key_vals r) = Inr r" for r by (simp add: flow_key_vals_def)
  show "\<exists>r. flow_key_of_vals vs = Inr r" if "length vs = length (filter (\<lambda>f. \<not> is_pad f) flow_key_fmt)" for vs
    using that by (cases vs rule: flow_key_of_vals.cases) (simp_all add: flow_key_fmt_def)
qed

interpretation flow_value_layout: record_layout flow_value_fmt flow_value_of_vals flow_value_vals
proof unfold_locales
  show "flow_value_of_vals (flow_value_vals r) = Inr r" for r by (simp add: flow_value_vals_def)
  show "\<exists>r. flow_value_of_vals vs = Inr r" if "length vs = length (filter (\<lambda>f. \<not> is_pad f) flow_value_fmt)" for vs
    using that by (cases vs rule: flow_value_of_vals.cases) (simp_all add: flow_value_fmt_def)
qed

lemma calcsize_flow_fmts [simp]: "calcsize flow_key_fmt = 32" "calcsize flow_value_fmt = 72"
  by (simp_all add: flow_key_fmt_def flow_value_fmt_def)

lemma decode_flow_key_bytes:
  "32 \<le> length bs \<Longrightarrow> decode_flow_key pr (json_bytes bs) = decode_layout flow_key_fmt flow_key_of_vals bs"
  by (simp add: decode_flow_key_def decode_layout_def)

lemma flow_value_bytes:
  "72 \<le> length bs \<Longrightarrow> flow_value_of_value pr (json_bytes bs) = decode_layout flow_value_fmt flow_value_of_vals bs"
  by (simp add: flow_value_of_value_def decode_layout_def)

interpretation flow_ctr: counter_algebra add_flow_counters zero_flow_counters
  by unfold_locales (simp_all add: add_flow_counters_def zero_flow_counters_def)

lemma fv_fold [simp]:
  "fv_tx_bytes (fold (\<lambda>p acc. merge_flow_values acc p) ps a) = fv_tx_bytes a + sum_list (map fv_tx_bytes ps)"
  "fv_rx_bytes (fold (\<lambda>p acc. merge_flow_values acc p) ps a) = fv_rx_bytes a + sum_list (map fv_rx_bytes ps)"
  "fv_tx_calls (fold (\<lambda>p acc. merge_flow_values acc p) ps a) = fv_tx_calls a + sum_list (map fv_tx_calls ps)"
  "fv_rx_calls (fold (\<lambda>p acc. merge_flow_values acc p) ps a) = fv_rx_calls a + sum_list (map fv_rx_calls ps)"
  "fv_connections (fold (\<lambda>p acc. merge_flow_values acc p) ps a) = fv_connections a + sum_list (map fv_connections ps)"
  by (induction ps arbitrary: a) (simp_all add: merge_flow_values_def)

text \<open>The merged start is the earliest one that is not zero, the merged pid the first such one.\<close>

lemma fv_fold_start:
  "fv_start_ns (fold (\<lambda>p acc. merge_flow_values acc p) ps a) \<in> set (fv_start_ns a # map fv_start_ns ps) \<and>
   (\<forall>s \<in> set (fv_start_ns a # map fv_start_ns ps). s \<noteq> 0 \<longrightarrow>
      fv_start_ns (fold (\<lambda>p acc. merge_flow_values acc p) ps a) \<noteq> 0 \<and>
      fv_start_ns (fold (\<lambda>p acc. merge_flow_values acc p) ps a) \<le> s)"
proof (induction ps arbitrary: a)
  case (Cons p ps)
  let ?a = "merge_flow_values a p"
  have step: "fv_start_ns ?a = min_nonzero (fv_start_ns a) (fv_start_ns p)"
    by (simp add: merge_flow_values_def)
  from Cons.IH [of ?a] show ?case
    by (auto simp: step min_nonzero_def split: if_splits)
qed simp

lemma fv_fold_pid:
  "fv_pid (fold (\<lambda>p acc. merge_flow_values acc p) ps a) =
     (case filter (\<lambda>i. i \<noteq> 0) (fv_pid a # map fv_pid ps) of [] \<Rightarrow> 0 | i # _ \<Rightarrow> i)"
  "fv_ifindex (fold (\<lambda>p acc. merge_flow_values acc p) ps a) =
     (case filter (\<lambda>i. i \<noteq> 0) (fv_ifindex a # map fv_ifindex ps) of [] \<Rightarrow> 0 | i # _ \<Rightarrow> i)"
  "fv_state (fold (\<lambda>p acc. merge_flow_values acc p) ps a) =
     (case filter (\<lambda>i. i \<noteq> 0) (fv_state a # map fv_state ps) of [] \<Rightarrow> 0 | i # _ \<Rightarrow> i)"
  by (induction ps arbitrary: a) (auto simp: merge_flow_values_def int_or_def split: list.splits)

end
