(* ===== verification/UrlText.thy ===== *)
theory UrlText
  imports PyStr "HOL-Library.List_Lexorder" "HOL-Library.Char_ord" "HOL-Library.Multiset"
begin

text \<open>
  The text layer of \<open>channels.py\<close>: the URL pattern, \<open>shlex.split\<close>, the pieces of \<open>urlparse\<close> the source
  reads, and \<open>pathlib\<close> paths with their order. Text is a list of code points below 256.
\<close>

section \<open>Finding URLs\<close>

definition url_schemes :: "string list" where
  "url_schemes = [''https'', ''http'', ''udp'', ''rtp'']"

text \<open>A character of the body of \<open>URL_RE\<close>: neither blank nor a quote nor an angle bracket.\<close>

definition url_char :: "char \<Rightarrow> bool" where
  "url_char c = (\<not> is_space c \<and> c \<notin> {CHR 0x22, CHR 0x27, CHR ''<'', CHR ''>''})"

text \<open>The match of \<open>URL_RE\<close> that begins at the head of the text, when there is one.\<close>

definition url_at :: "string \<Rightarrow> string option" where
  "url_at s =
     (case filter (\<lambda>p. startswith s p) (map (\<lambda>sch. sch @ ''://'') url_schemes) of
        [] \<Rightarrow> None
      | p # _ \<Rightarrow> (let body = takeWhile url_char (drop (length p) s)
                 in if body = [] then None else Some (p @ body)))"

lemma url_at_nonempty: "url_at s = Some u \<Longrightarrow> u \<noteq> []"
  by (auto simp: url_at_def Let_def split: list.splits if_splits)

text \<open>\<open>URL_RE.findall\<close>.\<close>

function find_urls :: "string \<Rightarrow> string list" where
  "find_urls s =
     (case s of
        [] \<Rightarrow> []
      | c # cs \<Rightarrow> (case url_at s of
            None \<Rightarrow> find_urls cs
          | Some u \<Rightarrow> u # find_urls (drop (length u) s)))"
  by auto
termination
  by (relation "measure length") (auto dest: url_at_nonempty)

declare find_urls.simps [simp del]

lemma find_urls_Nil [simp]: "find_urls [] = []"
  by (simp add: find_urls.simps)

lemma find_urls_Cons:
  "find_urls (c # cs) = (case url_at (c # cs) of
      None \<Rightarrow> find_urls cs | Some u \<Rightarrow> u # find_urls (drop (length u) (c # cs)))"
  by (subst find_urls.simps) simp

text \<open>What a URL is: one of the four schemes, \<open>://\<close>, and at least one more character.\<close>

definition is_url :: "string \<Rightarrow> bool" where
  "is_url u \<longleftrightarrow> (\<exists>sch \<in> set url_schemes. \<exists>body. u = sch @ ''://'' @ body \<and> body \<noteq> [] \<and> (\<forall>c \<in> set body. url_char c))"

lemma scheme_chars_url: "sch \<in> set url_schemes \<Longrightarrow> \<forall>c \<in> set (sch @ ''://''). url_char c"
  by (auto simp: url_schemes_def url_char_def is_space_def)

lemma is_url_chars: "is_url u \<Longrightarrow> \<forall>c \<in> set u. url_char c"
  using scheme_chars_url by (fastforce simp: is_url_def)

lemma url_at_is_url: "url_at s = Some u \<Longrightarrow> is_url u \<and> startswith s u"
proof -
  assume u: "url_at s = Some u"
  then obtain p ps where p: "filter (\<lambda>p. startswith s p) (map (\<lambda>sch. sch @ ''://'') url_schemes) = p # ps"
      and body: "takeWhile url_char (drop (length p) s) \<noteq> []" "u = p @ takeWhile url_char (drop (length p) s)"
    by (auto simp: url_at_def Let_def split: list.splits if_splits)
  have "p \<in> set (filter (\<lambda>p. startswith s p) (map (\<lambda>sch. sch @ ''://'') url_schemes))" by (simp only: p list.set_intros)
  then obtain sch where sch: "sch \<in> set url_schemes" "p = sch @ ''://''" "startswith s p" by auto
  then obtain t where t: "s = p @ t" by (auto simp: startswith_iff)
  have "is_url u"
    unfolding is_url_def
    by (rule bexI [OF _ sch(1)]) (use body sch(2) in \<open>auto dest: set_takeWhileD\<close>)
  moreover have "startswith s u"
    unfolding startswith_iff body(2) t by (rule exI [of _ "dropWhile url_char t"]) simp
  ultimately show ?thesis ..
qed

text \<open>Every URL found is one, and stands in the text.\<close>

lemma find_urls_sound: "u \<in> set (find_urls s) \<Longrightarrow> is_url u \<and> contains_sub u s"
proof (induction s rule: find_urls.induct)
  case (1 s)
  have step: "contains_sub v t \<Longrightarrow> contains_sub v (w @ t)" for v t w
    unfolding contains_sub_iff by (metis append.assoc)
  show ?case
  proof (cases s)
    case Nil
    with 1 show ?thesis by simp
  next
    case (Cons c cs)
    show ?thesis
    proof (cases "url_at s")
      case None
      with 1 Cons have "is_url u \<and> contains_sub u cs" by (simp add: find_urls_Cons)
      with step [of u cs "[c]"] Cons show ?thesis by simp
    next
      case (Some v)
      from url_at_is_url [OF Some] have v: "is_url v" "startswith s v" by auto
      from 1(3) Cons Some consider "u = v" | "u \<in> set (find_urls (drop (length v) s))"
        by (auto simp: find_urls_Cons)
      then show ?thesis
      proof cases
        case 1
        with v show ?thesis by (auto simp: contains_sub_iff startswith_iff intro: exI [of _ "[]"])
      next
        case 2
        with 1 Cons Some have "is_url u \<and> contains_sub u (drop (length v) s)" by auto
        with step [of u "drop (length v) s" "take (length v) s"] show ?thesis by simp
      qed
    qed
  qed
qed

text \<open>A match never crosses a character that a URL cannot hold, so such characters cut the search.\<close>

lemma startswith_append_cut:
  assumes "\<forall>x \<in> set p. url_char x" and "\<not> url_char c"
  shows "startswith (a @ c # s) p = startswith a p"
  using assms
proof (induction p arbitrary: a)
  case Nil
  then show ?case by (simp add: startswith_def)
next
  case (Cons x p)
  then show ?case by (cases a) (auto simp: startswith_def)
qed

lemma takeWhile_cut: "\<not> P c \<Longrightarrow> takeWhile P (a @ c # s) = takeWhile P a"
  by (induction a) auto

lemma url_at_cut:
  assumes c: "\<not> url_char c"
  shows "url_at (a @ c # s) = url_at a"
proof -
  have filt: "filter (\<lambda>p. startswith (a @ c # s) p) (map (\<lambda>sch. sch @ ''://'') url_schemes) =
      filter (\<lambda>p. startswith a p) (map (\<lambda>sch. sch @ ''://'') url_schemes)"
    by (rule filter_cong [OF refl]) (use scheme_chars_url startswith_append_cut [OF _ c] in auto)
  have body: "takeWhile url_char (drop n (a @ c # s)) = takeWhile url_char (drop n a)" if "n \<le> length a" for n
    using that c by (simp add: takeWhile_cut)
  have len: "startswith a p \<Longrightarrow> length p \<le> length a" for p
    by (auto simp: startswith_iff)
  show ?thesis
  proof (cases "filter (\<lambda>p. startswith a p) (map (\<lambda>sch. sch @ ''://'') url_schemes)")
    case Nil
    with filt show ?thesis by (simp add: url_at_def)
  next
    case (Cons p ps)
    have "p \<in> set (filter (\<lambda>p. startswith a p) (map (\<lambda>sch. sch @ ''://'') url_schemes))" by (simp only: Cons list.set_intros)
    then have "length p \<le> length a" using len by auto
    with Cons filt body [of "length p"] show ?thesis by (simp add: url_at_def)
  qed
qed

lemma find_urls_cut:
  assumes c: "\<not> url_char c"
  shows "find_urls (a @ c # s) = find_urls a @ find_urls s"
proof (induction a rule: find_urls.induct)
  case (1 a)
  show ?case
  proof (cases a)
    case Nil
    have "url_at (c # s) = None" using url_at_cut [OF c, of "[]" s] by (simp add: url_at_def url_schemes_def startswith_def)
    with Nil show ?thesis by (simp add: find_urls_Cons)
  next
    case (Cons x xs)
    show ?thesis
    proof (cases "url_at a")
      case None
      with 1 Cons url_at_cut [OF c, of a s] show ?thesis by (simp add: find_urls_Cons)
    next
      case (Some u)
      then have "length u \<le> length a" using url_at_is_url [OF Some] by (auto simp: startswith_iff)
      then have "drop (length u) (a @ c # s) = drop (length u) a @ c # s" by simp
      moreover have "find_urls (a @ c # s) = u # find_urls (drop (length u) (a @ c # s))"
        using Cons Some url_at_cut [OF c, of a s] by (subst find_urls.simps) simp
      moreover have "find_urls a = u # find_urls (drop (length u) a)"
        using Cons Some by (subst find_urls.simps) simp
      ultimately show ?thesis using 1(2) [OF Cons Some] by simp
    qed
  qed
qed

lemma url_at_url: "is_url u \<Longrightarrow> url_at u = Some u"
proof -
  assume "is_url u"
  then obtain sch body where u: "sch \<in> set url_schemes" "u = sch @ ''://'' @ body" "body \<noteq> []" "\<forall>c \<in> set body. url_char c"
    by (auto simp: is_url_def)
  have body: "takeWhile url_char body = body" using u(4) by simp
  have "sch = ''https'' \<or> sch = ''http'' \<or> sch = ''udp'' \<or> sch = ''rtp''" using u(1) by (simp add: url_schemes_def)
  then have "filter (\<lambda>p. startswith u p) (map (\<lambda>sch. sch @ ''://'') url_schemes) = [sch @ ''://'']"
    by (elim disjE) (simp_all add: u(2) url_schemes_def startswith_def)
  moreover have "drop (length (sch @ ''://'')) u = body" by (simp add: u(2))
  ultimately show ?thesis using u(2,3) body by (simp only: url_at_def list.case Let_def if_False append_assoc)
qed

lemma find_urls_word: "is_url u \<Longrightarrow> find_urls u = [u]"
proof -
  assume u: "is_url u"
  then obtain c cs where "u = c # cs" by (cases u) (auto simp: is_url_def url_schemes_def)
  with url_at_url [OF u] show ?thesis by (simp add: find_urls_Cons)
qed

text \<open>\<open>cleanup_url\<close>.\<close>

definition cleanup_url :: "string \<Rightarrow> string" where
  "cleanup_url u = rstrip_chars ''),;]'' u"

section \<open>\<open>shlex.split\<close>\<close>

text \<open>
  The POSIX state machine of \<open>shlex\<close> without comments: between tokens, in a word, in a quote, or after a
  backslash (inside which quote, if any). \<open>quoted\<close> records that the token had a quote, so that an empty
  quoted token still counts. \<open>None\<close> is the \<open>ValueError\<close> of an open quote or a trailing backslash.
\<close>

datatype lex_state = LSpace | LWord | LQuote char | LEscape "char option"

definition is_quote :: "char \<Rightarrow> bool" where
  "is_quote c = (c = CHR 0x22 \<or> c = CHR 0x27)"

definition is_blank :: "char \<Rightarrow> bool" where
  "is_blank c = (c \<in> {CHR '' '', CHR 0x09, CHR 0x0D, CHR 0x0A})"

definition emit_token :: "string \<Rightarrow> bool \<Rightarrow> string list \<Rightarrow> string list" where
  "emit_token tok quoted rest = (if tok \<noteq> [] \<or> quoted then tok # rest else rest)"

fun shlex_loop :: "lex_state \<Rightarrow> string \<Rightarrow> bool \<Rightarrow> string \<Rightarrow> string list option" where
  "shlex_loop LSpace tok quoted [] = Some []"
| "shlex_loop LSpace tok quoted (c # cs) =
     (if is_blank c then shlex_loop LSpace [] False cs
      else if c = CHR 0x5C then shlex_loop (LEscape None) [] False cs
      else if is_quote c then shlex_loop (LQuote c) [] False cs
      else shlex_loop LWord [c] False cs)"
| "shlex_loop LWord tok quoted [] = Some (emit_token tok quoted [])"
| "shlex_loop LWord tok quoted (c # cs) =
     (if is_blank c then map_option (emit_token tok quoted) (shlex_loop LSpace [] False cs)
      else if is_quote c then shlex_loop (LQuote c) tok quoted cs
      else if c = CHR 0x5C then shlex_loop (LEscape None) tok quoted cs
      else shlex_loop LWord (tok @ [c]) quoted cs)"
| "shlex_loop (LQuote q) tok quoted [] = None"
| "shlex_loop (LQuote q) tok quoted (c # cs) =
     (if c = q then shlex_loop LWord tok True cs
      else if c = CHR 0x5C \<and> q = CHR 0x22 then shlex_loop (LEscape (Some q)) tok True cs
      else shlex_loop (LQuote q) (tok @ [c]) True cs)"
| "shlex_loop (LEscape inq) tok quoted [] = None"
| "shlex_loop (LEscape None) tok quoted (c # cs) = shlex_loop LWord (tok @ [c]) quoted cs"
| "shlex_loop (LEscape (Some q)) tok quoted (c # cs) =
     shlex_loop (LQuote q) (if c \<noteq> CHR 0x5C \<and> c \<noteq> q then tok @ [CHR 0x5C, c] else tok @ [c]) quoted cs"

definition shlex_split :: "string \<Rightarrow> string list option" where
  "shlex_split s = shlex_loop LSpace [] False s"

text \<open>Words that need no quoting come back as they were joined.\<close>

definition plain_char :: "char \<Rightarrow> bool" where
  "plain_char c = (\<not> is_blank c \<and> \<not> is_quote c \<and> c \<noteq> CHR 0x5C)"

lemma shlex_word:
  "\<forall>c \<in> set w. plain_char c \<Longrightarrow> shlex_loop LWord tok quoted (w @ rest) = shlex_loop LWord (tok @ w) quoted rest"
  by (induction w arbitrary: tok) (auto simp: plain_char_def)

lemma shlex_space_word:
  assumes "w \<noteq> []" and "\<forall>c \<in> set w. plain_char c"
  shows "shlex_loop LSpace tok quoted (w @ rest) = shlex_loop LWord w False rest"
  using assms shlex_word [of "tl w" "[hd w]" False rest] by (cases w) (auto simp: plain_char_def)

lemma shlex_split_plain:
  "\<forall>w \<in> set ws. w \<noteq> [] \<and> (\<forall>c \<in> set w. plain_char c) \<Longrightarrow> shlex_split (join '' '' ws) = Some ws"
proof (induction "'' ''" ws rule: join.induct)
  case 1
  then show ?case by (simp add: shlex_split_def)
next
  case (2 p)
  then have "p \<noteq> []" "\<forall>c \<in> set p. plain_char c" by auto
  from shlex_space_word [OF this, of "[]" False "[]"] \<open>p \<noteq> []\<close> show ?case
    by (simp add: shlex_split_def emit_token_def)
next
  case (3 p q ps)
  then have p: "p \<noteq> []" "\<forall>c \<in> set p. plain_char c" by auto
  have blank: "is_blank CHR '' ''" by (simp add: is_blank_def)
  from 3 have "shlex_split (join '' '' (q # ps)) = Some (q # ps)" by auto
  with shlex_space_word [OF p, of "[]" False "'' '' @ join '' '' (q # ps)"] p(1) blank show ?case
    by (simp add: shlex_split_def emit_token_def)
qed

section \<open>\<open>urlparse\<close>\<close>

text \<open>
  What the source reads of a parsed URL. The text before the first colon is the scheme when it looks like
  one; the authority reaches to the first slash, question mark or hash; fragment, query and, for HTTP,
  parameters are cut off the path. \<open>bracket_ok\<close> is the library's check of a bracketed IPv6 host.
\<close>

record parsed_url =
  pu_scheme :: string
  pu_netloc :: string
  pu_path :: string
  pu_query :: string

definition lower_char :: "char \<Rightarrow> char" where
  "lower_char c = (let n = (of_char c :: nat) in
     if (65 \<le> n \<and> n \<le> 90) \<or> (192 \<le> n \<and> n \<le> 222 \<and> n \<noteq> 215) then char_of (n + 32) else c)"

definition lower :: "string \<Rightarrow> string" where
  "lower s = map lower_char s"

definition is_alpha :: "char \<Rightarrow> bool" where
  "is_alpha c = (let n = (of_char c :: nat) in (65 \<le> n \<and> n \<le> 90) \<or> (97 \<le> n \<and> n \<le> 122))"

definition is_ascii_digit :: "char \<Rightarrow> bool" where
  "is_ascii_digit c = (let n = (of_char c :: nat) in 48 \<le> n \<and> n \<le> 57)"

definition scheme_char :: "char \<Rightarrow> bool" where
  "scheme_char c = (is_alpha c \<or> is_ascii_digit c \<or> c \<in> {CHR ''+'', CHR ''-'', CHR ''.''})"

definition split_scheme :: "string \<Rightarrow> string \<times> string" where
  "split_scheme url =
     (case split_first CHR '':'' url of
        None \<Rightarrow> ([], url)
      | Some (a, b) \<Rightarrow>
          if a \<noteq> [] \<and> is_alpha (hd a) \<and> (\<forall>c \<in> set a. scheme_char c) then (lower a, b) else ([], url))"

definition netloc_end :: "char \<Rightarrow> bool" where
  "netloc_end c = (c \<in> {CHR ''/'', CHR ''?'', CHR ''#''})"

definition bracketed_host :: "string \<Rightarrow> string" where
  "bracketed_host netloc =
     takeWhile (\<lambda>c. c \<noteq> CHR '']'') (tl (dropWhile (\<lambda>c. c \<noteq> CHR ''['') netloc))"

definition netloc_ok :: "(string \<Rightarrow> bool) \<Rightarrow> string \<Rightarrow> bool" where
  "netloc_ok bracket_ok netloc =
     (if CHR ''['' \<in> set netloc \<and> CHR '']'' \<in> set netloc then bracket_ok (bracketed_host netloc)
      else CHR ''['' \<notin> set netloc \<and> CHR '']'' \<notin> set netloc)"

definition before :: "char \<Rightarrow> string \<Rightarrow> string" where
  "before c s = takeWhile (\<lambda>x. x \<noteq> c) s"

definition after :: "char \<Rightarrow> string \<Rightarrow> string" where
  "after c s = tl (dropWhile (\<lambda>x. x \<noteq> c) s)"

text \<open>\<open>_splitparams\<close>: the first semicolon of the last path segment.\<close>

definition drop_params :: "string \<Rightarrow> string" where
  "drop_params path =
     (case split_last CHR ''/'' path of
        None \<Rightarrow> before CHR '';'' path
      | Some (a, b) \<Rightarrow> a @ ''/'' @ before CHR '';'' b)"

definition urlparse :: "(string \<Rightarrow> bool) \<Rightarrow> string \<Rightarrow> parsed_url res" where
  "urlparse bracket_ok url =
     (let (scheme, rest) = split_scheme url;
          has_netloc = startswith rest ''//'';
          netloc = (if has_netloc then takeWhile (\<lambda>c. \<not> netloc_end c) (drop 2 rest) else []);
          tail = (if has_netloc then dropWhile (\<lambda>c. \<not> netloc_end c) (drop 2 rest) else rest);
          no_fragment = before CHR ''#'' tail;
          path = before CHR ''?'' no_fragment
      in if \<not> netloc_ok bracket_ok netloc then Inl ValueError
         else Inr \<lparr>pu_scheme = scheme, pu_netloc = netloc,
                   pu_path = (if scheme \<in> {[], ''http'', ''https''} then drop_params path else path),
                   pu_query = after CHR ''?'' no_fragment\<rparr>)"

text \<open>The host text and the port text of an authority.\<close>

definition hostinfo :: "string \<Rightarrow> string \<times> string" where
  "hostinfo netloc =
     (let h = (case split_last CHR ''@'' netloc of None \<Rightarrow> netloc | Some (_, b) \<Rightarrow> b)
      in if CHR ''['' \<in> set h
         then (before CHR '']'' (after CHR ''['' h), after CHR '':'' (after CHR '']'' (after CHR ''['' h)))
         else (before CHR '':'' h, after CHR '':'' h))"

definition url_hostname :: "parsed_url \<Rightarrow> string option" where
  "url_hostname p =
     (let h = fst (hostinfo (pu_netloc p))
      in if h = [] then None
         else Some (lower (before CHR ''%'' h) @ dropWhile (\<lambda>c. c \<noteq> CHR ''%'') h))"

definition url_port :: "parsed_url \<Rightarrow> int option res" where
  "url_port p =
     (let t = snd (hostinfo (pu_netloc p))
      in if t = [] then Inr None
         else if \<not> (\<forall>c \<in> set t. is_ascii_digit c) then Inl ValueError
         else case int_of_str 10 t of
             None \<Rightarrow> Inl ValueError
           | Some n \<Rightarrow> if 0 \<le> n \<and> n \<le> 65535 then Inr (Some n) else Inl ValueError)"

section \<open>Paths\<close>

text \<open>A POSIX path: its root (empty, one slash or two) and its parts, none of them empty or a dot.\<close>

datatype path = Path (path_root: string) (path_parts: "string list")

text \<open>Paths compare as the lists \<open>pathlib\<close> compares: the root, when there is one, then the parts.\<close>

definition path_key :: "path \<Rightarrow> string list" where
  "path_key p = (if path_root p = [] then path_parts p else path_root p # path_parts p)"

definition path_of :: "string \<Rightarrow> path" where
  "path_of s =
     (let slashes = length (takeWhile (\<lambda>c. c = CHR ''/'') s)
      in Path (if slashes = 0 then [] else if slashes = 2 then ''//'' else ''/'')
           (filter (\<lambda>p. p \<noteq> [] \<and> p \<noteq> ''.'') (split_on CHR ''/'' s)))"

definition path_str :: "path \<Rightarrow> string" where
  "path_str p =
     (if path_root p = [] \<and> path_parts p = [] then ''.'' else path_root p @ join ''/'' (path_parts p))"

definition path_name :: "path \<Rightarrow> string" where
  "path_name p = (if path_parts p = [] then [] else last (path_parts p))"

definition path_parent :: "path \<Rightarrow> path" where
  "path_parent p = Path (path_root p) (butlast (path_parts p))"

definition path_child :: "path \<Rightarrow> string \<Rightarrow> path" where
  "path_child p name = Path (path_root p) (path_parts p @ [name])"

lemma path_name_child [simp]: "path_name (path_child p n) = n" "path_parent (path_child p n) = p"
  by (cases p; simp add: path_name_def path_child_def path_parent_def)+

text \<open>\<open>sorted(paths)\<close>: a stable sort by the key.\<close>

definition sort_paths :: "path list \<Rightarrow> path list" where
  "sort_paths = sort_key path_key"

text \<open>
  Paths are linearly ordered by their keys (two texts of the same key and root are the same path), so the
  library's sorting applies to them: on the paths that \<open>path_of\<close> gives, \<open>sorted(paths)\<close> is \<open>sort\<close>.
\<close>

instantiation path :: linorder
begin

definition less_eq_path :: "path \<Rightarrow> path \<Rightarrow> bool" where
  "less_eq_path p q \<longleftrightarrow> path_key p < path_key q \<or> (path_key p = path_key q \<and> path_root p \<le> path_root q)"

definition less_path :: "path \<Rightarrow> path \<Rightarrow> bool" where
  "less_path p q \<longleftrightarrow> path_key p < path_key q \<or> (path_key p = path_key q \<and> path_root p < path_root q)"

instance
proof
  fix p q r :: path
  show "(p < q) = (p \<le> q \<and> \<not> q \<le> p)" by (auto simp: less_eq_path_def less_path_def)
  show "p \<le> p" by (simp add: less_eq_path_def)
  show "p \<le> q \<Longrightarrow> q \<le> r \<Longrightarrow> p \<le> r" by (auto simp: less_eq_path_def)
  show "p \<le> q \<Longrightarrow> q \<le> p \<Longrightarrow> p = q"
    by (cases p; cases q) (auto simp: less_eq_path_def path_key_def split: if_splits)
  show "p \<le> q \<or> q \<le> p" by (auto simp: less_eq_path_def)
qed

end

definition normal_path :: "path \<Rightarrow> bool" where
  "normal_path p \<longleftrightarrow> path_root p \<in> {[], ''/'', ''//''} \<and> (\<forall>x \<in> set (path_parts p). CHR ''/'' \<notin> set x)"

lemma normal_path_of [simp]: "normal_path (path_of s)"
  using split_on_parts_no_sep [of _ "CHR ''/''" s] by (auto simp: normal_path_def path_of_def Let_def)

lemma normal_path_child: "normal_path p \<Longrightarrow> CHR ''/'' \<notin> set n \<Longrightarrow> normal_path (path_child p n)"
  by (auto simp: normal_path_def path_child_def)

lemma normal_key_root: "normal_path p \<Longrightarrow> normal_path q \<Longrightarrow> path_key p = path_key q \<Longrightarrow> path_root p = path_root q"
  by (cases p; cases q) (auto simp: normal_path_def path_key_def)

lemma normal_le_key: "normal_path p \<Longrightarrow> normal_path q \<Longrightarrow> path_key p \<le> path_key q \<Longrightarrow> p \<le> q"
  using normal_key_root [of p q] by (auto simp: less_eq_path_def le_less)

lemma sort_paths_sort:
  assumes "\<forall>p \<in> set ps. normal_path p"
  shows "sort_paths ps = sort ps"
proof (rule sym, rule properties_for_sort)
  show "mset (sort_paths ps) = mset ps" by (simp add: sort_paths_def)
  have "sorted (map path_key (sort_paths ps))" by (simp add: sort_paths_def)
  then have "sorted_wrt (\<lambda>p q. path_key p \<le> path_key q) (sort_paths ps)" by (simp add: sorted_map)
  then show "sorted (sort_paths ps)"
    by (rule sorted_wrt_mono_rel [rotated]) (use assms in \<open>auto simp: sort_paths_def intro: normal_le_key\<close>)
qed

text \<open>\<open>sorted(set(strings))\<close>.\<close>

definition sorted_set :: "string list \<Rightarrow> string list" where
  "sorted_set xs = sort (remdups xs)"

lemma sorted_set_props [simp]:
  "set (sorted_set xs) = set xs" "distinct (sorted_set xs)" "sorted (sorted_set xs)"
  by (simp_all add: sorted_set_def)

end
