(* ===== verification/Channels.thy ===== *)
theory Channels
  imports Os UrlText
begin

text \<open>
  \<open>channels.py\<close>: channel targets from systemd unit files and their environment files, the catalog that
  classifies a flow of a unit, and the resolution of hosts to addresses.
\<close>

section \<open>Targets and the catalog\<close>

record channel_target =
  ct_channel :: string
  ct_unit :: string
  ct_url :: string
  ct_scheme :: string
  ct_host :: string
  ct_port :: int
  ct_path :: string
  ct_addresses :: "string list"

record channel_match =
  cm_target :: "channel_target option"
  cm_status :: string

record channel_catalog =
  cat_targets :: "channel_target list"

text \<open>\<open>{target.unit: target for target in targets}\<close>: the last target of a unit wins.\<close>

definition by_unit :: "channel_catalog \<Rightarrow> string \<Rightarrow> channel_target option" where
  "by_unit cat u = map_of (rev (map (\<lambda>t. (ct_unit t, t)) (cat_targets cat))) u"

definition catalog_match :: "channel_catalog \<Rightarrow> string \<Rightarrow> string \<Rightarrow> int \<Rightarrow> channel_match" where
  "catalog_match cat u dst_ip dst_port =
     (case by_unit cat u of
        None \<Rightarrow> \<lparr>cm_target = None, cm_status = ''unknown_unit''\<rparr>
      | Some t \<Rightarrow>
          if ct_port t \<noteq> dst_port then \<lparr>cm_target = Some t, cm_status = ''unexpected_flow''\<rparr>
          else if ct_addresses t \<noteq> [] \<and> dst_ip \<notin> set (ct_addresses t)
          then \<lparr>cm_target = Some t, cm_status = ''unexpected_flow''\<rparr>
          else \<lparr>cm_target = Some t, cm_status = ''matched''\<rparr>)"

section \<open>A target from a URL\<close>

definition removesuffix :: "string \<Rightarrow> string \<Rightarrow> string" where
  "removesuffix suf s = (if suf \<noteq> [] \<and> endswith s suf then take (length s - length suf) s else s)"

definition default_port :: "string \<Rightarrow> int" where
  "default_port scheme = (if scheme = ''https'' then 443 else 80)"

text \<open>The port of the URL, or the default of its scheme; UDP and RTP have none.\<close>

definition effective_port :: "string \<Rightarrow> string \<Rightarrow> string \<Rightarrow> int option \<Rightarrow> int res" where
  "effective_port unit url scheme port_opt =
     (case port_opt of
        Some p \<Rightarrow> Inr p
      | None \<Rightarrow>
          if scheme \<in> {''udp'', ''rtp''}
          then Inl (RuntimeError ''{} UDP/RTP URL needs explicit port: {}'' [JStr unit, JStr url])
          else Inr (default_port scheme))"

definition channel_target_from_url :: "(string \<Rightarrow> bool) \<Rightarrow> string \<Rightarrow> string \<Rightarrow> channel_target res" where
  "channel_target_from_url bracket_ok unit url =
     bind_res (urlparse bracket_ok url) (\<lambda>parsed.
     if pu_scheme parsed \<notin> {''http'', ''https'', ''udp'', ''rtp''}
     then Inl (RuntimeError ''{} URL must use http, https, udp or rtp: {}'' [JStr unit, JStr url])
     else case url_hostname parsed of
       None \<Rightarrow> Inl (RuntimeError ''{} URL has no host: {}'' [JStr unit, JStr url])
     | Some host \<Rightarrow>
         bind_res (url_port parsed) (\<lambda>port_opt.
         bind_res (effective_port unit url (pu_scheme parsed) port_opt) (\<lambda>port.
         let base = (if pu_path parsed \<noteq> [] then pu_path parsed else ''/'');
             full = (if pu_query parsed \<noteq> [] then base @ ''?'' @ pu_query parsed else base)
         in Inr \<lparr>ct_channel = removesuffix ''.service'' unit, ct_unit = unit, ct_url = url,
                 ct_scheme = pu_scheme parsed, ct_host = lower host, ct_port = port, ct_path = full,
                 ct_addresses = []\<rparr>)))"

section \<open>Unit and environment files\<close>

text \<open>Lines that end with a backslash continue on the next line.\<close>

fun join_lines :: "string \<Rightarrow> string list \<Rightarrow> string list" where
  "join_lines pending [] = (if pending \<noteq> [] then [pending] else [])"
| "join_lines pending (raw # rest) =
     (let line = rstrip raw in
      if endswith line [CHR 0x5C] then join_lines (pending @ butlast line @ '' '') rest
      else (pending @ line) # join_lines [] rest)"

definition join_systemd_continuations :: "string \<Rightarrow> string" where
  "join_systemd_continuations text = join [CHR 0x0A] (join_lines [] (splitlines text))"

definition value_after :: "string \<Rightarrow> string \<Rightarrow> string" where
  "value_after key line = drop (length key) line"

text \<open>\<open>part.split("=", 1)[-1]\<close>.\<close>

definition after_equals :: "string \<Rightarrow> string" where
  "after_equals part = (case split_first CHR ''='' part of None \<Rightarrow> part | Some (_, v) \<Rightarrow> v)"

definition extract_urls_from_environment :: "string \<Rightarrow> string list" where
  "extract_urls_from_environment v =
     (let parts = (case shlex_split v of None \<Rightarrow> split_ws v | Some ps \<Rightarrow> ps)
      in concat (map (\<lambda>part. find_urls (after_equals part)) parts))"

definition urls_of_unit_line :: "string \<Rightarrow> string list" where
  "urls_of_unit_line raw =
     (let line = strip raw in
      if line = [] \<or> startswith line ''#'' then []
      else if startswith line ''Environment='' then extract_urls_from_environment (value_after ''Environment='' line)
      else find_urls line)"

definition extract_urls_from_unit :: "string \<Rightarrow> string list" where
  "extract_urls_from_unit text =
     map cleanup_url (concat (map urls_of_unit_line (splitlines (join_systemd_continuations text))))"

definition expand_home_specifier :: "string \<Rightarrow> string \<Rightarrow> path \<Rightarrow> string" where
  "expand_home_specifier home spec unit_path =
     (if \<not> contains_sub ''%h'' spec then spec
      else let text = path_str (path_parent unit_path)
           in replace_sub ''%h''
                (case find_sub ''.config/systemd/user'' text of
                   Some idx \<Rightarrow> if 0 < idx then take (idx - 1) text else path_str (path_of home)
                 | None \<Rightarrow> path_str (path_of home)) spec)"

text \<open>The value of an \<open>EnvironmentFile=\<close> line, without the prefix that makes the file optional.\<close>

definition environment_file_spec :: "string \<Rightarrow> string option" where
  "environment_file_spec raw =
     (let line = strip raw in
      if startswith line ''EnvironmentFile=''
      then Some (lstrip_chars ''-'' (strip (value_after ''EnvironmentFile='' line))) else None)"

definition environment_file_paths :: "string \<Rightarrow> string \<Rightarrow> path \<Rightarrow> path list" where
  "environment_file_paths home joined unit_path =
     concat (map (\<lambda>line. case environment_file_spec line of
         None \<Rightarrow> []
       | Some spec \<Rightarrow>
           if spec = [] \<or> contains_sub ''%i'' spec then []
           else [path_of (expand_home_specifier home spec unit_path)]) (splitlines joined))"

definition urls_of_env_line :: "string \<Rightarrow> string list" where
  "urls_of_env_line raw =
     (let line = strip raw in
      if line = [] \<or> startswith line ''#'' \<or> CHR ''='' \<notin> set line then []
      else find_urls (after_equals line))"

definition urls_of_env_text :: "string \<Rightarrow> string list" where
  "urls_of_env_text text = map cleanup_url (concat (map urls_of_env_line (splitlines text)))"

text \<open>An unreadable file has no URL; undecodable text raises.\<close>

definition urls_from_env_file :: "'w os \<Rightarrow> path \<Rightarrow> ('w, string list) io" where
  "urls_from_env_file os p =
     io_bind (io_op (os_read_text os (path_str p))) (\<lambda>r. case r of
         ReadOSError \<Rightarrow> io_return []
       | ReadDecodeError \<Rightarrow> io_raise UnicodeDecodeError
       | ReadText text \<Rightarrow> io_return (urls_of_env_text text))"

text \<open>A unit or an instance has one URL; with none it is skipped, with several it is skipped with a warning.\<close>

definition target_of_urls :: "'w os \<Rightarrow> string \<Rightarrow> string \<Rightarrow> string \<Rightarrow> string list \<Rightarrow> ('w, channel_target list) io" where
  "target_of_urls os message subject unit urls =
     (case urls of
        [] \<Rightarrow> io_return []
      | url # others \<Rightarrow>
          if others = [] then
            io_bind (io_res (channel_target_from_url (os_bracket_ok os) unit url)) (\<lambda>t. io_return [t])
          else
            io_bind (io_op (os_warn os message [JStr subject, JInt (int (length urls))])) (\<lambda>_. io_return []))"

section \<open>Template units\<close>

text \<open>The instance that a file name stands for, between the head and the tail of the pattern.\<close>

definition instance_of_name :: "string \<Rightarrow> string \<Rightarrow> string \<Rightarrow> string option" where
  "instance_of_name fhead ftail nm =
     (if startswith nm fhead \<and> endswith nm ftail then
        (let inst = take (length nm - length ftail - length fhead) (drop (length fhead) nm)
         in if inst = [] then None else Some inst)
      else None)"

definition instance_target :: "'w os \<Rightarrow> string \<Rightarrow> string \<Rightarrow> string \<Rightarrow> path \<Rightarrow> ('w, channel_target list) io" where
  "instance_target os prfx fhead ftail env_path =
     (case instance_of_name fhead ftail (path_name env_path) of
        None \<Rightarrow> io_return []
      | Some inst \<Rightarrow>
          io_bind (urls_from_env_file os env_path) (\<lambda>found.
          io_bind (target_of_urls os ''{} contains {} URLs; expected one - skipping'' (path_str env_path)
            (prfx @ ''@'' @ inst @ ''.service'') (sorted_set found)) (\<lambda>ts.
            io_return (map (\<lambda>t. t\<lparr>ct_channel := inst\<rparr>) ts))))"

text \<open>The instances that match one pattern, in path order.\<close>

definition pattern_targets :: "'w os \<Rightarrow> string \<Rightarrow> path \<Rightarrow> ('w, channel_target list) io" where
  "pattern_targets os prfx spec_path =
     (let nm = path_name spec_path;
          k = (case find_sub ''%i'' nm of None \<Rightarrow> 0 | Some k \<Rightarrow> k);
          fhead = take k nm; ftail = drop (k + 2) nm
      in io_bind (io_op (os_glob os (path_str (path_parent spec_path)) (fhead @ ''*'' @ ftail))) (\<lambda>found.
         io_bind (io_traverse (instance_target os prfx fhead ftail) (sort_paths (map path_of found))) (\<lambda>ts.
           io_return (concat ts))))"

definition template_line_targets :: "'w os \<Rightarrow> path \<Rightarrow> string \<Rightarrow> string \<Rightarrow> ('w, channel_target list) io" where
  "template_line_targets os template prfx line =
     (case environment_file_spec line of
        None \<Rightarrow> io_return []
      | Some spec \<Rightarrow>
          if \<not> contains_sub ''%i'' spec then io_return [] else
          let spec_path = path_of (expand_home_specifier (os_home os) spec template)
          in if \<not> contains_sub ''%i'' (path_name spec_path) \<or> contains_sub ''%i'' (path_str (path_parent spec_path))
             then io_return [] else pattern_targets os prfx spec_path)"

definition template_instance_targets :: "'w os \<Rightarrow> path \<Rightarrow> string \<Rightarrow> ('w, channel_target list) io" where
  "template_instance_targets os template joined =
     (let nm = path_name template; prfx = take (length nm - length ''@.service'') nm
      in io_bind (io_traverse (template_line_targets os template prfx) (splitlines joined)) (\<lambda>ts.
           io_return (concat ts)))"

section \<open>Loading the catalog\<close>

text \<open>One unit file: its targets.\<close>

definition unit_targets :: "'w os \<Rightarrow> path \<Rightarrow> string \<Rightarrow> ('w, channel_target list) io" where
  "unit_targets os p text =
     (let unit = path_name p; joined = join_systemd_continuations text in
      if endswith unit ''@.service'' then template_instance_targets os p joined else
      io_bind (io_traverse (urls_from_env_file os) (environment_file_paths (os_home os) joined p)) (\<lambda>env_urls.
        target_of_urls os ''{} contains {} URLs; expected one URL per unit - skipping'' unit unit
          (sorted_set (extract_urls_from_unit text @ concat env_urls))))"

definition targets_of_path :: "'w os \<Rightarrow> path \<Rightarrow> ('w, channel_target list) io" where
  "targets_of_path os p =
     io_bind (io_op (os_read_text os (path_str p))) (\<lambda>r. case r of
         ReadOSError \<Rightarrow> io_return []
       | ReadDecodeError \<Rightarrow> io_raise UnicodeDecodeError
       | ReadText text \<Rightarrow> unit_targets os p text)"

definition load_channel_targets :: "'w os \<Rightarrow> path list \<Rightarrow> ('w, channel_target list) io" where
  "load_channel_targets os paths =
     io_bind (io_traverse (targets_of_path os) paths) (\<lambda>ts. io_return (concat ts))"

definition catalog_from_unit_paths :: "'w os \<Rightarrow> path list \<Rightarrow> ('w, channel_catalog) io" where
  "catalog_from_unit_paths os paths =
     io_bind (load_channel_targets os paths) (\<lambda>ts. io_return \<lparr>cat_targets = ts\<rparr>)"

definition units_in_dir :: "'w os \<Rightarrow> path \<Rightarrow> ('w, path list) io" where
  "units_in_dir os dir =
     io_bind (io_op (os_iterdir os (path_str dir))) (\<lambda>names. case names of
         None \<Rightarrow> io_return []
       | Some ns \<Rightarrow> io_return (map (path_child dir) (filter (\<lambda>n. endswith n ''.service'') ns)))"

definition default_user_unit_paths :: "'w os \<Rightarrow> path list \<Rightarrow> ('w, path list) io" where
  "default_user_unit_paths os dirs =
     io_bind (io_traverse (units_in_dir os) dirs) (\<lambda>pss. io_return (sort_paths (concat pss)))"

section \<open>Resolution\<close>

text \<open>The IPv4 and IPv6 rows of the resolver, by address text.\<close>

definition addresses_of_rows :: "(int \<times> string list) list \<Rightarrow> string list" where
  "addresses_of_rows rows =
     sorted_set (concat (map (\<lambda>(family, sockaddr).
       if family \<notin> {2, 10} then [] else case sockaddr of [] \<Rightarrow> [] | a # _ \<Rightarrow> [a]) rows))"

text \<open>\<open>except OSError\<close>: a resolver that fails gives no row; the \<open>UnicodeError\<close> of a bad host name is not caught.\<close>

definition resolve_target :: "'w os \<Rightarrow> channel_target \<Rightarrow> ('w, channel_target) io" where
  "resolve_target os t =
     io_bind (io_op (os_getaddrinfo os (ct_host t) (ct_port t))) (\<lambda>answer.
     io_bind (case answer of Resolved rs \<Rightarrow> io_return rs | ResolverOSError \<Rightarrow> io_return []
                           | ResolverUnicodeError \<Rightarrow> io_raise UnicodeError) (\<lambda>rows.
       io_return (t\<lparr>ct_addresses := addresses_of_rows rows\<rparr>)))"

definition catalog_resolve :: "'w os \<Rightarrow> channel_catalog \<Rightarrow> ('w, channel_catalog) io" where
  "catalog_resolve os cat =
     io_bind (io_traverse (resolve_target os) (cat_targets cat)) (\<lambda>ts. io_return \<lparr>cat_targets = ts\<rparr>)"

end
