(* ===== verification/FlowChannel.thy ===== *)
theory FlowChannel
  imports FlowMaps Channels Models
begin

text \<open>
  \<open>tcp_channel.py\<close> and \<open>udp_channel.py\<close>: samples and their filter, the kernel prototype gate, the loader
  attachment, the channel collector and its dry-run double. The shared definitions take the protocol
  record of \<open>FlowMaps\<close>; the names of each module are bound to them at the end.
\<close>

section \<open>Samples\<close>

record channel_sample =
  cs_bucket_start_ns :: int
  cs_bucket_ms :: int
  cs_src_ip :: string
  cs_dst_ip :: string
  cs_src_port :: int
  cs_dst_port :: int
  cs_socket_id :: int
  cs_cgroup_id :: int
  cs_tx_bytes :: int
  cs_rx_bytes :: int
  cs_tx_calls :: int
  cs_rx_calls :: int
  cs_connections :: int
  cs_unit :: string
  cs_channel :: string
  cs_url :: string
  cs_host :: string
  cs_ifindex :: int
  cs_ifname :: string
  cs_host_pid :: int
  cs_state :: int
  cs_status :: string
  cs_layer :: string
  cs_ip_proto :: int

text \<open>\<open>to_dict\<close>; the key \<open>tcp_state\<close> is the same in both modules.\<close>

definition channel_to_dict :: "(int \<Rightarrow> string) \<Rightarrow> channel_sample \<Rightarrow> (string \<times> json) list" where
  "channel_to_dict ts_of s =
     [(''ts'', JStr (ts_of (cs_bucket_start_ns s))),
      (''bucket_start_ns'', JInt (cs_bucket_start_ns s)),
      (''bucket_ms'', JInt (cs_bucket_ms s)),
      (''layer'', JStr (cs_layer s)),
      (''channel'', JStr (cs_channel s)),
      (''unit'', JStr (cs_unit s)),
      (''url'', JStr (cs_url s)),
      (''host'', JStr (cs_host s)),
      (''src_ip'', JStr (cs_src_ip s)),
      (''dst_ip'', JStr (cs_dst_ip s)),
      (''src_port'', JInt (cs_src_port s)),
      (''dst_port'', JInt (cs_dst_port s)),
      (''ip_proto'', JInt (cs_ip_proto s)),
      (''ifindex'', JInt (cs_ifindex s)),
      (''ifname'', JStr (cs_ifname s)),
      (''host_pid'', JInt (cs_host_pid s)),
      (''socket_id'', JInt (cs_socket_id s)),
      (''cgroup_id'', JInt (cs_cgroup_id s)),
      (''tx_bytes'', JInt (cs_tx_bytes s)),
      (''rx_bytes'', JInt (cs_rx_bytes s)),
      (''tx_calls'', JInt (cs_tx_calls s)),
      (''rx_calls'', JInt (cs_rx_calls s)),
      (''connections'', JInt (cs_connections s)),
      (''status'', JStr (cs_status s)),
      (''tcp_state'', JInt (cs_state s)),
      (''bytes'', JInt (cs_tx_bytes s + cs_rx_bytes s)),
      (''packets'', JInt (cs_rx_calls s + cs_tx_calls s))]"

record channel_filter =
  cf_channel :: "string option"
  cf_unit :: "string option"
  cf_host :: "string option"
  cf_status :: "string option"

definition no_channel_filter :: channel_filter where
  "no_channel_filter = \<lparr>cf_channel = None, cf_unit = None, cf_host = None, cf_status = None\<rparr>"

definition channel_matches :: "channel_filter \<Rightarrow> channel_sample \<Rightarrow> bool" where
  "channel_matches f s =
     list_all id
       [check_opt (cf_channel f) (cs_channel s),
        check_opt (cf_unit f) (cs_unit s),
        check_opt (cf_host f) (cs_host s),
        check_opt (cf_status f) (cs_status s)]"

lemma no_channel_filter_matches [simp]: "channel_matches no_channel_filter s"
  by (simp add: channel_matches_def no_channel_filter_def)

section \<open>The kernel prototype gate\<close>

text \<open>\<open>FUNC 'name' type_id=(\d+)\<close>, searched: the digits after the first place where it matches.\<close>

fun search_type_id :: "string \<Rightarrow> string \<Rightarrow> string option" where
  "search_type_id head [] = None"
| "search_type_id head (c # s) =
     (let digits = takeWhile is_ascii_digit (drop (length head) (c # s)) in
      if startswith (c # s) head \<and> digits \<noteq> [] then Some digits else search_type_id head s)"

text \<open>The indented lines after the first line that starts with \<open>head\<close>, each with its newline in front.\<close>

fun proto_params :: "string \<Rightarrow> string list \<Rightarrow> string option" where
  "proto_params head [] = None"
| "proto_params head (l # ls) =
     (if startswith l head then
        Some (concat (map (\<lambda>x. CHR 10 # x) (takeWhile (\<lambda>x. startswith x [CHR 9]) ls)))
      else proto_params head ls)"

definition func_head :: "string \<Rightarrow> string" where
  "func_head fn = ''FUNC '' @ [CHR 0x27] @ fn @ [CHR 0x27] @ '' type_id=''"

text \<open>The verdict on a BTF dump; \<open>None\<close>: it cannot be determined.\<close>

definition btf_verdict :: "flow_proto \<Rightarrow> string \<Rightarrow> bool option" where
  "btf_verdict pr btf_text =
     (case search_type_id (func_head (fp_kernel_function pr)) btf_text of
        None \<Rightarrow> None
      | Some digits \<Rightarrow>
          (case proto_params (''['' @ digits @ ''] FUNC_PROTO'') (split_on (CHR 10) btf_text) of
             None \<Rightarrow> None
           | Some params \<Rightarrow> Some (contains_sub ([CHR 0x27] @ fp_old_parameter pr @ [CHR 0x27]) params)))"

definition btf_command :: "string list" where
  "btf_command = [''bpftool'', ''btf'', ''dump'', ''file'', ''/sys/kernel/btf/vmlinux'']"

text \<open>A child that cannot be run, fails, times out or prints nothing leaves the question open.\<close>

definition kernel_has_old_parameter :: "flow_proto \<Rightarrow> 'w os \<Rightarrow> ('w, bool option) io" where
  "kernel_has_old_parameter pr os =
     io_bind (io_op (os_run os btf_command)) (\<lambda>outcome.
       io_return (case outcome of
           ExecCompleted r \<Rightarrow>
             if cp_returncode r \<noteq> 0 \<or> cp_stdout r = [] then None else btf_verdict pr (cp_stdout r)
         | _ \<Rightarrow> None))"

definition refuse_pre519 :: "flow_proto \<Rightarrow> 'w os \<Rightarrow> ('w, unit) io" where
  "refuse_pre519 pr os =
     io_bind (kernel_has_old_parameter pr os) (\<lambda>has_old.
       if has_old = Some True then io_raise (RuntimeError
         ''kernel {} has the pre-5.19 signature ({} parameter): the fexit program would silently account garbage as rx_bytes. {} channel attribution requires kernel >= 5.19.''
         [JStr (fp_kernel_function pr), JStr (fp_old_parameter pr), JStr (fp_label pr)])
       else io_return ())"

section \<open>Loader attachment\<close>

text \<open>\<open>fa_stderr_open\<close>: the temporary file that receives the loader's standard error is open.\<close>

record flow_attachment =
  fa_loader_path :: string
  fa_object_path :: string
  fa_startup_timeout :: json
  fa_process :: "nat option"
  fa_status :: "int option"
  fa_stderr_open :: bool

definition new_flow_attachment :: "string \<Rightarrow> string \<Rightarrow> flow_attachment" where
  "new_flow_attachment loader_path object_path =
     \<lparr>fa_loader_path = loader_path, fa_object_path = object_path, fa_startup_timeout = JInt 10,
      fa_process = None, fa_status = None, fa_stderr_open = False\<rparr>"

definition close_stderr :: "(flow_attachment \<times> 'w, unit) io" where
  "close_stderr = io_modify (\<lambda>(a, w). (a\<lparr>fa_stderr_open := False\<rparr>, w))"

text \<open>What the child \<open>h\<close> wrote to the open file.\<close>

definition stderr_text :: "'w os \<Rightarrow> nat \<Rightarrow> (flow_attachment \<times> 'w, string) io" where
  "stderr_text os h =
     io_bind (io_get (fa_stderr_open \<circ> fst)) (\<lambda>is_open.
       if \<not> is_open then io_return []
       else io_bind (io_world (io_op (os_stderr_text os h))) (\<lambda>t. io_return (strip t)))"

definition flow_detach :: "'w os \<Rightarrow> (flow_attachment \<times> 'w, unit) io" where
  "flow_detach os =
     io_bind (io_get (fa_process \<circ> fst)) (\<lambda>process.
     io_bind (io_modify (\<lambda>(a, w). (a\<lparr>fa_process := None, fa_status := None\<rparr>, w))) (\<lambda>_.
       case process of
         None \<Rightarrow> close_stderr
       | Some h \<Rightarrow>
           io_bind (io_world (io_op (os_poll os h))) (\<lambda>rc. case rc of
               Some _ \<Rightarrow> close_stderr
             | None \<Rightarrow> io_bind (io_world (stop_child os h)) (\<lambda>_. close_stderr))))"

definition flow_command :: "flow_attachment \<Rightarrow> int \<Rightarrow> string list" where
  "flow_command a euid =
     (if euid \<noteq> 0 then [''sudo'', ''-n''] else []) @ [fa_loader_path a, fa_object_path a]"

text \<open>The child is running and its standard output is a pipe: wait for the status line and read it.\<close>

definition flow_await_status :: "flow_proto \<Rightarrow> 'w os \<Rightarrow> nat \<Rightarrow> (flow_attachment \<times> 'w, int) io" where
  "flow_await_status pr os h =
     io_bind (io_get (fa_startup_timeout \<circ> fst)) (\<lambda>timeout.
     io_bind (io_world (io_op (os_select os h))) (\<lambda>ready.
       if \<not> ready then
         io_bind (flow_detach os) (\<lambda>_. io_raise (RuntimeError
           ''{} channel BPF loader did not report readiness within {}s'' [JStr (fp_label pr), timeout])) else
     io_bind (io_world (io_op (os_readline os h))) (\<lambda>line.
       if line = [] then
         io_bind (io_world (io_op (os_wait os h))) (\<lambda>rc.
         io_bind (stderr_text os h) (\<lambda>t.
         io_bind (io_modify (\<lambda>(x, w). (x\<lparr>fa_process := None\<rparr>, w))) (\<lambda>_.
         io_bind close_stderr (\<lambda>_.
           io_raise (RuntimeError ''{} channel BPF attach failed: {}''
             [JStr (fp_label pr), JStr (if t \<noteq> [] then t else ''exit status '' @ str_of_int rc)]))))) else
     io_bind (io_res (parse_flow_loader_status pr os line)) (\<lambda>status.
     io_bind (io_modify (\<lambda>(x, w). (x\<lparr>fa_status := Some status\<rparr>, w))) (\<lambda>_.
       io_return status)))))"

definition flow_attach :: "flow_proto \<Rightarrow> 'w os \<Rightarrow> (flow_attachment \<times> 'w, int) io" where
  "flow_attach pr os =
     io_bind (io_get fst) (\<lambda>a.
     io_bind (io_world (io_op (os_exists os (fa_loader_path a)))) (\<lambda>loader.
       if \<not> loader then io_raise (RuntimeError ''{} channel BPF loader does not exist: {}''
         [JStr (fp_label pr), JStr (fa_loader_path a)]) else
     io_bind (io_world (io_op (os_exists os (fa_object_path a)))) (\<lambda>object.
       if \<not> object then io_raise (RuntimeError ''{} channel BPF object does not exist: {}''
         [JStr (fp_label pr), JStr (fa_object_path a)]) else
     io_bind (io_world (refuse_pre519 pr os)) (\<lambda>_.
     io_bind (io_world (io_op (os_geteuid os))) (\<lambda>euid.
     io_bind (io_modify (\<lambda>(x, w). (x\<lparr>fa_stderr_open := True\<rparr>, w))) (\<lambda>_.
     io_bind (io_world (io_op (os_popen os (flow_command a euid)))) (\<lambda>spawn. case spawn of
         SpawnNotFound \<Rightarrow> io_bind close_stderr (\<lambda>_. io_raise
           (RuntimeError ''required command not found: {}'' [JStr (hd (flow_command a euid))]))
       | SpawnDenied \<Rightarrow> io_bind close_stderr (\<lambda>_. io_raise
           (RuntimeError ''permission denied running: {}'' [JStr (hd (flow_command a euid))]))
       | SpawnOSError \<Rightarrow> io_raise OSError
       | Spawned h \<Rightarrow>
           io_bind (io_modify (\<lambda>(x, w). (x\<lparr>fa_process := Some h\<rparr>, w))) (\<lambda>_.
             flow_await_status pr os h))))))))"

definition flow_ensure_alive :: "flow_proto \<Rightarrow> 'w os \<Rightarrow> (flow_attachment \<times> 'w, unit) io" where
  "flow_ensure_alive pr os =
     io_bind (io_get (fa_process \<circ> fst)) (\<lambda>process. case process of
       None \<Rightarrow> io_raise (RuntimeError ''{} channel BPF loader is not running'' [JStr (fp_label pr)])
     | Some h \<Rightarrow>
         io_bind (io_world (io_op (os_poll os h))) (\<lambda>rc. case rc of
             None \<Rightarrow> io_return ()
           | Some returncode \<Rightarrow>
               io_bind (stderr_text os h) (\<lambda>detail.
               io_bind (io_modify (\<lambda>(a, w). (a\<lparr>fa_process := None, fa_status := None\<rparr>, w))) (\<lambda>_.
               io_bind close_stderr (\<lambda>_.
                 io_raise (RuntimeError ''{} channel BPF loader exited with status {}{}''
                   [JStr (fp_label pr), JInt returncode,
                    JStr (if detail \<noteq> [] then '': '' @ detail else [])]))))))"

section \<open>Units of processes\<close>

definition is_service_part :: "string \<Rightarrow> bool" where
  "is_service_part part = (endswith part ''.service'' \<and> \<not> startswith part ''user@'')"

text \<open>The service parts of one line: those of the path after the last colon, none without a colon.\<close>

definition line_services :: "string \<Rightarrow> string list" where
  "line_services line =
     (case split_last (CHR '':'') line of
        None \<Rightarrow> []
      | Some (_, path) \<Rightarrow> filter is_service_part (split_on (CHR ''/'') path))"

definition unit_from_cgroup_text :: "string \<Rightarrow> string" where
  "unit_from_cgroup_text text =
     (let candidates = concat (map line_services (splitlines text))
      in if candidates \<noteq> [] then last candidates else [])"

definition unit_for_pid :: "'w os \<Rightarrow> int \<Rightarrow> string \<Rightarrow> ('w, string) io" where
  "unit_for_pid os pid proc_root =
     io_bind (read_text os (path_join (pid_dir proc_root pid) ''cgroup'')) (\<lambda>text.
       io_return (unit_from_cgroup_text text))"

end
