(* ===== verification/FlowCollector.thy ===== *)
theory FlowCollector
  imports FlowChannel
begin

text \<open>
  The channel collectors: construction, the delta reader over the flow map, the checkpoint, \<open>close\<close>, and
  the dry-run collectors; then the names of \<open>tcp_channel.py\<close> and \<open>udp_channel.py\<close>.
\<close>

section \<open>State and construction\<close>

record flow_collector =
  fl_catalog :: channel_catalog
  fl_bucket_ms :: int
  fl_filter :: channel_filter
  fl_proc_root :: string
  fl_previous :: "ident8 \<rightharpoonup> flow_counters"
  fl_pid_units :: "int \<rightharpoonup> string"
  fl_attachment :: "flow_attachment option"
  fl_map_id :: int
  fl_last_checkpoint_ns :: "int option"

record flow_args =
  fg_catalog :: channel_catalog
  fg_bucket_ms :: int
  fg_filter :: "channel_filter option"
  fg_object_path :: string
  fg_loader_path :: string
  fg_map_id :: "int option"
  fg_attach :: bool
  fg_proc_root :: string

text \<open>The attachment, when there is one, and the map id that is read: the loader's, or the given one.\<close>

definition flow_source :: "flow_proto \<Rightarrow> 'w os \<Rightarrow> flow_args \<Rightarrow> ('w, flow_attachment option \<times> int option) io" where
  "flow_source pr os args w =
     (if \<not> fg_attach args then (Inr (None, fg_map_id args), w) else
      case flow_attach pr os (new_flow_attachment (fg_loader_path args) (fg_object_path args), w) of
        (Inl e, (a, w')) \<Rightarrow> (Inl e, w')
      | (Inr map_id, (a, w')) \<Rightarrow> (Inr (Some a, Some map_id), w'))"

definition new_flow_collector :: "flow_proto \<Rightarrow> 'w os \<Rightarrow> flow_args \<Rightarrow> ('w, flow_collector) io" where
  "new_flow_collector pr os args =
     io_bind (flow_source pr os args) (\<lambda>(attachment, map_id). case map_id of
       None \<Rightarrow> io_raise (RuntimeError ''{} is required with --no-attach'' [JStr (fp_map_option pr)])
     | Some m \<Rightarrow>
         io_bind (io_res (new_flow_reader pr m)) (\<lambda>reader.
           io_return \<lparr>fl_catalog = fg_catalog args, fl_bucket_ms = fg_bucket_ms args,
             fl_filter = (case fg_filter args of None \<Rightarrow> no_channel_filter | Some f \<Rightarrow> f),
             fl_proc_root = fg_proc_root args, fl_previous = Map.empty, fl_pid_units = Map.empty,
             fl_attachment = attachment, fl_map_id = reader, fl_last_checkpoint_ns = None\<rparr>))"

section \<open>Reading the flows\<close>

definition collector_unit_for_pid :: "'w os \<Rightarrow> int \<Rightarrow> (flow_collector \<times> 'w, string) io" where
  "collector_unit_for_pid os pid =
     (if pid \<le> 0 then io_return [] else
      io_bind (io_get fst) (\<lambda>c. case fl_pid_units c pid of
          Some unit \<Rightarrow> io_return unit
        | None \<Rightarrow>
            io_bind (io_world (unit_for_pid os pid (fl_proc_root c))) (\<lambda>unit.
            io_bind (io_modify (\<lambda>(x, w). (x\<lparr>fl_pid_units := (fl_pid_units x)(pid \<mapsto> unit)\<rparr>, w))) (\<lambda>_.
              io_return unit))))"

text \<open>The clamped growth of each counter.\<close>

definition flow_delta :: "flow_counters \<Rightarrow> flow_counters \<Rightarrow> flow_counters" where
  "flow_delta prev now =
     \<lparr>fc_tx_bytes = max (fc_tx_bytes now - fc_tx_bytes prev) 0,
      fc_rx_bytes = max (fc_rx_bytes now - fc_rx_bytes prev) 0,
      fc_tx_calls = max (fc_tx_calls now - fc_tx_calls prev) 0,
      fc_rx_calls = max (fc_rx_calls now - fc_rx_calls prev) 0,
      fc_connections = max (fc_connections now - fc_connections prev) 0\<rparr>"

definition flow_idle :: "flow_counters \<Rightarrow> bool" where
  "flow_idle d = (fc_tx_bytes d \<le> 0 \<and> fc_rx_bytes d \<le> 0 \<and> fc_tx_calls d \<le> 0 \<and> fc_rx_calls d \<le> 0
     \<and> fc_connections d \<le> 0)"

definition target_text :: "(channel_target \<Rightarrow> string) \<Rightarrow> channel_match \<Rightarrow> string" where
  "target_text f m = (case cm_target m of None \<Rightarrow> [] | Some t \<Rightarrow> f t)"

definition flow_sample ::
  "flow_proto \<Rightarrow> int \<Rightarrow> int \<Rightarrow> flow_entry \<Rightarrow> flow_counters \<Rightarrow> string \<Rightarrow> channel_match \<Rightarrow> string \<Rightarrow> string \<Rightarrow> int \<Rightarrow> string
    \<Rightarrow> channel_sample" where
  "flow_sample pr bucket_ns elapsed_ms entry d unit m src ep_ip ep_port ifname =
     \<lparr>cs_bucket_start_ns = bucket_ns, cs_bucket_ms = elapsed_ms, cs_src_ip = src, cs_dst_ip = ep_ip,
      cs_src_port = fk_src_port (fe_key entry), cs_dst_port = ep_port,
      cs_socket_id = fk_socket_cookie (fe_key entry), cs_cgroup_id = fk_cgroup_id (fe_key entry),
      cs_tx_bytes = fc_tx_bytes d, cs_rx_bytes = fc_rx_bytes d, cs_tx_calls = fc_tx_calls d,
      cs_rx_calls = fc_rx_calls d, cs_connections = fc_connections d, cs_unit = unit,
      cs_channel = target_text ct_channel m, cs_url = target_text ct_url m, cs_host = target_text ct_host m,
      cs_ifindex = fv_ifindex (fe_value entry), cs_ifname = ifname, cs_host_pid = fv_pid (fe_value entry),
      cs_state = fv_state (fe_value entry), cs_status = cm_status m, cs_layer = fp_layer pr,
      cs_ip_proto = fp_ip_proto pr\<rparr>"

text \<open>The body of the loop of \<open>_read_flows\<close> for a known flow.\<close>

definition flow_emit ::
  "flow_proto \<Rightarrow> 'w os \<Rightarrow> int \<Rightarrow> int \<Rightarrow> (ident8 \<times> flow_entry) list
    \<Rightarrow> ident8 \<Rightarrow> flow_counters \<Rightarrow> flow_counters \<Rightarrow> (flow_collector \<times> 'w, channel_sample list) io" where
  "flow_emit pr os bucket_ns elapsed_ms first_entry i prev now =
     (let d = flow_delta prev now in
      if flow_idle d then io_return [] else
      case map_of first_entry i of
        None \<Rightarrow> io_raise (KeyError [])
      | Some entry \<Rightarrow>
          io_bind (collector_unit_for_pid os (fv_pid (fe_value entry))) (\<lambda>unit.
          io_bind (io_res (fp_endpoint pr (fe_key entry))) (\<lambda>(ep_ip, ep_port).
          io_bind (io_get (fl_catalog \<circ> fst)) (\<lambda>catalog.
          let m = catalog_match catalog unit ep_ip ep_port in
          io_bind (io_res (ipv4_from_bpf_int (fk_src_ip4 (fe_key entry)))) (\<lambda>src.
          io_bind (io_world (ifname_from_index os (fv_ifindex (fe_value entry)) [])) (\<lambda>ifname.
          let sample = flow_sample pr bucket_ns elapsed_ms entry d unit m src ep_ip ep_port ifname in
          io_bind (io_get (fl_filter \<circ> fst)) (\<lambda>f.
            io_return (if channel_matches f sample then [sample] else []))))))))"

definition put_flows :: "(ident8 \<rightharpoonup> flow_counters) \<Rightarrow> flow_collector \<Rightarrow> flow_collector" where
  "put_flows p c = c\<lparr>fl_previous := p\<rparr>"

definition read_flows ::
  "flow_proto \<Rightarrow> 'w os \<Rightarrow> int \<Rightarrow> int \<Rightarrow> (flow_collector \<times> 'w, channel_sample list) io" where
  "read_flows pr os bucket_ns elapsed_ms =
     io_bind (io_get (fl_map_id \<circ> fst)) (\<lambda>map_id.
     io_bind (io_world (flow_dump_entries pr os map_id)) (\<lambda>entries.
       let (totals, first_entry) =
             aggregate (flow_key_identity \<circ> fe_key) (flow_value_counters \<circ> fe_value)
               add_flow_counters zero_flow_counters entries
       in io_bind (io_modify (\<lambda>(c, w). (put_flows (drop_stale totals (fl_previous c)) c, w))) (\<lambda>_.
            emit_loop put_flows fl_previous (flow_emit pr os bucket_ns elapsed_ms first_entry) totals [])))"

text \<open>A method of the attachment, run inside the collector; nothing without one.\<close>

definition on_flow_attachment :: "(flow_attachment \<times> 'w, unit) io \<Rightarrow> (flow_collector \<times> 'w, unit) io" where
  "on_flow_attachment m s =
     (case fl_attachment (fst s) of
        None \<Rightarrow> (Inr (), s)
      | Some a \<Rightarrow> (case m (a, snd s) of
          (r, (a', w')) \<Rightarrow> (r, ((fst s)\<lparr>fl_attachment := Some a'\<rparr>, w'))))"

definition flow_checkpoint :: "flow_proto \<Rightarrow> 'w os \<Rightarrow> (flow_collector \<times> 'w, channel_sample list) io" where
  "flow_checkpoint pr os =
     io_bind (on_flow_attachment (flow_ensure_alive pr os)) (\<lambda>_.
     io_bind (io_modify (\<lambda>(c, w). (c\<lparr>fl_pid_units := Map.empty\<rparr>, w))) (\<lambda>_.
     io_bind (io_world (io_op (os_time_ns os))) (\<lambda>now_ns.
     io_bind (io_get fst) (\<lambda>c.
     io_bind (io_res (bucket_start_ns now_ns (fl_bucket_ms c))) (\<lambda>bucket_ns.
     io_bind (io_modify (\<lambda>(x, w). (x\<lparr>fl_last_checkpoint_ns := Some now_ns\<rparr>, w))) (\<lambda>_.
       read_flows pr os bucket_ns (measured_ms (fl_bucket_ms c) (fl_last_checkpoint_ns c) now_ns)))))))"

definition close_flow_collector :: "'w os \<Rightarrow> (flow_collector \<times> 'w, unit) io" where
  "close_flow_collector os = on_flow_attachment (flow_detach os)"

section \<open>Dry run\<close>

record flow_dry_run =
  fd_catalog :: channel_catalog
  fd_bucket_ms :: int
  fd_filter :: channel_filter
  fd_tick :: int

definition new_flow_dry_run :: "channel_catalog \<Rightarrow> int \<Rightarrow> channel_filter option \<Rightarrow> flow_dry_run" where
  "new_flow_dry_run catalog bucket_ms f =
     \<lparr>fd_catalog = catalog, fd_bucket_ms = bucket_ms,
      fd_filter = (case f of None \<Rightarrow> no_channel_filter | Some x \<Rightarrow> x), fd_tick = 0\<rparr>"

definition tcp_demo_target :: channel_target where
  "tcp_demo_target =
     \<lparr>ct_channel = ''demo-channel'', ct_unit = ''demo-channel.service'', ct_url = ''https://api.example.com/demo'',
      ct_scheme = ''https'', ct_host = ''api.example.com'', ct_port = 443, ct_path = ''/demo'',
      ct_addresses = [''203.0.113.10'']\<rparr>"

definition udp_demo_target :: channel_target where
  "udp_demo_target =
     \<lparr>ct_channel = ''demo-tv'', ct_unit = ''demo-tv.service'', ct_url = ''udp://@239.239.16.2:1234'',
      ct_scheme = ''udp'', ct_host = ''239.239.16.2'', ct_port = 1234, ct_path = ''/'',
      ct_addresses = [''239.239.16.2'']\<rparr>"

definition first_or :: "'a \<Rightarrow> 'a list \<Rightarrow> 'a" where
  "first_or d xs = (if xs \<noteq> [] then hd xs else d)"

definition tcp_dry_sample :: "int \<Rightarrow> flow_dry_run \<Rightarrow> channel_sample" where
  "tcp_dry_sample bucket_ns c =
     (let target = first_or tcp_demo_target (cat_targets (fd_catalog c)) in
      \<lparr>cs_bucket_start_ns = bucket_ns, cs_bucket_ms = fd_bucket_ms c, cs_src_ip = ''10.0.0.10'',
       cs_dst_ip = first_or ''203.0.113.10'' (ct_addresses target), cs_src_port = 40000 + fd_tick c,
       cs_dst_port = ct_port target, cs_socket_id = 900000 + fd_tick c, cs_cgroup_id = 12345,
       cs_tx_bytes = 1200 + fd_tick c, cs_rx_bytes = 64000 + fd_tick c, cs_tx_calls = 2, cs_rx_calls = 8,
       cs_connections = (if fd_tick c = 1 then 1 else 0), cs_unit = ct_unit target,
       cs_channel = ct_channel target, cs_url = ct_url target, cs_host = ct_host target, cs_ifindex = 0,
       cs_ifname = [], cs_host_pid = 4242, cs_state = 0, cs_status = ''matched'', cs_layer = ''tcp_channel'',
       cs_ip_proto = 6\<rparr>)"

definition udp_dry_sample :: "int \<Rightarrow> flow_dry_run \<Rightarrow> channel_sample" where
  "udp_dry_sample bucket_ns c =
     (let target = first_or udp_demo_target (cat_targets (fd_catalog c));
          group = first_or ''239.239.16.2'' (ct_addresses target) in
      \<lparr>cs_bucket_start_ns = bucket_ns, cs_bucket_ms = fd_bucket_ms c, cs_src_ip = group,
       cs_dst_ip = group, cs_src_port = ct_port target,
       cs_dst_port = ct_port target, cs_socket_id = 900000 + fd_tick c, cs_cgroup_id = 12345,
       cs_tx_bytes = 0, cs_rx_bytes = 390000 + fd_tick c, cs_tx_calls = 0, cs_rx_calls = 227,
       cs_connections = 0, cs_unit = ct_unit target,
       cs_channel = ct_channel target, cs_url = ct_url target, cs_host = ct_host target, cs_ifindex = 0,
       cs_ifname = [], cs_host_pid = 4242, cs_state = 0, cs_status = ''matched'', cs_layer = ''udp_channel'',
       cs_ip_proto = 17\<rparr>)"

text \<open>The clock is read and the bucket computed before the tick advances.\<close>

definition dry_checkpoint ::
  "(int \<Rightarrow> flow_dry_run \<Rightarrow> channel_sample) \<Rightarrow> 'w os \<Rightarrow> (flow_dry_run \<times> 'w, channel_sample list) io" where
  "dry_checkpoint sample_of os =
     io_bind (io_world (io_op (os_time_ns os))) (\<lambda>now_ns.
     io_bind (io_get (fd_bucket_ms \<circ> fst)) (\<lambda>bucket_ms.
     io_bind (io_res (bucket_start_ns now_ns bucket_ms)) (\<lambda>bucket_ns.
     io_bind (io_modify (\<lambda>(c, w). (c\<lparr>fd_tick := fd_tick c + 1\<rparr>, w))) (\<lambda>_.
     io_bind (io_get fst) (\<lambda>c.
       let sample = sample_of bucket_ns c in
       io_return (if channel_matches (fd_filter c) sample then [sample] else []))))))"

section \<open>The names of the two modules\<close>

subsection \<open>\<open>tcp_channel.py\<close>\<close>

definition validate_tcp_flow_key :: "flow_key \<Rightarrow> unit res" where
  "validate_tcp_flow_key = validate_flow_key tcp_flows"

definition parse_tcp_flow_key :: "json \<Rightarrow> flow_key res" where
  "parse_tcp_flow_key = parse_flow_key tcp_flows"

definition parse_tcp_flow_value :: "json \<Rightarrow> json \<Rightarrow> flow_value res" where
  "parse_tcp_flow_value = parse_flow_value tcp_flows"

definition parse_tcp_flow_entry :: "json \<Rightarrow> flow_entry res" where
  "parse_tcp_flow_entry = parse_flow_entry tcp_flows"

definition parse_tcp_channel_loader_status :: "'w os \<Rightarrow> string \<Rightarrow> int res" where
  "parse_tcp_channel_loader_status = parse_flow_loader_status tcp_flows"

definition new_tcp_map_reader :: "int \<Rightarrow> int res" where
  "new_tcp_map_reader = new_flow_reader tcp_flows"

definition tcp_dump_entries :: "'w os \<Rightarrow> int \<Rightarrow> ('w, flow_entry list) io" where
  "tcp_dump_entries = flow_dump_entries tcp_flows"

definition tcp_btf_verdict :: "string \<Rightarrow> bool option" where
  "tcp_btf_verdict = btf_verdict tcp_flows"

definition kernel_tcp_recvmsg_old :: "'w os \<Rightarrow> ('w, bool option) io" where
  "kernel_tcp_recvmsg_old = kernel_has_old_parameter tcp_flows"

definition refuse_pre519_tcp_recvmsg :: "'w os \<Rightarrow> ('w, unit) io" where
  "refuse_pre519_tcp_recvmsg = refuse_pre519 tcp_flows"

definition tcp_channel_attach :: "'w os \<Rightarrow> (flow_attachment \<times> 'w, int) io" where
  "tcp_channel_attach = flow_attach tcp_flows"

definition tcp_channel_ensure_alive :: "'w os \<Rightarrow> (flow_attachment \<times> 'w, unit) io" where
  "tcp_channel_ensure_alive = flow_ensure_alive tcp_flows"

definition new_tcp_channel_collector :: "'w os \<Rightarrow> flow_args \<Rightarrow> ('w, flow_collector) io" where
  "new_tcp_channel_collector = new_flow_collector tcp_flows"

definition tcp_read_flows :: "'w os \<Rightarrow> int \<Rightarrow> int \<Rightarrow> (flow_collector \<times> 'w, channel_sample list) io" where
  "tcp_read_flows = read_flows tcp_flows"

definition tcp_read_checkpoint :: "'w os \<Rightarrow> (flow_collector \<times> 'w, channel_sample list) io" where
  "tcp_read_checkpoint = flow_checkpoint tcp_flows"

definition tcp_channel_detach :: "'w os \<Rightarrow> (flow_attachment \<times> 'w, unit) io" where
  "tcp_channel_detach = flow_detach"

definition close_tcp_channel_collector :: "'w os \<Rightarrow> (flow_collector \<times> 'w, unit) io" where
  "close_tcp_channel_collector = close_flow_collector"

definition tcp_dry_checkpoint :: "'w os \<Rightarrow> (flow_dry_run \<times> 'w, channel_sample list) io" where
  "tcp_dry_checkpoint = dry_checkpoint tcp_dry_sample"

subsection \<open>\<open>udp_channel.py\<close>\<close>

definition validate_udp_flow_key :: "flow_key \<Rightarrow> unit res" where
  "validate_udp_flow_key = validate_flow_key udp_flows"

definition parse_udp_flow_key :: "json \<Rightarrow> flow_key res" where
  "parse_udp_flow_key = parse_flow_key udp_flows"

definition parse_udp_flow_value :: "json \<Rightarrow> json \<Rightarrow> flow_value res" where
  "parse_udp_flow_value = parse_flow_value udp_flows"

definition parse_udp_flow_entry :: "json \<Rightarrow> flow_entry res" where
  "parse_udp_flow_entry = parse_flow_entry udp_flows"

definition parse_udp_channel_loader_status :: "'w os \<Rightarrow> string \<Rightarrow> int res" where
  "parse_udp_channel_loader_status = parse_flow_loader_status udp_flows"

definition new_udp_map_reader :: "int \<Rightarrow> int res" where
  "new_udp_map_reader = new_flow_reader udp_flows"

definition udp_dump_entries :: "'w os \<Rightarrow> int \<Rightarrow> ('w, flow_entry list) io" where
  "udp_dump_entries = flow_dump_entries udp_flows"

definition udp_btf_verdict :: "string \<Rightarrow> bool option" where
  "udp_btf_verdict = btf_verdict udp_flows"

definition kernel_udp_recvmsg_old :: "'w os \<Rightarrow> ('w, bool option) io" where
  "kernel_udp_recvmsg_old = kernel_has_old_parameter udp_flows"

definition refuse_pre519_udp_recvmsg :: "'w os \<Rightarrow> ('w, unit) io" where
  "refuse_pre519_udp_recvmsg = refuse_pre519 udp_flows"

definition udp_channel_attach :: "'w os \<Rightarrow> (flow_attachment \<times> 'w, int) io" where
  "udp_channel_attach = flow_attach udp_flows"

definition udp_channel_ensure_alive :: "'w os \<Rightarrow> (flow_attachment \<times> 'w, unit) io" where
  "udp_channel_ensure_alive = flow_ensure_alive udp_flows"

definition new_udp_channel_collector :: "'w os \<Rightarrow> flow_args \<Rightarrow> ('w, flow_collector) io" where
  "new_udp_channel_collector = new_flow_collector udp_flows"

definition udp_read_flows :: "'w os \<Rightarrow> int \<Rightarrow> int \<Rightarrow> (flow_collector \<times> 'w, channel_sample list) io" where
  "udp_read_flows = read_flows udp_flows"

definition udp_read_checkpoint :: "'w os \<Rightarrow> (flow_collector \<times> 'w, channel_sample list) io" where
  "udp_read_checkpoint = flow_checkpoint udp_flows"

definition udp_channel_detach :: "'w os \<Rightarrow> (flow_attachment \<times> 'w, unit) io" where
  "udp_channel_detach = flow_detach"

definition close_udp_channel_collector :: "'w os \<Rightarrow> (flow_collector \<times> 'w, unit) io" where
  "close_udp_channel_collector = close_flow_collector"

definition udp_dry_checkpoint :: "'w os \<Rightarrow> (flow_dry_run \<times> 'w, channel_sample list) io" where
  "udp_dry_checkpoint = dry_checkpoint udp_dry_sample"

text \<open>The remaining names of the second module.\<close>

definition udp_flow_key_identity :: "flow_key \<Rightarrow> ident8" where
  "udp_flow_key_identity = flow_key_identity"

definition udp_flow_value_counters :: "flow_value \<Rightarrow> flow_counters" where
  "udp_flow_value_counters = flow_value_counters"

definition udp_channel_to_dict :: "(int \<Rightarrow> string) \<Rightarrow> channel_sample \<Rightarrow> (string \<times> json) list" where
  "udp_channel_to_dict = channel_to_dict"

definition udp_channel_matches :: "channel_filter \<Rightarrow> channel_sample \<Rightarrow> bool" where
  "udp_channel_matches = channel_matches"

definition new_udp_channel_attachment :: "string \<Rightarrow> string \<Rightarrow> flow_attachment" where
  "new_udp_channel_attachment = new_flow_attachment"

definition udp_stderr_text :: "'w os \<Rightarrow> nat \<Rightarrow> (flow_attachment \<times> 'w, string) io" where
  "udp_stderr_text = stderr_text"

definition udp_close_stderr :: "(flow_attachment \<times> 'w, unit) io" where
  "udp_close_stderr = close_stderr"

definition udp_collector_unit_for_pid :: "'w os \<Rightarrow> int \<Rightarrow> (flow_collector \<times> 'w, string) io" where
  "udp_collector_unit_for_pid = collector_unit_for_pid"

definition new_udp_dry_run :: "channel_catalog \<Rightarrow> int \<Rightarrow> channel_filter option \<Rightarrow> flow_dry_run" where
  "new_udp_dry_run = new_flow_dry_run"

lemmas channel_modules =
  udp_flow_key_identity_def udp_flow_value_counters_def udp_channel_to_dict_def udp_channel_matches_def
  new_udp_channel_attachment_def udp_stderr_text_def udp_close_stderr_def udp_collector_unit_for_pid_def
  new_udp_dry_run_def
  validate_tcp_flow_key_def parse_tcp_flow_key_def parse_tcp_flow_value_def parse_tcp_flow_entry_def
  parse_tcp_channel_loader_status_def new_tcp_map_reader_def tcp_dump_entries_def tcp_btf_verdict_def
  kernel_tcp_recvmsg_old_def refuse_pre519_tcp_recvmsg_def tcp_channel_attach_def tcp_channel_ensure_alive_def
  new_tcp_channel_collector_def tcp_read_flows_def tcp_read_checkpoint_def validate_udp_flow_key_def
  parse_udp_flow_key_def parse_udp_flow_value_def parse_udp_flow_entry_def parse_udp_channel_loader_status_def
  new_udp_map_reader_def udp_dump_entries_def udp_btf_verdict_def kernel_udp_recvmsg_old_def
  refuse_pre519_udp_recvmsg_def udp_channel_attach_def udp_channel_ensure_alive_def new_udp_channel_collector_def
  udp_read_flows_def udp_read_checkpoint_def tcp_channel_detach_def udp_channel_detach_def
  close_tcp_channel_collector_def close_udp_channel_collector_def tcp_dry_checkpoint_def udp_dry_checkpoint_def

end
