(* ===== verification/Output.thy ===== *)
theory Output
  imports SimOs
begin

text \<open>
  \<open>output.py\<close>: one JSON line per sample, or a table. A sample is seen through its \<open>to_dict\<close>; the output
  stream and \<open>json.dumps\<close> are the fields of the record \<open>console\<close>.
\<close>

record 'w console =
  con_print :: "string \<Rightarrow> 'w \<Rightarrow> unit \<times> 'w"
  con_dumps :: "bool \<Rightarrow> json \<Rightarrow> string"

type_synonym dict = "(string \<times> json) list"

definition TABLE_COLUMNS :: "string list" where
  "TABLE_COLUMNS =
     [''ts'', ''layer'', ''src_ip'', ''src_port'', ''dst_ip'', ''dst_port'', ''ifname'', ''process_name'',
      ''host_pid'', ''packets'', ''bytes'']"

definition CHANNEL_TABLE_COLUMNS :: "string list" where
  "CHANNEL_TABLE_COLUMNS =
     [''ts'', ''layer'', ''channel'', ''unit'', ''host'', ''dst_ip'', ''dst_port'', ''tx_bytes'', ''rx_bytes'',
      ''connections'', ''status'']"

definition dict_get :: "dict \<Rightarrow> string \<Rightarrow> json \<Rightarrow> json" where
  "dict_get d k dflt = (case map_of d k of None \<Rightarrow> dflt | Some v \<Rightarrow> v)"

definition table_columns :: "dict list \<Rightarrow> string list" where
  "table_columns samples =
     (if list_ex (\<lambda>d. map_of d ''layer'' = Some (JStr ''tcp_channel'')) samples
      then CHANNEL_TABLE_COLUMNS else TABLE_COLUMNS)"

definition ljust :: "nat \<Rightarrow> string \<Rightarrow> string" where
  "ljust width s = s @ replicate (width - length s) (CHR '' '')"

definition table_row :: "'w os \<Rightarrow> string list \<Rightarrow> dict \<Rightarrow> string list" where
  "table_row os columns d = map (\<lambda>column. py_str os (dict_get d column (JStr []))) columns"

text \<open>\<open>max(len(column), *(len(row[index]) for row in rows))\<close>.\<close>

definition column_width :: "string list list \<Rightarrow> nat \<Rightarrow> string \<Rightarrow> nat" where
  "column_width rows index column = fold max (map (\<lambda>row. length (row ! index)) rows) (length column)"

definition column_widths :: "string list \<Rightarrow> string list list \<Rightarrow> nat list" where
  "column_widths columns rows = map (\<lambda>(index, column). column_width rows index column) (enumerate 0 columns)"

definition table_line :: "nat list \<Rightarrow> string list \<Rightarrow> string" where
  "table_line widths cells = join ''  '' (map (\<lambda>(index, cell). ljust (widths ! index) cell) (enumerate 0 cells))"

definition table_lines :: "'w os \<Rightarrow> dict list \<Rightarrow> string list" where
  "table_lines os samples =
     (if samples = [] then [''(no samples)''] else
      let columns = table_columns samples;
          rows = map (table_row os columns) samples;
          widths = column_widths columns rows
      in table_line widths columns
         # join ''  '' (map (\<lambda>width. replicate width (CHR ''-'')) widths)
         # map (table_line widths) rows)"

fun print_lines :: "'w console \<Rightarrow> string list \<Rightarrow> ('w, unit) io" where
  "print_lines con [] = io_return ()"
| "print_lines con (l # ls) = io_bind (io_op (con_print con l)) (\<lambda>_. print_lines con ls)"

definition emit_samples ::
  "'w os \<Rightarrow> 'w console \<Rightarrow> ('s \<Rightarrow> dict) \<Rightarrow> 's list \<Rightarrow> string \<Rightarrow> ('w, unit) io" where
  "emit_samples os con to_dict samples mode =
     (if mode = ''none'' then io_return ()
      else if mode = ''json'' then print_lines con (map (\<lambda>s. con_dumps con True (JObj (to_dict s))) samples)
      else if mode = ''table'' then print_lines con (table_lines os (map to_dict samples))
      else io_raise ValueError)"

section \<open>The table\<close>

lemma fold_max_ge:
  fixes x :: nat
  shows "y \<in> set (x # ys) \<Longrightarrow> y \<le> fold max ys x"
  unfolding Max.set_eq_fold [symmetric] by (rule Max_ge) simp_all

lemma length_ljust: "length s \<le> width \<Longrightarrow> length (ljust width s) = width"
  by (simp add: ljust_def)

text \<open>Where the i-th part of a join starts.\<close>

definition part_offset :: "string \<Rightarrow> nat list \<Rightarrow> nat \<Rightarrow> nat" where
  "part_offset sep lens i = sum_list (take i lens) + i * length sep"

lemma join_part:
  "i < length ps \<Longrightarrow> take (length (ps ! i)) (drop (part_offset sep (map length ps) i) (join sep ps)) = ps ! i"
proof (induction sep ps arbitrary: i rule: join.induct)
  case (3 sep p q ps)
  show ?case
  proof (cases i)
    case (Suc j)
    have "drop (part_offset sep (map length (p # q # ps)) i) (join sep (p # q # ps)) =
        drop (part_offset sep (map length (q # ps)) j) (join sep (q # ps))"
      by (simp add: Suc part_offset_def drop_append)
    with 3 Suc show ?thesis by simp
  qed (simp add: part_offset_def)
qed (simp_all add: part_offset_def)

lemma length_join:
  "length (join sep ps) = sum_list (map length ps) + (length ps - 1) * length sep"
  by (induction sep ps rule: join.induct) auto

lemma nth_column_widths:
  "i < length columns \<Longrightarrow> column_widths columns rows ! i = column_width rows i (columns ! i)"
  by (simp add: column_widths_def nth_enumerate_eq)

lemma width_covers:
  "i < length columns \<Longrightarrow> length (columns ! i) \<le> column_widths columns rows ! i"
  "i < length columns \<Longrightarrow> row \<in> set rows \<Longrightarrow> length (row ! i) \<le> column_widths columns rows ! i"
  by (simp_all add: nth_column_widths column_width_def fold_max_ge)

lemma length_column_widths [simp]: "length (column_widths columns rows) = length columns"
  by (simp add: column_widths_def)

lemma table_line_cells:
  assumes len: "length cells = length widths" and fits: "\<And>i. i < length cells \<Longrightarrow> length (cells ! i) \<le> widths ! i"
  shows "length (table_line widths cells) = sum_list widths + (length widths - 1) * 2"
    and "i < length cells \<Longrightarrow>
      take (length (cells ! i)) (drop (part_offset ''  '' widths i) (table_line widths cells)) = cells ! i"
proof -
  let ?parts = "map (\<lambda>(index, cell). ljust (widths ! index) cell) (enumerate 0 cells)"
  have nth: "?parts ! i = ljust (widths ! i) (cells ! i)" if "i < length cells" for i
    using that by (simp add: nth_enumerate_eq)
  have lens: "map length ?parts = widths"
    by (rule nth_equalityI) (use len nth fits in \<open>auto simp: length_ljust\<close>)
  show "length (table_line widths cells) = sum_list widths + (length widths - 1) * 2"
    using length_join [of "''  ''" ?parts] lens len by (simp add: table_line_def)
  assume i: "i < length cells"
  have "take (widths ! i) (drop (part_offset ''  '' widths i) (table_line widths cells)) = ljust (widths ! i) (cells ! i)"
    using join_part [of i ?parts "''  ''"] i nth [OF i] fits [OF i] len
    by (simp add: table_line_def lens [simplified] length_ljust)
  then have "take (length (cells ! i)) (take (widths ! i) (drop (part_offset ''  '' widths i) (table_line widths cells))) = cells ! i"
    by (simp add: ljust_def)
  then show "take (length (cells ! i)) (drop (part_offset ''  '' widths i) (table_line widths cells)) = cells ! i"
    using fits [OF i] by (simp add: min_def)
qed

text \<open>(C34) The table is aligned and loses nothing. Every line of a table has the same length, and in the
  line of every sample each cell stands, unshortened, at the offset where its column's title stands.\<close>

theorem table_aligned:
  assumes lines: "table_lines os samples = title # rule_line # body" and rows: "samples \<noteq> []"
    and j: "j < length samples" and i: "i < length (table_columns samples)"
  shows "length body = length samples \<and> (\<exists>widths.
    (\<forall>l \<in> set (title # rule_line # body). length l = sum_list widths + (length widths - 1) * 2) \<and>
    take (length (table_columns samples ! i)) (drop (part_offset ''  '' widths i) title) = table_columns samples ! i \<and>
    (let cell = py_str os (dict_get (samples ! j) (table_columns samples ! i) (JStr []))
     in take (length cell) (drop (part_offset ''  '' widths i) (body ! j)) = cell))"
proof -
  let ?columns = "table_columns samples" and ?rows = "map (table_row os (table_columns samples)) samples"
  let ?w = "column_widths ?columns ?rows"
  have eq: "title = table_line ?w ?columns" "body = map (table_line ?w) ?rows"
      "rule_line = join ''  '' (map (\<lambda>width. replicate width (CHR ''-'')) ?w)"
    using lines rows by (simp_all add: table_lines_def Let_def)
  have len: "length row = length ?columns" if "row \<in> set ?rows" for row
    using that by (auto simp: table_row_def)
  have "length (table_line ?w row) = sum_list ?w + (length ?w - 1) * 2" if row: "row \<in> set ?rows" for row
    by (rule table_line_cells(1)) (use len [OF row] width_covers(2) [OF _ row] in simp_all)
  moreover have "length title = sum_list ?w + (length ?w - 1) * 2"
    unfolding eq by (rule table_line_cells(1)) (use width_covers(1) in simp_all)
  moreover have "length rule_line = sum_list ?w + (length ?w - 1) * 2"
    unfolding eq length_join by (simp add: comp_def)
  moreover have "take (length (?columns ! i)) (drop (part_offset ''  '' ?w i) title) = ?columns ! i"
    unfolding eq by (rule table_line_cells(2)) (use width_covers(1) i in simp_all)
  moreover have "take (length (?rows ! j ! i)) (drop (part_offset ''  '' ?w i) (body ! j)) = ?rows ! j ! i"
  proof -
    have mem: "?rows ! j \<in> set ?rows" using j by (intro nth_mem) simp
    have "take (length (?rows ! j ! i)) (drop (part_offset ''  '' ?w i) (table_line ?w (?rows ! j))) = ?rows ! j ! i"
      by (rule table_line_cells(2)) (use len [OF mem] width_covers(2) [OF _ mem] i in simp_all)
    moreover have "body ! j = table_line ?w (?rows ! j)" using j by (simp add: eq)
    ultimately show ?thesis by simp
  qed
  moreover have "?rows ! j ! i = py_str os (dict_get (samples ! j) (?columns ! i) (JStr []))"
    using i j by (simp add: table_row_def)
  ultimately show ?thesis by (auto simp: eq Let_def intro!: exI [of _ ?w])
qed

definition demo_dict :: "string \<Rightarrow> dict" where
  "demo_dict nm = [(''ts'', JStr ''t''), (''layer'', JStr ''ingress''), (''src_ip'', JStr ''10.0.0.1''), (''ifname'', JStr nm)]"

lemma table_aligned_witness:
  "\<exists>title rule_line body widths. table_lines (sim_os []) [demo_dict ''lo'', demo_dict ''enp0s31f6''] = title # rule_line # body \<and>
    take 9 (drop (part_offset ''  '' widths 6) (body ! 1)) = ''enp0s31f6''"
proof -
  let ?ds = "[demo_dict ''lo'', demo_dict ''enp0s31f6'']"
  obtain title rule_line body where lines: "table_lines (sim_os []) ?ds = title # rule_line # body"
    by (simp add: table_lines_def Let_def)
  have cols: "table_columns ?ds = TABLE_COLUMNS"
    by (simp add: table_columns_def demo_dict_def)
  have i: "6 < length (table_columns ?ds)" unfolding cols by (simp add: TABLE_COLUMNS_def)
  have cell: "py_str (sim_os []) (dict_get (?ds ! 1) (table_columns ?ds ! 6) (JStr [])) = ''enp0s31f6''"
    unfolding cols by (simp add: TABLE_COLUMNS_def demo_dict_def dict_get_def py_str_def)
  from table_aligned [OF lines _ _ i, of 1] have "\<exists>widths. let cell = ''enp0s31f6''
      in take (length cell) (drop (part_offset ''  '' widths 6) (body ! 1)) = cell"
    unfolding cell by auto
  moreover have "length ''enp0s31f6'' = 9" by simp
  ultimately show ?thesis using lines unfolding Let_def by metis
qed

section \<open>What is printed\<close>

text \<open>A trace of the lines printed so far.\<close>

definition prints :: "'w console \<Rightarrow> ('w \<Rightarrow> string list) \<Rightarrow> bool" where
  "prints con shown \<longleftrightarrow> (\<forall>l w. shown (snd (con_print con l w)) = shown w @ [l])"

lemma print_lines_shown:
  "prints con shown \<Longrightarrow> print_lines con ls w = (r, w') \<Longrightarrow> shown w' = shown w @ ls \<and> r = Inr ()"
proof (induction ls arbitrary: w)
  case (Cons l ls)
  obtain u w1 where p: "con_print con l w = (u, w1)" by (metis surj_pair)
  with Cons.prems have "print_lines con ls w1 = (r, w')" by (simp add: io_bind_def io_op_def)
  from Cons.IH [OF Cons.prems(1) this] have "shown w' = shown w1 @ ls \<and> r = Inr ()" .
  moreover have "shown w1 = shown w @ [l]" using Cons.prems(1) p by (metis prints_def snd_conv)
  ultimately show ?case by simp
qed (simp add: io_return_def)

text \<open>Output modes. JSON prints one line per sample in their order, the table its lines, \<open>none\<close>
  nothing; these never raise, and any other mode raises before it prints.\<close>

theorem emit_samples_prints:
  assumes shows_lines: "prints con shown" and run: "emit_samples os con to_dict samples mode w = (r, w')"
  shows "shown w' = shown w @
      (if mode = ''json'' then map (\<lambda>s. con_dumps con True (JObj (to_dict s))) samples
       else if mode = ''table'' then table_lines os (map to_dict samples) else []) \<and>
    r = (if mode \<in> {''none'', ''json'', ''table''} then Inr () else Inl ValueError)"
  using run print_lines_shown [OF shows_lines]
  by (auto simp: emit_samples_def io_return_def io_raise_def split: if_splits)

definition sim_console :: "string list console" where
  "sim_console = \<lparr>con_print = (\<lambda>l w. ((), w @ [l])), con_dumps = (\<lambda>_ v. (case v of JStr s \<Rightarrow> s | _ \<Rightarrow> ''{}''))\<rparr>"

lemma emit_samples_prints_witness:
  "\<exists>r w'. emit_samples undefined sim_console (\<lambda>s. [(''ts'', JStr s)]) [''a'', ''b''] ''json'' [''x''] = (r, w') \<and>
    w' = [''x'', ''{}'', ''{}'']"
proof -
  have p: "prints sim_console id" by (simp add: prints_def sim_console_def)
  obtain r w' where run: "emit_samples undefined sim_console (\<lambda>s. [(''ts'', JStr s)]) [''a'', ''b''] ''json'' [''x''] = (r, w')"
    by (metis surj_pair)
  from emit_samples_prints [OF p run] run show ?thesis by (simp add: sim_console_def)
qed

end
