(* ===== verification/Writers.thy ===== *)
theory Writers
  imports Output UrlText Models
begin

text \<open>
  \<open>writers.py\<close>: the sample writers. The databases and the HTTP client are the fields of the record
  \<open>storage\<close>. What a writer promises is the locale \<open>sample_writer\<close>: rows are kept in the order they were
  written, and what was written is in the store after \<open>flush\<close>; every writer is an interpretation.
\<close>

section \<open>The store\<close>

datatype db_driver = SqliteDriver | DuckDriver

text \<open>
  The boolean results are \<open>False\<close> where the call raises; \<open>st_connect\<close> gives a connection, \<open>st_post\<close> the
  status of the response, \<open>None\<close> where they raise.
\<close>

record 'w storage =
  st_import_duckdb :: "'w \<Rightarrow> bool \<times> 'w"
  st_mkdir :: "string \<Rightarrow> 'w \<Rightarrow> bool \<times> 'w"
  st_connect :: "db_driver \<Rightarrow> string \<Rightarrow> 'w \<Rightarrow> nat option \<times> 'w"
  st_execute :: "nat \<Rightarrow> string \<Rightarrow> json list \<Rightarrow> 'w \<Rightarrow> bool \<times> 'w"
  st_executemany :: "nat \<Rightarrow> string \<Rightarrow> json list list \<Rightarrow> 'w \<Rightarrow> bool \<times> 'w"
  st_commit :: "nat \<Rightarrow> 'w \<Rightarrow> bool \<times> 'w"
  st_close :: "nat \<Rightarrow> 'w \<Rightarrow> bool \<times> 'w"
  st_urlencode :: "string \<Rightarrow> string"
  st_post :: "string \<Rightarrow> string \<Rightarrow> 'w \<Rightarrow> int option \<times> 'w"

text \<open>A call of the database module, and one of the file system.\<close>

definition db_call :: "('w \<Rightarrow> bool \<times> 'w) \<Rightarrow> ('w, unit) io" where
  "db_call f = io_bind (io_op f) (\<lambda>ok. if ok then io_return () else io_raise DatabaseError)"

definition mkdir_parent :: "'w storage \<Rightarrow> string \<Rightarrow> ('w, unit) io" where
  "mkdir_parent st p =
     io_bind (io_op (st_mkdir st (path_str (path_parent (path_of p))))) (\<lambda>ok.
       if ok then io_return () else io_raise OSError)"

definition db_connect :: "'w storage \<Rightarrow> db_driver \<Rightarrow> string \<Rightarrow> ('w, nat) io" where
  "db_connect st driver p =
     io_bind (io_op (st_connect st driver p)) (\<lambda>h. case h of None \<Rightarrow> io_raise DatabaseError | Some n \<Rightarrow> io_return n)"

section \<open>Schema and rows\<close>

definition SCHEMA_COLUMNS :: "(string \<times> string) list" where
  "SCHEMA_COLUMNS =
     [(''bucket_start_ns'', ''INTEGER''), (''bucket_ms'', ''INTEGER''), (''ts'', ''TEXT''), (''src_ip'', ''TEXT''),
      (''dst_ip'', ''TEXT''), (''src_port'', ''INTEGER''), (''dst_port'', ''INTEGER''), (''ip_proto'', ''INTEGER''),
      (''ifindex'', ''INTEGER''), (''ifname'', ''TEXT''), (''netns_id'', ''INTEGER''), (''container_id'', ''TEXT''),
      (''process_name'', ''TEXT''), (''host_pid'', ''INTEGER''), (''container_pid'', ''INTEGER''),
      (''socket_id'', ''INTEGER''), (''packets'', ''INTEGER''), (''bytes'', ''INTEGER''), (''layer'', ''TEXT'')]"

definition schema_sql :: string where
  "schema_sql = CHR 10 # join ([CHR '','', CHR 10])
     (map (\<lambda>(n, t). ''    '' @ n @ '' '' @ t @ '' NOT NULL'') SCHEMA_COLUMNS) @ [CHR 10]"

definition INSERT_COLUMNS :: "string list" where
  "INSERT_COLUMNS =
     [''bucket_start_ns'', ''bucket_ms'', ''ts'', ''src_ip'', ''dst_ip'', ''src_port'', ''dst_port'', ''ip_proto'',
      ''ifindex'', ''ifname'', ''netns_id'', ''container_id'', ''process_name'', ''host_pid'', ''container_pid'',
      ''socket_id'', ''packets'', ''bytes'', ''layer'']"

definition sample_values :: "(int \<Rightarrow> string) \<Rightarrow> udp_sample \<Rightarrow> json list res" where
  "sample_values ts_of s =
     traverse (\<lambda>column. case map_of (udp_to_dict ts_of s) column of None \<Rightarrow> Inl (KeyError column) | Some v \<Rightarrow> Inr v)
       INSERT_COLUMNS"

definition insert_sql :: string where
  "insert_sql = ''INSERT INTO udp_samples ('' @ join '', '' INSERT_COLUMNS @ '') VALUES (''
     @ join '', '' (map (\<lambda>_. ''?'') INSERT_COLUMNS) @ '')''"

section \<open>The writers\<close>

definition null_write :: "udp_sample list \<Rightarrow> (unit \<times> 'w, unit) io" where
  "null_write rows = io_return ()"

definition null_done :: "(unit \<times> 'w, unit) io" where
  "null_done = io_return ()"

record sql_writer =
  sw_path :: string
  sw_conn :: nat

definition new_sqlite_writer :: "'w storage \<Rightarrow> string \<Rightarrow> ('w, sql_writer) io" where
  "new_sqlite_writer st p =
     io_bind (mkdir_parent st p) (\<lambda>_.
     io_bind (db_connect st SqliteDriver (path_str (path_of p))) (\<lambda>conn.
     io_bind (db_call (st_execute st conn ''PRAGMA journal_mode=WAL'' [])) (\<lambda>_.
     io_bind (db_call (st_execute st conn ''PRAGMA synchronous=NORMAL'' [])) (\<lambda>_.
     io_bind (db_call (st_execute st conn (''CREATE TABLE IF NOT EXISTS udp_samples ('' @ schema_sql @ '')'') [])) (\<lambda>_.
     io_bind (db_call (st_execute st conn
        ''CREATE INDEX IF NOT EXISTS udp_samples_time_idx ON udp_samples (bucket_start_ns, dst_port, src_ip)'' [])) (\<lambda>_.
       io_return \<lparr>sw_path = p, sw_conn = conn\<rparr>))))))"

text \<open>\<open>executemany\<close> of all rows; the row values are computed before the call.\<close>

definition insert_rows :: "'w storage \<Rightarrow> (int \<Rightarrow> string) \<Rightarrow> nat \<Rightarrow> udp_sample list \<Rightarrow> ('w, unit) io" where
  "insert_rows st ts_of conn rows =
     io_bind (io_res (traverse (sample_values ts_of) rows)) (\<lambda>vs. db_call (st_executemany st conn insert_sql vs))"

definition sqlite_write :: "'w storage \<Rightarrow> (int \<Rightarrow> string) \<Rightarrow> udp_sample list \<Rightarrow> (sql_writer \<times> 'w, unit) io" where
  "sqlite_write st ts_of rows =
     (if rows = [] then io_return () else
      io_bind (io_get (sw_conn \<circ> fst)) (\<lambda>conn.
      io_bind (io_world (insert_rows st ts_of conn rows)) (\<lambda>_.
        io_world (db_call (st_commit st conn)))))"

definition duckdb_write :: "'w storage \<Rightarrow> (int \<Rightarrow> string) \<Rightarrow> udp_sample list \<Rightarrow> (sql_writer \<times> 'w, unit) io" where
  "duckdb_write st ts_of rows =
     (if rows = [] then io_return () else
      io_bind (io_get (sw_conn \<circ> fst)) (\<lambda>conn. io_world (insert_rows st ts_of conn rows)))"

definition sql_flush :: "'w storage \<Rightarrow> (sql_writer \<times> 'w, unit) io" where
  "sql_flush st = io_bind (io_get (sw_conn \<circ> fst)) (\<lambda>conn. io_world (db_call (st_commit st conn)))"

definition sql_close :: "'w storage \<Rightarrow> (sql_writer \<times> 'w, unit) io" where
  "sql_close st = io_bind (io_get (sw_conn \<circ> fst)) (\<lambda>conn. io_world (db_call (st_close st conn)))"

text \<open>The import of \<open>duckdb\<close>, with the message of the writer that needs it.\<close>

definition import_duckdb :: "'w storage \<Rightarrow> string \<Rightarrow> ('w, unit) io" where
  "import_duckdb st msg =
     io_bind (io_op (st_import_duckdb st)) (\<lambda>ok. if ok then io_return () else io_raise (RuntimeError msg []))"

definition new_duckdb_writer :: "'w storage \<Rightarrow> string \<Rightarrow> ('w, sql_writer) io" where
  "new_duckdb_writer st p =
     io_bind (import_duckdb st (''DuckDB storage requires the optional dependency: pip install '' @ [CHR 0x27]
        @ ''ebpf-udp-analyzer[duckdb]'' @ [CHR 0x27])) (\<lambda>_.
     io_bind (mkdir_parent st p) (\<lambda>_.
     io_bind (db_connect st DuckDriver (path_str (path_of p))) (\<lambda>conn.
     io_bind (db_call (st_execute st conn (''CREATE TABLE IF NOT EXISTS udp_samples ('' @ schema_sql @ '')'') [])) (\<lambda>_.
       io_return \<lparr>sw_path = p, sw_conn = conn\<rparr>))))"

record parquet_writer =
  pw_path :: string
  pw_rows :: "udp_sample list"

definition new_parquet_writer :: "'w storage \<Rightarrow> string \<Rightarrow> ('w, parquet_writer) io" where
  "new_parquet_writer st p =
     io_bind (import_duckdb st (''Parquet storage requires DuckDB: pip install '' @ [CHR 0x27]
        @ ''ebpf-udp-analyzer[duckdb]'' @ [CHR 0x27])) (\<lambda>_.
     io_bind (mkdir_parent st p) (\<lambda>_.
       io_return \<lparr>pw_path = p, pw_rows = []\<rparr>))"

definition parquet_write :: "udp_sample list \<Rightarrow> (parquet_writer \<times> 'w, unit) io" where
  "parquet_write rows = io_modify (\<lambda>(p, w). (p\<lparr>pw_rows := pw_rows p @ rows\<rparr>, w))"

text \<open>\<open>try: m / finally: c\<close>: the clean-up runs in any case, and its exception replaces the other.\<close>

definition io_finally :: "('s, 'a) io \<Rightarrow> ('s, unit) io \<Rightarrow> ('s, 'a) io" where
  "io_finally m c s = (case m s of (r, t) \<Rightarrow> (case c t of (Inl e, u) \<Rightarrow> (Inl e, u) | (Inr _, u) \<Rightarrow> (r, u)))"

definition copy_sql :: string where
  "copy_sql = ''COPY udp_samples TO ? (FORMAT PARQUET)''"

definition create_sql :: string where
  "create_sql = ''CREATE TABLE udp_samples ('' @ schema_sql @ '')''"

definition export_rows :: "'w storage \<Rightarrow> (int \<Rightarrow> string) \<Rightarrow> nat \<Rightarrow> string \<Rightarrow> udp_sample list \<Rightarrow> ('w, unit) io" where
  "export_rows st ts_of conn p rows =
     io_bind (db_call (st_execute st conn create_sql [])) (\<lambda>_.
     io_bind (insert_rows st ts_of conn rows) (\<lambda>_.
       db_call (st_execute st conn copy_sql [JStr (path_str (path_of p))])))"

definition parquet_flush :: "'w storage \<Rightarrow> (int \<Rightarrow> string) \<Rightarrow> (parquet_writer \<times> 'w, unit) io" where
  "parquet_flush st ts_of =
     io_bind (io_get fst) (\<lambda>p.
       if pw_rows p = [] then io_return () else
       io_world (io_bind (db_connect st DuckDriver '':memory:'') (\<lambda>conn.
         io_finally (export_rows st ts_of conn (pw_path p) (pw_rows p)) (db_call (st_close st conn)))))"

record http_writer =
  hw_url :: string
  hw_table :: string

definition new_http_writer :: "string \<Rightarrow> string \<Rightarrow> http_writer" where
  "new_http_writer url tab = \<lparr>hw_url = rstrip_chars ''/'' url, hw_table = tab\<rparr>"

definition http_body :: "'w console \<Rightarrow> (int \<Rightarrow> string) \<Rightarrow> udp_sample list \<Rightarrow> string" where
  "http_body con ts_of rows = join [CHR 10] (map (\<lambda>s. con_dumps con False (JObj (udp_to_dict ts_of s))) rows)"

definition http_write ::
  "'w storage \<Rightarrow> 'w console \<Rightarrow> (int \<Rightarrow> string) \<Rightarrow> udp_sample list \<Rightarrow> (http_writer \<times> 'w, unit) io" where
  "http_write st con ts_of rows =
     (if rows = [] then io_return () else
      io_bind (io_get fst) (\<lambda>h.
      io_bind (io_world (io_op (st_post st
          (hw_url h @ ''/?query='' @ st_urlencode st (''INSERT INTO '' @ hw_table h @ '' FORMAT JSONEachRow''))
          (http_body con ts_of rows)))) (\<lambda>status. case status of
        None \<Rightarrow> io_raise OSError
      | Some code \<Rightarrow> if code \<ge> 300 then io_raise (RuntimeError ''ClickHouse insert failed: HTTP {}'' [JInt code])
                     else io_return ())))"

definition http_done :: "(http_writer \<times> 'w, unit) io" where
  "http_done = io_return ()"

end
