(* ===== verification/Cli.thy ===== *)
theory Cli
  imports Collectors FlowCollector Writers
begin

text \<open>
  \<open>cli.py\<close>: the arguments with their defaults, the choice of collector and writer, the two run loops with
  their clean-up, and \<open>main\<close>. \<open>argparse\<close> is a library: the parsed arguments are records here.

  A signal is delivered between two statements of the loop: \<open>rt_signal\<close> says whether one arrived, and the
  handler then raises \<open>KeyboardInterrupt\<close>. The handler sets \<open>stopping\<close> only when it raises, so the loop
  never sees it set.
\<close>

section \<open>Arguments\<close>

record 'w runtime =
  rt_os :: "'w os"
  rt_console :: "'w console"
  rt_storage :: "'w storage"
  rt_ts :: "int \<Rightarrow> string"
  rt_sleep :: "rat \<Rightarrow> 'w \<Rightarrow> unit \<times> 'w"
  rt_signal :: "'w \<Rightarrow> bool \<times> 'w"

record run_args =
  an_collector :: string
  an_bucket_ms :: int
  an_watch :: bool
  an_duration :: "rat option"
  an_output :: string
  an_storage :: string
  an_db_path :: string
  an_clickhouse_url :: string
  an_clickhouse_table :: string
  an_interface :: "string option"
  an_bpf_object :: string
  an_bpf_section :: string
  an_tc_pref :: int
  an_delivery_attribution :: "string option"
  an_receive_bpf_object :: string
  an_receive_loader :: string
  an_receive_hook :: string
  an_receive_map_id :: "int option"
  an_no_attach :: bool
  an_keep_attached :: bool
  an_enrich_processes :: bool
  an_src_ip :: "string option"
  an_dst_ip :: "string option"
  an_src_port :: "int option"
  an_dst_port :: "int option"
  an_ifname :: "string option"
  an_process_name :: "string option"
  an_layer :: "string option"

text \<open>\<open>udp-analyzer run\<close> without options.\<close>

definition run_defaults :: run_args where
  "run_defaults =
     \<lparr>an_collector = ''dry-run'', an_bucket_ms = 1000, an_watch = False, an_duration = None, an_output = ''table'',
      an_storage = ''none'', an_db_path = ''data/udp_analyzer.sqlite'', an_clickhouse_url = ''http://localhost:8123'',
      an_clickhouse_table = ''udp_samples'', an_interface = None, an_bpf_object = ''bpf/udp_ingress.bpf.o'',
      an_bpf_section = ''classifier/udp_ingress'', an_tc_pref = 49152, an_delivery_attribution = None,
      an_receive_bpf_object = ''bpf/udp_receive.bpf.o'', an_receive_loader = ''bpf/udp_receive_loader'',
      an_receive_hook = ''auto'', an_receive_map_id = None, an_no_attach = False, an_keep_attached = False,
      an_enrich_processes = False, an_src_ip = None, an_dst_ip = None, an_src_port = None, an_dst_port = None,
      an_ifname = None, an_process_name = None, an_layer = None\<rparr>"

text \<open>The \<open>choices\<close> of the parser.\<close>

definition run_choices :: "run_args \<Rightarrow> bool" where
  "run_choices a \<longleftrightarrow>
     an_collector a \<in> {''dry-run'', ''ebpf''} \<and> an_output a \<in> {''table'', ''json'', ''none''} \<and>
     an_storage a \<in> {''none'', ''sqlite'', ''duckdb'', ''parquet'', ''clickhouse''} \<and>
     (case an_delivery_attribution a of None \<Rightarrow> True | Some d \<Rightarrow> d \<in> {''auto'', ''cookie'', ''legacy'', ''none''}) \<and>
     an_receive_hook a \<in> {''auto'', ''fentry'', ''kprobe''} \<and>
     (case an_layer a of None \<Rightarrow> True | Some l \<Rightarrow> l \<in> {''ingress'', ''delivered''})"

record channel_args =
  ch_collector :: string
  ch_bucket_ms :: int
  ch_watch :: bool
  ch_duration :: "rat option"
  ch_output :: string
  ch_unit_dir :: "string list"
  ch_unit_file :: "string list"
  ch_no_default_unit_dirs :: bool
  ch_no_resolve_dns :: bool
  ch_tcp_bpf_object :: string
  ch_tcp_loader :: string
  ch_tcp_map_id :: "int option"
  ch_no_attach :: bool
  ch_proto :: string
  ch_udp_bpf_object :: string
  ch_udp_loader :: string
  ch_udp_map_id :: "int option"
  ch_channel :: "string option"
  ch_unit :: "string option"
  ch_host :: "string option"
  ch_status :: "string option"

text \<open>\<open>udp-analyzer run-channels\<close> without options.\<close>

definition channel_defaults :: channel_args where
  "channel_defaults =
     \<lparr>ch_collector = ''dry-run'', ch_bucket_ms = 1000, ch_watch = False, ch_duration = None, ch_output = ''table'',
      ch_unit_dir = [], ch_unit_file = [], ch_no_default_unit_dirs = False, ch_no_resolve_dns = False,
      ch_tcp_bpf_object = ''bpf/tcp_channel.bpf.o'', ch_tcp_loader = ''bpf/tcp_channel_loader'', ch_tcp_map_id = None,
      ch_no_attach = False, ch_proto = ''tcp'', ch_udp_bpf_object = ''bpf/udp_channel.bpf.o'',
      ch_udp_loader = ''bpf/udp_channel_loader'', ch_udp_map_id = None, ch_channel = None, ch_unit = None,
      ch_host = None, ch_status = None\<rparr>"

definition channel_choices :: "channel_args \<Rightarrow> bool" where
  "channel_choices a \<longleftrightarrow>
     ch_collector a \<in> {''dry-run'', ''ebpf''} \<and> ch_output a \<in> {''table'', ''json'', ''none''} \<and>
     ch_proto a \<in> {''tcp'', ''udp''} \<and>
     (case ch_status a of None \<Rightarrow> True | Some s \<Rightarrow> s \<in> {''matched'', ''unknown_unit'', ''unexpected_flow''})"

section \<open>The loop\<close>

text \<open>
  \<open>while True: body; if stop: break; pause\<close>. The loop may run forever, so its value is an option; an
  exception leaves it at once.
\<close>

partial_function (option) poll_loop ::
  "('s, unit) io \<Rightarrow> ('s, bool) io \<Rightarrow> ('s, unit) io \<Rightarrow> 's \<Rightarrow> (unit res \<times> 's) option" where
  "poll_loop body stop pause s =
     (case body s of
        (Inl e, t) \<Rightarrow> Some (Inl e, t)
      | (Inr _, t) \<Rightarrow>
          (case stop t of
             (Inl e, u) \<Rightarrow> Some (Inl e, u)
           | (Inr b, u) \<Rightarrow>
               if b then Some (Inr (), u)
               else (case pause u of
                       (Inl e, v) \<Rightarrow> Some (Inl e, v)
                     | (Inr _, v) \<Rightarrow> poll_loop body stop pause v)))"

text \<open>The loop, \<open>except KeyboardInterrupt: pass\<close>, and the clean-up of \<open>finally\<close>.\<close>

definition guarded_run ::
  "('s, unit) io \<Rightarrow> ('s, bool) io \<Rightarrow> ('s, unit) io \<Rightarrow> ('s, unit) io \<Rightarrow> 's \<Rightarrow> (unit res \<times> 's) option" where
  "guarded_run body stop pause cleanup s =
     (case poll_loop body stop pause s of
        None \<Rightarrow> None
      | Some (r, t) \<Rightarrow>
          Some (io_finally (\<lambda>u. (if r = Inl KeyboardInterrupt then Inr () else r, u)) cleanup t))"

definition poll_signal :: "'w runtime \<Rightarrow> ('w, unit) io" where
  "poll_signal rt = io_bind (io_op (rt_signal rt)) (\<lambda>p. if p then io_raise KeyboardInterrupt else io_return ())"

text \<open>\<open>watch\<close> and \<open>deadline\<close> of both run functions, and their tests at the end of an iteration.\<close>

definition watching :: "bool \<Rightarrow> rat option \<Rightarrow> bool" where
  "watching watch duration = (watch \<or> duration \<noteq> None)"

definition run_deadline :: "'w os \<Rightarrow> rat option \<Rightarrow> ('w, rat option) io" where
  "run_deadline os duration =
     (case duration of
        None \<Rightarrow> io_return None
      | Some d \<Rightarrow> io_bind (io_op (os_monotonic os)) (\<lambda>now. io_return (Some (now + d))))"

definition run_stop :: "'w runtime \<Rightarrow> bool \<Rightarrow> rat option \<Rightarrow> ('w, bool) io" where
  "run_stop rt watch deadline =
     (if \<not> watch then io_return True else
      io_bind (case deadline of
           None \<Rightarrow> io_return False
         | Some d \<Rightarrow> io_bind (io_op (os_monotonic (rt_os rt))) (\<lambda>now. io_return (now \<ge> d))) (\<lambda>b.
      io_bind (poll_signal rt) (\<lambda>_. io_return b)))"

definition run_pause :: "'w runtime \<Rightarrow> int \<Rightarrow> ('w, unit) io" where
  "run_pause rt bucket_ms =
     io_bind (io_op (rt_sleep rt (of_int bucket_ms / 1000))) (\<lambda>_. poll_signal rt)"

section \<open>The UDP analyzer\<close>

datatype any_collector = DryRun dry_run_collector | Kernel ingress_collector

datatype any_writer =
    NoWriter
  | SqliteW sql_writer
  | DuckW sql_writer
  | ParquetW parquet_writer
  | HttpW http_writer

text \<open>A method of the object inside a constructor of a union.\<close>

definition io_case :: "('i \<Rightarrow> 'o) \<Rightarrow> 'i \<Rightarrow> ('i \<times> 'w, 'a) io \<Rightarrow> 'w \<Rightarrow> 'a res \<times> ('o \<times> 'w)" where
  "io_case wrap i m w = (case m (i, w) of (r, (i', w')) \<Rightarrow> (r, (wrap i', w')))"

definition truthy_text :: "string option \<Rightarrow> bool" where
  "truthy_text s = (case s of None \<Rightarrow> False | Some t \<Rightarrow> t \<noteq> [])"

definition run_filter :: "run_args \<Rightarrow> sample_filter" where
  "run_filter a =
     \<lparr>sf_src_ip = an_src_ip a, sf_dst_ip = an_dst_ip a, sf_src_port = an_src_port a, sf_dst_port = an_dst_port a,
      sf_ifname = an_ifname a, sf_process_name = an_process_name a, sf_layer = an_layer a\<rparr>"

definition wants_processes :: "run_args \<Rightarrow> bool" where
  "wants_processes a = (an_enrich_processes a \<or> truthy_text (an_process_name a))"

definition chosen_attribution :: "run_args \<Rightarrow> string" where
  "chosen_attribution a =
     (case an_delivery_attribution a of
        None \<Rightarrow> if wants_processes a then ''auto'' else ''none''
      | Some d \<Rightarrow> d)"

definition kernel_args :: "run_args \<Rightarrow> sample_filter \<Rightarrow> ingress_args" where
  "kernel_args a f =
     \<lparr>ia_ifname = an_interface a, ia_object_path = path_str (path_of (an_bpf_object a)), ia_section = an_bpf_section a,
      ia_pref = an_tc_pref a, ia_bucket_ms = an_bucket_ms a, ia_filter = Some f, ia_attach = \<not> an_no_attach a,
      ia_detach_on_close = \<not> an_keep_attached a,
      ia_enricher = (if chosen_attribution a \<noteq> ''none'' then Some (new_enricher (an_process_name a)) else None),
      ia_attribution = chosen_attribution a,
      ia_receive_object_path = path_str (path_of (an_receive_bpf_object a)),
      ia_receive_loader_path = path_str (path_of (an_receive_loader a)), ia_receive_hook = an_receive_hook a,
      ia_receive_map_id = an_receive_map_id a\<rparr>"

definition create_collector :: "'w os \<Rightarrow> run_args \<Rightarrow> sample_filter \<Rightarrow> ('w, any_collector) io" where
  "create_collector os a f =
     (if an_bucket_ms a \<le> 0 then io_raise (RuntimeError ''--bucket-ms must be greater than zero'' [])
      else if an_collector a = ''dry-run'' then io_return (DryRun (new_dry_run (an_bucket_ms a) (Some f)))
      else if an_collector a = ''ebpf'' then
        if chosen_attribution a = ''none'' \<and> wants_processes a
        then io_raise (RuntimeError
          ''--enrich-processes/--process-name cannot be combined with --delivery-attribution none'' [])
        else io_bind (new_ebpf_collector os (kernel_args a f)) (\<lambda>c. io_return (Kernel c))
      else io_raise (RuntimeError ''unsupported collector: {}'' [JStr (an_collector a)]))"

definition create_writer :: "'w storage \<Rightarrow> run_args \<Rightarrow> ('w, any_writer) io" where
  "create_writer st a =
     (if an_storage a = ''none'' then io_return NoWriter
      else if an_storage a = ''sqlite'' then io_bind (new_sqlite_writer st (an_db_path a)) (\<lambda>x. io_return (SqliteW x))
      else if an_storage a = ''duckdb'' then io_bind (new_duckdb_writer st (an_db_path a)) (\<lambda>x. io_return (DuckW x))
      else if an_storage a = ''parquet'' then io_bind (new_parquet_writer st (an_db_path a)) (\<lambda>x. io_return (ParquetW x))
      else if an_storage a = ''clickhouse'' then
        io_return (HttpW (new_http_writer (an_clickhouse_url a) (an_clickhouse_table a)))
      else io_raise (RuntimeError ''unsupported storage: {}'' [JStr (an_storage a)]))"

definition collector_read :: "'w os \<Rightarrow> (any_collector \<times> 'w, udp_sample list) io" where
  "collector_read os s =
     (case fst s of
        DryRun c \<Rightarrow> io_case DryRun c (dry_run_checkpoint os) (snd s)
      | Kernel c \<Rightarrow> io_case Kernel c (read_checkpoint os) (snd s))"

definition collector_close :: "'w os \<Rightarrow> (any_collector \<times> 'w, unit) io" where
  "collector_close os s =
     (case fst s of
        DryRun c \<Rightarrow> io_case DryRun c dry_run_close (snd s)
      | Kernel c \<Rightarrow> io_case Kernel c (close_collector os) (snd s))"

definition writer_save :: "'w runtime \<Rightarrow> udp_sample list \<Rightarrow> (any_writer \<times> 'w, unit) io" where
  "writer_save rt rows s =
     (case fst s of
        NoWriter \<Rightarrow> io_case (\<lambda>_. NoWriter) () (null_write rows) (snd s)
      | SqliteW x \<Rightarrow> io_case SqliteW x (sqlite_write (rt_storage rt) (rt_ts rt) rows) (snd s)
      | DuckW x \<Rightarrow> io_case DuckW x (duckdb_write (rt_storage rt) (rt_ts rt) rows) (snd s)
      | ParquetW x \<Rightarrow> io_case ParquetW x (parquet_write rows) (snd s)
      | HttpW x \<Rightarrow> io_case HttpW x (http_write (rt_storage rt) (rt_console rt) (rt_ts rt) rows) (snd s))"

definition writer_flush :: "'w runtime \<Rightarrow> (any_writer \<times> 'w, unit) io" where
  "writer_flush rt s =
     (case fst s of
        NoWriter \<Rightarrow> io_case (\<lambda>_. NoWriter) () null_done (snd s)
      | SqliteW x \<Rightarrow> io_case SqliteW x (sql_flush (rt_storage rt)) (snd s)
      | DuckW x \<Rightarrow> io_case DuckW x (sql_flush (rt_storage rt)) (snd s)
      | ParquetW x \<Rightarrow> io_case ParquetW x (parquet_flush (rt_storage rt) (rt_ts rt)) (snd s)
      | HttpW x \<Rightarrow> io_case HttpW x http_done (snd s))"

definition writer_close :: "'w runtime \<Rightarrow> (any_writer \<times> 'w, unit) io" where
  "writer_close rt s =
     (case fst s of
        NoWriter \<Rightarrow> io_case (\<lambda>_. NoWriter) () null_done (snd s)
      | SqliteW x \<Rightarrow> io_case SqliteW x (sql_close (rt_storage rt)) (snd s)
      | DuckW x \<Rightarrow> io_case DuckW x (sql_close (rt_storage rt)) (snd s)
      | ParquetW x \<Rightarrow> io_case ParquetW x (parquet_flush (rt_storage rt) (rt_ts rt)) (snd s)
      | HttpW x \<Rightarrow> io_case HttpW x http_done (snd s))"

record run_state =
  rs_collector :: any_collector
  rs_writer :: any_writer

definition on_collector :: "(any_collector \<times> 'w, 'a) io \<Rightarrow> (run_state \<times> 'w, 'a) io" where
  "on_collector = io_self rs_collector (\<lambda>c s. s\<lparr>rs_collector := c\<rparr>)"

definition on_writer :: "(any_writer \<times> 'w, 'a) io \<Rightarrow> (run_state \<times> 'w, 'a) io" where
  "on_writer = io_self rs_writer (\<lambda>x s. s\<lparr>rs_writer := x\<rparr>)"

text \<open>One iteration: read, emit, write.\<close>

definition run_body :: "'w runtime \<Rightarrow> run_args \<Rightarrow> (run_state \<times> 'w, unit) io" where
  "run_body rt a =
     io_bind (io_world (poll_signal rt)) (\<lambda>_.
     io_bind (on_collector (collector_read (rt_os rt))) (\<lambda>samples.
     io_bind (io_world (poll_signal rt)) (\<lambda>_.
     io_bind (io_world (emit_samples (rt_os rt) (rt_console rt) (udp_to_dict (rt_ts rt)) samples (an_output a))) (\<lambda>_.
     io_bind (io_world (poll_signal rt)) (\<lambda>_.
     io_bind (on_writer (writer_save rt samples)) (\<lambda>_.
       io_world (poll_signal rt)))))))"

text \<open>The \<open>finally\<close> block: the three calls in order, each only when the one before returned.\<close>

definition run_cleanup :: "'w runtime \<Rightarrow> (run_state \<times> 'w, unit) io" where
  "run_cleanup rt =
     io_bind (on_collector (collector_close (rt_os rt))) (\<lambda>_.
     io_bind (on_writer (writer_flush rt)) (\<lambda>_.
       on_writer (writer_close rt)))"

definition run_analyzer :: "'w runtime \<Rightarrow> run_args \<Rightarrow> 'w \<Rightarrow> (unit res \<times> 'w) option" where
  "run_analyzer rt a w =
     (case create_collector (rt_os rt) a (run_filter a) w of
        (Inl e, w1) \<Rightarrow> Some (Inl e, w1)
      | (Inr c, w1) \<Rightarrow>
     (case create_writer (rt_storage rt) a w1 of
        (Inl e, w2) \<Rightarrow> Some (Inl e, w2)
      | (Inr x, w2) \<Rightarrow>
     (case run_deadline (rt_os rt) (an_duration a) w2 of
        (Inl e, w3) \<Rightarrow> Some (Inl e, w3)
      | (Inr deadline, w3) \<Rightarrow>
          map_option (\<lambda>(r, s). (r, snd s))
            (guarded_run (run_body rt a) (io_world (run_stop rt (watching (an_watch a) (an_duration a)) deadline))
               (io_world (run_pause rt (an_bucket_ms a))) (run_cleanup rt)
               (\<lparr>rs_collector = c, rs_writer = x\<rparr>, w3)))))"

section \<open>The channel analyzer\<close>

datatype channel_collector =
    TcpDry flow_dry_run
  | UdpDry flow_dry_run
  | TcpKernel flow_collector
  | UdpKernel flow_collector

definition default_unit_dirs :: "'w os \<Rightarrow> path list" where
  "default_unit_dirs os =
     [Path (path_root (path_of (os_home os))) (path_parts (path_of (os_home os)) @ [''.config'', ''systemd'', ''user'']),
      path_of ''/etc/systemd/user'', path_of ''/usr/lib/systemd/user'']"

definition catalog_paths :: "'w os \<Rightarrow> channel_args \<Rightarrow> ('w, path list) io" where
  "catalog_paths os a =
     io_bind (io_traverse (\<lambda>d. io_bind (units_in_dir os (path_of d)) (\<lambda>ps. io_return (sort_paths ps))) (ch_unit_dir a)) (\<lambda>dirs.
     io_bind (if ch_no_default_unit_dirs a then io_return [] else default_user_unit_paths os (default_unit_dirs os)) (\<lambda>defaults.
       io_return (map path_of (ch_unit_file a) @ concat dirs @ defaults)))"

definition load_channel_catalog :: "'w os \<Rightarrow> channel_args \<Rightarrow> ('w, channel_catalog) io" where
  "load_channel_catalog os a =
     io_bind (catalog_paths os a) (\<lambda>paths.
     io_bind (load_channel_targets os paths) (\<lambda>targets.
       if ch_no_resolve_dns a then io_return \<lparr>cat_targets = targets\<rparr>
       else catalog_resolve os \<lparr>cat_targets = targets\<rparr>))"

definition channel_args_filter :: "channel_args \<Rightarrow> channel_filter" where
  "channel_args_filter a =
     \<lparr>cf_channel = ch_channel a, cf_unit = ch_unit a, cf_host = ch_host a, cf_status = ch_status a\<rparr>"

definition flow_args_of :: "channel_args \<Rightarrow> channel_catalog \<Rightarrow> channel_filter \<Rightarrow> string \<Rightarrow> string \<Rightarrow> int option \<Rightarrow> flow_args" where
  "flow_args_of a catalog f object_path loader_path map_id =
     \<lparr>fg_catalog = catalog, fg_bucket_ms = ch_bucket_ms a, fg_filter = Some f,
      fg_object_path = path_str (path_of object_path), fg_loader_path = path_str (path_of loader_path),
      fg_map_id = map_id, fg_attach = \<not> ch_no_attach a, fg_proc_root = ''/proc''\<rparr>"

definition create_channel_collector ::
  "'w os \<Rightarrow> channel_args \<Rightarrow> channel_filter \<Rightarrow> ('w, channel_collector) io" where
  "create_channel_collector os a f =
     (if ch_bucket_ms a \<le> 0 then io_raise (RuntimeError ''--bucket-ms must be greater than zero'' []) else
      io_bind (load_channel_catalog os a) (\<lambda>catalog.
        if ch_proto a = ''udp'' then
          if ch_collector a = ''dry-run'' then io_return (UdpDry (new_flow_dry_run catalog (ch_bucket_ms a) (Some f)))
          else if ch_collector a = ''ebpf'' then
            io_bind (new_udp_channel_collector os (flow_args_of a catalog f (ch_udp_bpf_object a) (ch_udp_loader a)
              (ch_udp_map_id a))) (\<lambda>c. io_return (UdpKernel c))
          else io_raise (RuntimeError ''unsupported channel collector: {}'' [JStr (ch_collector a)])
        else
          if ch_collector a = ''dry-run'' then io_return (TcpDry (new_flow_dry_run catalog (ch_bucket_ms a) (Some f)))
          else if ch_collector a = ''ebpf'' then
            io_bind (new_tcp_channel_collector os (flow_args_of a catalog f (ch_tcp_bpf_object a) (ch_tcp_loader a)
              (ch_tcp_map_id a))) (\<lambda>c. io_return (TcpKernel c))
          else io_raise (RuntimeError ''unsupported channel collector: {}'' [JStr (ch_collector a)])))"

definition channel_read :: "'w os \<Rightarrow> (channel_collector \<times> 'w, channel_sample list) io" where
  "channel_read os s =
     (case fst s of
        TcpDry c \<Rightarrow> io_case TcpDry c (tcp_dry_checkpoint os) (snd s)
      | UdpDry c \<Rightarrow> io_case UdpDry c (udp_dry_checkpoint os) (snd s)
      | TcpKernel c \<Rightarrow> io_case TcpKernel c (tcp_read_checkpoint os) (snd s)
      | UdpKernel c \<Rightarrow> io_case UdpKernel c (udp_read_checkpoint os) (snd s))"

definition channel_close :: "'w os \<Rightarrow> (channel_collector \<times> 'w, unit) io" where
  "channel_close os s =
     (case fst s of
        TcpKernel c \<Rightarrow> io_case TcpKernel c (close_tcp_channel_collector os) (snd s)
      | UdpKernel c \<Rightarrow> io_case UdpKernel c (close_udp_channel_collector os) (snd s)
      | _ \<Rightarrow> (Inr (), s))"

definition channel_body :: "'w runtime \<Rightarrow> channel_args \<Rightarrow> (channel_collector \<times> 'w, unit) io" where
  "channel_body rt a =
     io_bind (io_world (poll_signal rt)) (\<lambda>_.
     io_bind (channel_read (rt_os rt)) (\<lambda>samples.
     io_bind (io_world (poll_signal rt)) (\<lambda>_.
     io_bind (io_world (emit_samples (rt_os rt) (rt_console rt) (channel_to_dict (rt_ts rt)) samples (ch_output a))) (\<lambda>_.
       io_world (poll_signal rt)))))"

definition run_channel_analyzer :: "'w runtime \<Rightarrow> channel_args \<Rightarrow> 'w \<Rightarrow> (unit res \<times> 'w) option" where
  "run_channel_analyzer rt a w =
     (case create_channel_collector (rt_os rt) a (channel_args_filter a) w of
        (Inl e, w1) \<Rightarrow> Some (Inl e, w1)
      | (Inr c, w1) \<Rightarrow>
     (case run_deadline (rt_os rt) (ch_duration a) w1 of
        (Inl e, w2) \<Rightarrow> Some (Inl e, w2)
      | (Inr deadline, w2) \<Rightarrow>
          map_option (\<lambda>(r, s). (r, snd s))
            (guarded_run (channel_body rt a) (io_world (run_stop rt (watching (ch_watch a) (ch_duration a)) deadline))
               (io_world (run_pause rt (ch_bucket_ms a))) (channel_close (rt_os rt)) (c, w2))))"

section \<open>main\<close>

datatype command = NoCommand | RunCommand run_args | ChannelCommand channel_args

text \<open>The exit status; an exception that \<open>main\<close> does not catch stays one.\<close>

definition exit_status :: "(unit res \<times> 'w) option \<Rightarrow> (int res \<times> 'w) option" where
  "exit_status = map_option (\<lambda>(r, w). (case r of
       Inr _ \<Rightarrow> Inr 0
     | Inl e \<Rightarrow> (case e of KeyboardInterrupt \<Rightarrow> Inr 130 | RuntimeError _ _ \<Rightarrow> Inr 1 | _ \<Rightarrow> Inl e), w))"

definition main :: "'w runtime \<Rightarrow> command \<Rightarrow> 'w \<Rightarrow> (int res \<times> 'w) option" where
  "main rt cmd w =
     (case cmd of
        NoCommand \<Rightarrow> Some (Inr 2, w)
      | RunCommand a \<Rightarrow> exit_status (run_analyzer rt a w)
      | ChannelCommand a \<Rightarrow> exit_status (run_channel_analyzer rt a w))"

end
