(* ===== verification/IngressFacts.thy ===== *)
theory IngressFacts
  imports EbpfCollector SimOs
begin

text \<open>
  The UDP collector against its specification. \<open>ingress_spec\<close> says, without loops or dictionaries, which
  rows a checkpoint reports; the reader refines it. Runs of checkpoints conserve the counters.
\<close>

section \<open>Frames and interpretations\<close>

lemma frames_on_enricher [frame_intros]:
  "(\<And>e c. f (c\<lparr>ic_enricher := e\<rparr>) = f c) \<Longrightarrow> frames (f \<circ> fst) (on_enricher m d)"
  by (simp add: frames_def on_enricher_def split: option.splits prod.splits)

lemma frames_keep_matching [frame_intros]: "frames f (keep_matching rows)"
  unfolding keep_matching_def by (intro frame_intros)

lemma frames_ingress_emit:
  "(\<And>e c. f (c\<lparr>ic_enricher := e\<rparr>) = f c) \<Longrightarrow> frames (f \<circ> fst) (ingress_emit os b e first_entry i prev now)"
  unfolding ingress_emit_def Let_def by (intro frame_intros)

lemma frames_delivered_emit:
  "(\<And>e c. f (c\<lparr>ic_enricher := e\<rparr>) = f c) \<Longrightarrow> frames (f \<circ> fst) (delivered_emit os b e first_entry i prev now)"
  unfolding delivered_emit_def Let_def by (intro frame_intros)

interpretation ingress: delta_reader add_udp_counters zero_udp_counters ic_previous put_previous
    "ingress_emit os b e first_entry" for os :: "'w os" and b e first_entry
proof unfold_locales
  show "ic_previous (put_previous p ob) = p" for p ob by (simp add: put_previous_def)
  show "ic_previous (fst t) = ic_previous (fst s)"
    if "ingress_emit os b e first_entry i prev c s = (r, t)" for i prev c s r t
    using framesD [OF frames_ingress_emit that, of ic_previous] by simp
qed

interpretation delivered: delta_reader add_udp_counters zero_udp_counters ic_delivered_previous put_delivered
    "delivered_emit os b e first_entry" for os :: "'w os" and b e first_entry
proof unfold_locales
  show "ic_delivered_previous (put_delivered p ob) = p" for p ob by (simp add: put_delivered_def)
  show "ic_delivered_previous (fst t) = ic_delivered_previous (fst s)"
    if "delivered_emit os b e first_entry i prev c s = (r, t)" for i prev c s r t
    using framesD [OF frames_delivered_emit that, of ic_delivered_previous] by simp
qed

section \<open>Specification of a checkpoint\<close>

abbreviation entry_ident :: "udp_map_entry \<Rightarrow> ident7" where
  "entry_ident \<equiv> udp_key_identity \<circ> me_key"

text \<open>The counters of one identity: the sum over all entries of the dump that carry it.\<close>

definition flow_total :: "udp_map_entry list \<Rightarrow> ident7 \<Rightarrow> udp_map_counters" where
  "flow_total entries i =
     (let es = filter (\<lambda>x. entry_ident x = i) entries
      in \<lparr>mc_packets = sum_list (map (mc_packets \<circ> me_counters) es),
          mc_bytes = sum_list (map (mc_bytes \<circ> me_counters) es)\<rparr>)"

definition baseline_of :: "udp_map_entry list \<Rightarrow> (ident7 \<rightharpoonup> udp_map_counters)" where
  "baseline_of entries i = (if i \<in> entry_ident ` set entries then Some (flow_total entries i) else None)"

text \<open>The row of one identity with an earlier total \<open>p\<close> and a present total \<open>t\<close>.\<close>

definition ip_text :: "int \<Rightarrow> string" where
  "ip_text v = (case ipv4_from_bpf_int v of Inr s \<Rightarrow> s | Inl _ \<Rightarrow> [])"

fun ident_row :: "(int \<Rightarrow> string) \<Rightarrow> int \<Rightarrow> int \<Rightarrow> ident7 \<Rightarrow> int \<Rightarrow> int \<Rightarrow> udp_sample" where
  "ident_row ifname_of b e (family, proto, sport, dport, ifindex, src, dst) packets bts =
     delta_sample b e (ip_text src) (ip_text dst) sport dport proto ifindex (ifname_of ifindex)
       packets bts 0 ''ingress''"

definition flow_rows ::
  "(int \<Rightarrow> string) \<Rightarrow> int \<Rightarrow> int \<Rightarrow> ident7 \<Rightarrow> udp_map_counters \<Rightarrow> udp_map_counters \<Rightarrow> udp_sample list" where
  "flow_rows ifname_of b e i p t =
     (if mc_packets t \<le> mc_packets p \<and> mc_bytes t \<le> mc_bytes p then []
      else [ident_row ifname_of b e i (max (mc_packets t - mc_packets p) 0) (max (mc_bytes t - mc_bytes p) 0)])"

definition ingress_spec ::
  "sample_filter \<Rightarrow> (int \<Rightarrow> string) \<Rightarrow> int \<Rightarrow> int \<Rightarrow> (ident7 \<rightharpoonup> udp_map_counters) \<Rightarrow> udp_map_entry list
    \<Rightarrow> udp_sample list" where
  "ingress_spec f ifname_of b e previous entries =
     filter (sample_matches f) (concat (map (\<lambda>i.
       case previous i of None \<Rightarrow> [] | Some p \<Rightarrow> flow_rows ifname_of b e i p (flow_total entries i))
       (first_occurrences (map entry_ident entries))))"

text \<open>
  What the refinement assumes: interface names do not change while a checkpoint runs, and addresses fit
  in 32 bits, which every key parsed from raw bytes satisfies.
\<close>

definition stable_ifnames :: "'w os \<Rightarrow> string \<Rightarrow> (int \<Rightarrow> string) \<Rightarrow> bool" where
  "stable_ifnames os fallback ifname_of \<longleftrightarrow>
     (\<forall>i w. (case fst (os_if_indextoname os i w) of None \<Rightarrow> fallback | Some n \<Rightarrow> n) = ifname_of i)"

definition key_in_range :: "udp_map_key \<Rightarrow> bool" where
  "key_in_range k \<longleftrightarrow> 0 \<le> mk_src_ip4 k \<and> mk_src_ip4 k < 2 ^ 32 \<and> 0 \<le> mk_dst_ip4 k \<and> mk_dst_ip4 k < 2 ^ 32"

lemma ip_text_in_range: "0 \<le> v \<Longrightarrow> v < 2 ^ 32 \<Longrightarrow> ipv4_from_bpf_int v = Inr (ip_text v)"
  using ipv4_from_bpf_int_range [of v] by (auto simp: ip_text_def)

lemma fold_counters_total:
  "fold (\<lambda>x a. add_udp_counters a (me_counters x)) es z =
     \<lparr>mc_packets = mc_packets z + sum_list (map (mc_packets \<circ> me_counters) es),
      mc_bytes = mc_bytes z + sum_list (map (mc_bytes \<circ> me_counters) es)\<rparr>"
  by (induction es arbitrary: z) (simp_all add: add_udp_counters_def)

lemma total_flow_total: "udp_ctr.total entry_ident me_counters entries i = flow_total entries i"
  unfolding udp_ctr.total_def flow_total_def Let_def fold_counters_total
  by (simp add: zero_udp_counters_def)

lemma totals_baseline:
  "map_of (fst (aggregate entry_ident me_counters add_udp_counters zero_udp_counters entries)) = baseline_of entries"
  by (simp add: fun_eq_iff udp_ctr.aggregate_totals total_flow_total baseline_of_def)

lemma totals_eq:
  "fst (aggregate entry_ident me_counters add_udp_counters zero_udp_counters entries) =
     map (\<lambda>i. (i, flow_total entries i)) (first_occurrences (map entry_ident entries))"
proof (rule alist_eq_map)
  show "map fst (fst (aggregate entry_ident me_counters add_udp_counters zero_udp_counters entries)) =
      first_occurrences (map entry_ident entries)"
    by (rule udp_ctr.aggregate_keys)
  show "map_of (fst (aggregate entry_ident me_counters add_udp_counters zero_udp_counters entries)) i =
      Some (flow_total entries i)" if "i \<in> set (first_occurrences (map entry_ident entries))" for i
    using that by (simp add: totals_baseline baseline_of_def)
qed simp

section \<open>The reader refines the specification\<close>

lemma first_entry_ident:
  assumes "i \<in> entry_ident ` set entries"
  shows "\<exists>x \<in> set entries. entry_ident x = i \<and>
    map_of (snd (aggregate entry_ident me_counters add_udp_counters zero_udp_counters entries)) i = Some x"
proof -
  obtain x where x: "find (\<lambda>y. entry_ident y = i) entries = Some x"
    using assms by (cases "find (\<lambda>y. entry_ident y = i) entries") (auto simp: find_None_iff)
  then have "x \<in> set entries" "entry_ident x = i"
    by (auto simp: find_Some_iff)
  with x show ?thesis by (auto simp: udp_ctr.aggregate_first simp del: comp_apply)
qed

text \<open>One known flow, in a state that does not use the legacy heuristic.\<close>

lemma ingress_emit_rows:
  assumes first: "map_of first_entry i = Some x" "entry_ident x = i"
    and range: "key_in_range (me_key x)"
    and names: "stable_ifnames os (ic_ifname c) ifname_of"
    and mode: "ic_attribution c \<noteq> ''legacy''"
  shows "\<exists>w'. ingress_emit os b e first_entry i p t (c, w) =
    (Inr (filter (sample_matches (ic_filter c)) (flow_rows ifname_of b e i p t)), (c, w'))"
proof -
  let ?k = "me_key x"
  obtain nm w' where nm: "os_if_indextoname os (mk_ifindex ?k) w = (nm, w')"
    by (cases "os_if_indextoname os (mk_ifindex ?k) w")
  have ifn: "(case nm of None \<Rightarrow> ic_ifname c | Some n \<Rightarrow> n) = ifname_of (mk_ifindex ?k)"
    using names nm unfolding stable_ifnames_def by (metis fst_conv)
  have i: "i = (mk_family ?k, mk_ip_proto ?k, mk_src_port ?k, mk_dst_port ?k, mk_ifindex ?k,
      mk_src_ip4 ?k, mk_dst_ip4 ?k)"
    using first(2) by (auto simp: udp_key_identity_def)
  show ?thesis
  proof (cases "mc_packets t \<le> mc_packets p \<and> mc_bytes t \<le> mc_bytes p")
    case True
    then show ?thesis by (simp add: ingress_emit_def flow_rows_def io_defs)
  next
    case False
    then have progress: "\<not> (mc_packets t - mc_packets p \<le> 0 \<and> mc_bytes t - mc_bytes p \<le> 0)" by simp
    have "ingress_emit os b e first_entry i p t (c, w) =
       (Inr (filter (sample_matches (ic_filter c)) (flow_rows ifname_of b e i p t)), (c, w'))"
      using range progress mode nm ifn
      unfolding ingress_emit_def flow_rows_def Let_def first(1) option.case if_not_P [OF progress]
      by (cases nm) (use False in \<open>auto simp: i ip_text_in_range key_in_range_def io_defs ifname_from_index_def
            keep_matching_def\<close>)
    then show ?thesis by blast
  qed
qed

text \<open>
  One known flow in any mode: the rows of the ingress layer are those of the specification, and any other
  row is a copy that the legacy heuristic made for a matching socket.
\<close>

abbreviation at_ingress :: "udp_sample \<Rightarrow> bool" where
  "at_ingress r \<equiv> us_layer r = ''ingress''"

lemma ident_row_layer [simp]: "us_layer (ident_row nm b e i p q) = ''ingress''"
  by (cases i) (simp add: delta_sample_def)

lemma flow_rows_layer: "r \<in> set (flow_rows nm b e i p t) \<Longrightarrow> at_ingress r"
  by (auto simp: flow_rows_def split: if_splits)



text \<open>\<open>read_ingress\<close> after its dump: the loop runs on the aggregated totals.\<close>

definition ingress_loop ::
  "'w os \<Rightarrow> int \<Rightarrow> int \<Rightarrow> udp_map_entry list \<Rightarrow> (ingress_collector \<times> 'w, udp_sample list) io" where
  "ingress_loop os b e entries s =
     emit_loop put_previous ic_previous
       (ingress_emit os b e (snd (aggregate entry_ident me_counters add_udp_counters zero_udp_counters entries)))
       (fst (aggregate entry_ident me_counters add_udp_counters zero_udp_counters entries)) []
       (put_previous (drop_stale (fst (aggregate entry_ident me_counters add_udp_counters zero_udp_counters entries))
          (ic_previous (fst s))) (fst s), snd s)"

lemma read_ingress_loop:
  "on_reader (dump_entries os) s = (Inr entries, s') \<Longrightarrow> read_ingress os b e s = ingress_loop os b e entries s'"
  by (simp add: read_ingress_def ingress_loop_def io_bind_def io_modify_def split: prod.splits)

lemma read_ingress_dump_error:
  "on_reader (dump_entries os) s = (Inl err, s') \<Longrightarrow> read_ingress os b e s = (Inl err, s')"
  by (simp add: read_ingress_def io_bind_def)

lemma ingress_loop_baseline:
  assumes "ingress_loop os b e entries s = (Inr rows, t)"
  shows "ic_previous (fst t) = baseline_of entries"
proof -
  have "ic_previous (fst t) =
      map_of (fst (aggregate entry_ident me_counters add_udp_counters zero_udp_counters entries))"
    using assms unfolding ingress_loop_def
    by (rule ingress.checkpoint_baseline) (rule udp_ctr.aggregate_distinct)
  then show ?thesis by (simp only: totals_baseline)
qed

lemma drop_stale_known:
  "i \<in> entry_ident ` set entries \<Longrightarrow>
     drop_stale (fst (aggregate entry_ident me_counters add_udp_counters zero_udp_counters entries)) p i = p i"
proof -
  assume "i \<in> entry_ident ` set entries"
  then have "i \<in> set (map fst (fst (aggregate entry_ident me_counters add_udp_counters zero_udp_counters entries)))"
    unfolding udp_ctr.aggregate_keys by simp
  then show ?thesis by (simp add: drop_stale_def)
qed

text \<open>The collector settings that a checkpoint reads and never writes.\<close>

definition ingress_settings :: "ingress_collector \<Rightarrow> sample_filter \<times> string \<times> string" where
  "ingress_settings c = (ic_filter c, ic_ifname c, ic_attribution c)"

text \<open>The rows of the loop over the totals are those of the specification.\<close>

lemma ingress_spec_totals:
  "concat (map (\<lambda>(i, t). case drop_stale (fst (aggregate entry_ident me_counters add_udp_counters zero_udp_counters entries)) previous i of
       None \<Rightarrow> [] | Some p \<Rightarrow> filter (sample_matches f) (flow_rows ifname_of b e i p t))
     (fst (aggregate entry_ident me_counters add_udp_counters zero_udp_counters entries))) =
   ingress_spec f ifname_of b e previous entries"
  unfolding ingress_spec_def totals_eq filter_concat map_map
  by (rule arg_cong [where f = concat], rule map_cong [OF refl])
     (auto simp: totals_eq [symmetric] drop_stale_known split: option.splits)



lemma ingress_loop_spec:
  assumes range: "\<forall>x \<in> set entries. key_in_range (me_key x)"
    and names: "stable_ifnames os (ic_ifname c) ifname_of"
    and mode: "ic_attribution c \<noteq> ''legacy''"
  shows "fst (ingress_loop os b e entries (c, w)) =
    Inr (ingress_spec (ic_filter c) ifname_of b e (ic_previous c) entries)"
proof -
  let ?agg = "aggregate entry_ident me_counters add_udp_counters zero_udp_counters entries"
  let ?s = "(put_previous (drop_stale (fst ?agg) (ic_previous c)) c, w)"
  define g where "g i p t = filter (sample_matches (ic_filter c)) (flow_rows ifname_of b e i p t)" for i p t
  define keep where "keep u \<longleftrightarrow> ingress_settings (fst u) = ingress_settings c" for u :: "ingress_collector \<times> 'a"
  have emit: "fst (ingress_emit os b e (snd ?agg) i p t u) = Inr (g i p t) \<and>
      keep (snd (ingress_emit os b e (snd ?agg) i p t u))"
    if i: "(i, t) \<in> set (fst ?agg)" and u: "keep u" for i p t u
  proof -
    have "i \<in> entry_ident ` set entries"
      using i by (auto simp: totals_eq)
    then obtain x where x: "x \<in> set entries" "entry_ident x = i" "map_of (snd ?agg) i = Some x"
      using first_entry_ident by blast
    obtain c' w' where u': "u = (c', w')" by (cases u)
    with u have set: "ic_filter c' = ic_filter c" "ic_ifname c' = ic_ifname c" "ic_attribution c' = ic_attribution c"
      by (simp_all add: keep_def ingress_settings_def)
    obtain v where "ingress_emit os b e (snd ?agg) i p t (c', w') = (Inr (g i p t), (c', v))"
      using ingress_emit_rows [OF x(3,2), of os c' ifname_of b e p t w'] range x(1) names mode
      by (auto simp: set g_def)
    with u u' show ?thesis by (simp add: keep_def)
  qed
  have loop: "ingress_loop os b e entries (c, w) =
      emit_loop put_previous ic_previous (ingress_emit os b e (snd ?agg)) (fst ?agg) [] ?s"
    by (simp add: ingress_loop_def)
  have start: "keep ?s" by (simp add: keep_def ingress_settings_def put_previous_def)
  have put: "keep u \<Longrightarrow> keep (put_previous p (fst u), snd u)" for p u
    by (simp add: keep_def ingress_settings_def put_previous_def)
  have "fst (ingress_loop os b e entries (c, w)) =
     Inr ([] @ concat (map (\<lambda>(i, t). case ic_previous (fst ?s) i of None \<Rightarrow> [] | Some p \<Rightarrow> g i p t) (fst ?agg)))"
    unfolding loop
    by (rule ingress.loop_pure [where keep = keep, OF put emit udp_ctr.aggregate_distinct start])
  also have "concat (map (\<lambda>(i, t). case ic_previous (fst ?s) i of None \<Rightarrow> [] | Some p \<Rightarrow> g i p t) (fst ?agg)) =
      ingress_spec (ic_filter c) ifname_of b e (ic_previous c) entries"
    unfolding g_def using ingress_spec_totals by (simp add: put_previous_def)
  finally show ?thesis by simp
qed


lemma on_reader_settings:
  assumes "on_reader m (c, w) = (r, (c', w'))"
  shows "ingress_settings c' = ingress_settings c \<and> ic_previous c' = ic_previous c \<and>
    ic_delivered_previous c' = ic_delivered_previous c \<and> ic_delivered_reader c' = ic_delivered_reader c"
  using assms by (auto simp: on_reader_def io_self_def ingress_settings_def split: prod.splits)

section \<open>A concrete run\<close>

text \<open>Two dumps of one flow, 10.0.0.1:53 to 10.0.0.2:5353 on interface 3, read by a fresh collector.\<close>

definition demo_entry :: "int \<Rightarrow> int \<Rightarrow> udp_map_entry" where
  "demo_entry packets bts =
     \<lparr>me_key = \<lparr>mk_family = 2, mk_ip_proto = 17, mk_src_port = 53, mk_dst_port = 5353, mk_ifindex = 3,
        mk_src_ip4 = 16777226, mk_dst_ip4 = 33554442\<rparr>,
      me_counters = \<lparr>mc_packets = packets, mc_bytes = bts\<rparr>\<rparr>"

definition demo_json :: "int \<Rightarrow> int \<Rightarrow> json" where
  "demo_json packets bts = JList [JObj
     [(''key'', JObj [(''family'', JInt 2), (''ip_proto'', JInt 17), (''src_port'', JInt 53),
        (''dst_port'', JInt 5353), (''ifindex'', JInt 3), (''src_ip4'', JInt 16777226), (''dst_ip4'', JInt 33554442)]),
      (''value'', JObj [(''packets'', JInt packets), (''bytes'', JInt bts)])]]"

definition demo_args :: ingress_args where
  "demo_args =
     \<lparr>ia_ifname = Some ''eth0'', ia_object_path = ''udp.o'', ia_section = ''tc'', ia_pref = 49152,
      ia_bucket_ms = 250, ia_filter = None, ia_attach = False, ia_detach_on_close = True, ia_enricher = None,
      ia_attribution = ''none'', ia_receive_object_path = ''r.o'', ia_receive_loader_path = ''r'',
      ia_receive_hook = ''auto'', ia_receive_map_id = None\<rparr>"

definition demo_collector :: ingress_collector where
  "demo_collector = (initial_collector demo_args ''eth0'' ''none'')
     \<lparr>ic_reader := \<lparr>mr_program_name = ''udp_ingress'', mr_map_name = ''udp_ingress_counters'', mr_map_id = Some 7\<rparr>\<rparr>"

lemma parse_demo:
  "parse_dump parse_bpftool_entry (demo_json packets bts) = Inr [demo_entry packets bts]"
  by (simp add: parse_dump_def demo_json_def parse_bpftool_entry_def parse_bpftool_key_def
      parse_bpftool_counters_def udp_counters_of_value_def demo_entry_def)

lemma demo_dump:
  assumes "sim_step w < length table" and "table ! sim_step w = demo_json packets bts"
    and "ic_reader c = ic_reader demo_collector"
  shows "\<exists>w'. on_reader (dump_entries (sim_os table)) (c, w) = (Inr [demo_entry packets bts], (c, w')) \<and>
    sim_step w' = Suc (sim_step w)"
proof -
  have "parse_dump parse_bpftool_entry (demo_json packets bts) = Inr [demo_entry packets bts]"
    by (rule parse_demo)
  with assms show ?thesis
    by (simp add: on_reader_def dump_entries_def sim_run_json io_defs demo_collector_def)
qed

section \<open>Properties of the ingress reader\<close>




lemma demo_names: "stable_ifnames (sim_os table) n (\<lambda>_. n)"
  by (simp add: stable_ifnames_def)

lemma demo_range: "key_in_range (me_key (demo_entry packets bts))"
  by (simp add: key_in_range_def demo_entry_def)


text \<open>(C22) First sight of flows seeds and reports nothing: when no identity of the dump is in the
  baseline, whatever the counters, the attribution mode and the system, the checkpoint returns no row,
  does nothing more after the dump, and keeps the sums as the new baseline.\<close>

theorem ingress_first_sight_silent:
  assumes dump: "on_reader (dump_entries os) (c, w) = (Inr entries, (c', w'))"
    and fresh: "\<forall>x \<in> set entries. ic_previous c (entry_ident x) = None"
  shows "\<exists>d. read_ingress os b e (c, w) = (Inr [], (d, w')) \<and> ic_previous d = baseline_of entries"
proof -
  let ?agg = "aggregate entry_ident me_counters add_udp_counters zero_udp_counters entries"
  let ?s = "(put_previous (drop_stale (fst ?agg) (ic_previous c')) c', w')"
  have unknown: "ic_previous (fst ?s) i = None" if "i \<in> fst ` set (fst ?agg)" for i
  proof -
    from that have i: "i \<in> entry_ident ` set entries" by (auto simp: totals_eq)
    then show ?thesis
      using drop_stale_known [OF i] fresh on_reader_settings [OF dump] by (auto simp: put_previous_def)
  qed
  have "\<exists>d. emit_loop put_previous ic_previous (ingress_emit os b e (snd ?agg)) (fst ?agg) [] ?s = (Inr [], (d, snd ?s))"
    by (rule ingress.loop_seeds [OF unknown udp_ctr.aggregate_distinct])
  then obtain d where "ingress_loop os b e entries (c', w') = (Inr [], (d, w'))"
    by (auto simp only: ingress_loop_def fst_conv snd_conv)
  with ingress_loop_baseline [OF this] show ?thesis
    by (simp add: read_ingress_loop [OF dump])
qed

lemma ingress_first_sight_silent_witness:
  "\<exists>d w'. read_ingress (sim_os [demo_json 5 700]) 0 250 (demo_collector, sim_start) = (Inr [], (d, w')) \<and>
    ic_previous d = baseline_of [demo_entry 5 700]"
proof -
  obtain w' where dump: "on_reader (dump_entries (sim_os [demo_json 5 700])) (demo_collector, sim_start) =
      (Inr [demo_entry 5 700], (demo_collector, w'))"
    using demo_dump [of sim_start "[demo_json 5 700]" 5 700 demo_collector] by (auto simp: sim_start_def)
  have "ic_previous demo_collector = Map.empty"
    by (simp add: demo_collector_def initial_collector_def)
  with ingress_first_sight_silent [OF dump, of 0 250] show ?thesis by auto
qed

text \<open>What one run of the loop body yields, in every mode.\<close>

lemma on_enricher_traffic:
  assumes "\<And>st xs st'. m st = (Inr xs, st') \<Longrightarrow> \<forall>x \<in> set xs. P x" and "P d"
    and "on_enricher m d u = (Inr xs, v)"
  shows "\<forall>x \<in> set xs. P x"
  using assms by (fastforce simp: on_enricher_def split: option.splits prod.splits)

lemma keep_matching_subset: "keep_matching rows u = (Inr xs, v) \<Longrightarrow> set xs \<subseteq> set rows \<and> (\<forall>x \<in> set xs. sample_matches (ic_filter (fst u)) x)"
  by (auto simp: keep_matching_def io_defs)

definition is_delta :: "udp_map_counters \<Rightarrow> udp_map_counters \<Rightarrow> int \<Rightarrow> int \<Rightarrow> udp_sample \<Rightarrow> bool" where
  "is_delta p t b e r \<longleftrightarrow>
     us_packets r = max (mc_packets t - mc_packets p) 0 \<and> us_bytes r = max (mc_bytes t - mc_bytes p) 0 \<and>
     (us_packets r > 0 \<or> us_bytes r > 0) \<and> us_bucket_ms r = e \<and> us_bucket_start_ns r = b"

lemma is_delta_delta_sample:
  "\<not> (mc_packets t - mc_packets p \<le> 0 \<and> mc_bytes t - mc_bytes p \<le> 0) \<Longrightarrow>
     is_delta p t b e (delta_sample b e src dst sport dport proto ifindex ifname
       (max (mc_packets t - mc_packets p) 0) (max (mc_bytes t - mc_bytes p) 0) sock layer)"
  by (auto simp: is_delta_def delta_sample_def)

lemma is_delta_traffic: "is_delta p t b e s \<Longrightarrow> same_traffic s r \<Longrightarrow> is_delta p t b e r"
  unfolding is_delta_def same_traffic_def by metis

lemma ingress_emit_row:
  assumes emit: "ingress_emit os b e first_entry i p t u = (Inr rows, v)" and r: "r \<in> set rows"
  shows "is_delta p t b e r"
proof -
  have progress: "\<not> (mc_packets t - mc_packets p \<le> 0 \<and> mc_bytes t - mc_bytes p \<le> 0)"
  proof
    assume "mc_packets t - mc_packets p \<le> 0 \<and> mc_bytes t - mc_bytes p \<le> 0"
    with emit r show False by (simp add: ingress_emit_def io_return_def)
  qed
  obtain entry where entry: "map_of first_entry i = Some entry"
    using emit progress by (cases "map_of first_entry i") (auto simp: ingress_emit_def Let_def io_raise_def)
  obtain sample xs u1 u2 u3 mode where sample: "is_delta p t b e sample"
    and body: "(if mode = ''legacy'' then on_enricher (enrich os sample) sample else io_return [sample]) u1 = (Inr xs, u2)"
    and keep: "keep_matching xs u2 = (Inr rows, u3)"
    using emit is_delta_delta_sample [OF progress]
    unfolding ingress_emit_def Let_def if_not_P [OF progress] entry option.case
    by (simp only: io_bind_Inr_iff) blast
  have "\<forall>x \<in> set xs. is_delta p t b e x"
  proof (cases "mode = ''legacy''")
    case True
    with body have run: "on_enricher (enrich os sample) sample u1 = (Inr xs, u2)" by simp
    show ?thesis
      by (rule on_enricher_traffic [where P = "is_delta p t b e", OF _ sample run])
         (meson enrich_traffic is_delta_traffic sample)
  next
    case False
    with body sample show ?thesis by (auto simp: io_return_def)
  qed
  with keep_matching_subset [OF keep] r show ?thesis by blast
qed

lemma delivered_emit_row:
  assumes emit: "delivered_emit os b e first_entry i p t u = (Inr rows, v)" and r: "r \<in> set rows"
  shows "is_delta p t b e r \<and> (\<exists>x. map_of first_entry i = Some x \<and>
    us_layer r = ''delivered'' \<and> us_socket_id r = dk_socket_cookie (de_key x))"
proof -
  have progress: "\<not> (mc_packets t - mc_packets p \<le> 0 \<and> mc_bytes t - mc_bytes p \<le> 0)"
  proof
    assume "mc_packets t - mc_packets p \<le> 0 \<and> mc_bytes t - mc_bytes p \<le> 0"
    with emit r show False by (simp add: delivered_emit_def io_return_def)
  qed
  obtain x where x: "map_of first_entry i = Some x"
    using emit progress by (cases "map_of first_entry i") (auto simp: delivered_emit_def Let_def io_raise_def)
  define good where "good y \<longleftrightarrow> is_delta p t b e y \<and> us_layer y = ''delivered'' \<and>
      us_socket_id y = dk_socket_cookie (de_key x)" for y
  have first: "good (delta_sample b e src dst sport dport proto ifindex ifname (max (mc_packets t - mc_packets p) 0)
      (max (mc_bytes t - mc_bytes p) 0) (dk_socket_cookie (de_key x)) ''delivered'')"
    for src dst sport dport proto ifindex ifname
    using is_delta_delta_sample [OF progress] by (simp add: good_def) (simp add: delta_sample_def)
  obtain sample xs u1 u2 u3 where sample: "good sample"
    and body: "on_enricher (enrich_exact os sample (dv_socket_inode (de_value x)) (dk_socket_cookie (de_key x)))
       sample u1 = (Inr xs, u2)"
    and keep: "keep_matching xs u2 = (Inr rows, u3)"
    using emit first
    unfolding delivered_emit_def Let_def if_not_P [OF progress] x option.case
    by (simp only: io_bind_Inr_iff) blast
  have kept: "\<forall>y \<in> set ys. good y"
    if "enrich_exact os sample (dv_socket_inode (de_value x)) (dk_socket_cookie (de_key x)) st = (Inr ys, st')" for st ys st'
  proof
    fix y assume y: "y \<in> set ys"
    with enrich_exact_traffic [OF that] have "same_traffic sample y \<and> us_layer y = ''delivered'' \<and>
        us_socket_id y = dk_socket_cookie (de_key x)" by blast
    with sample show "good y" unfolding good_def using is_delta_traffic by blast
  qed
  have "\<forall>y \<in> set xs. good y"
    by (rule on_enricher_traffic [where P = good, OF kept sample body])
  with keep_matching_subset [OF keep] r x show ?thesis by (auto simp: good_def)
qed

lemma ingress_rows_delta:
  assumes dump: "on_reader (dump_entries os) (c, w) = (Inr entries, (c', w'))"
    and read: "read_ingress os b e (c, w) = (Inr rows, t)"
    and r: "r \<in> set rows"
  shows "\<exists>i p. i \<in> entry_ident ` set entries \<and> ic_previous c i = Some p \<and>
    is_delta p (flow_total entries i) b e r"
proof -
  let ?agg = "aggregate entry_ident me_counters add_udp_counters zero_udp_counters entries"
  have "ingress_loop os b e entries (c', w') = (Inr rows, t)"
    using read by (simp add: read_ingress_loop [OF dump])
  from ingress.loop_samples [OF this [unfolded ingress_loop_def] udp_ctr.aggregate_distinct r]
  obtain i tot p u v xs where i: "(i, tot) \<in> set (fst ?agg)"
    and p: "drop_stale (fst ?agg) (ic_previous c') i = Some p"
    and row: "ingress_emit os b e (snd ?agg) i p tot u = (Inr xs, v)" "r \<in> set xs"
    by (auto simp: put_previous_def simp del: comp_apply)
  from i have tot: "tot = flow_total entries i" and mem: "i \<in> entry_ident ` set entries"
    by (auto simp: totals_eq)
  from p have "ic_previous c i = Some p"
    using drop_stale_known [OF mem] on_reader_settings [OF dump] by simp
  with ingress_emit_row [OF row] tot mem show ?thesis by blast
qed

text \<open>(C14) No bogus rate, in any attribution mode and on any system: each row of a checkpoint belongs to
  a flow that an earlier checkpoint saw and this dump still holds, its counters are the clamped growth of
  the summed counters since then, at least one of them grew, and it carries the interval it was given.\<close>

theorem ingress_rows_sound:
  assumes dump: "on_reader (dump_entries os) (c, w) = (Inr entries, (c', w'))"
    and read: "read_ingress os b e (c, w) = (Inr rows, t)"
    and r: "r \<in> set rows"
  shows "\<exists>i p. i \<in> entry_ident ` set entries \<and> ic_previous c i = Some p \<and>
    is_delta p (flow_total entries i) b e r"
  using assms by (rule ingress_rows_delta)

text \<open>The concrete checkpoint yields one row: three packets and 400 bytes.\<close>

lemma demo_spec:
  "ingress_spec no_filter (\<lambda>_. ''eth0'') 0 250 (baseline_of [demo_entry 2 300]) [demo_entry 5 700] =
    [ident_row (\<lambda>_. ''eth0'') 0 250 (2, 17, 53, 5353, 3, 16777226, 33554442) 3 400]"
  by (simp add: ingress_spec_def baseline_of_def flow_total_def demo_entry_def udp_key_identity_def flow_rows_def)

lemma ingress_rows_sound_witness:
  "\<exists>i p. ic_previous (put_previous (baseline_of [demo_entry 2 300]) demo_collector) i = Some p \<and>
    is_delta p (flow_total [demo_entry 5 700] i) 0 250
      (ident_row (\<lambda>_. ''eth0'') 0 250 (2, 17, 53, 5353, 3, 16777226, 33554442) 3 400)"
proof -
  let ?c = "put_previous (baseline_of [demo_entry 2 300]) demo_collector"
  obtain w' where dump: "on_reader (dump_entries (sim_os [demo_json 5 700])) (?c, sim_start) =
      (Inr [demo_entry 5 700], (?c, w'))"
    using demo_dump [of sim_start "[demo_json 5 700]" 5 700 ?c] by (auto simp: sim_start_def put_previous_def)
  have c: "ic_filter ?c = no_filter" "ic_ifname ?c = ''eth0''" "ic_attribution ?c \<noteq> ''legacy''"
      "ic_previous ?c = baseline_of [demo_entry 2 300]"
    by (simp_all add: put_previous_def demo_collector_def initial_collector_def demo_args_def)
  obtain r t where read: "read_ingress (sim_os [demo_json 5 700]) 0 250 (?c, sim_start) = (Inr r, t)"
      and r: "r = [ident_row (\<lambda>_. ''eth0'') 0 250 (2, 17, 53, 5353, 3, 16777226, 33554442) 3 400]"
  proof -
    have "fst (read_ingress (sim_os [demo_json 5 700]) 0 250 (?c, sim_start)) =
        Inr [ident_row (\<lambda>_. ''eth0'') 0 250 (2, 17, 53, 5353, 3, 16777226, 33554442) 3 400]"
      unfolding read_ingress_loop [OF dump] demo_spec [symmetric]
      by (subst ingress_loop_spec [where ifname_of = "\<lambda>_. ''eth0''"])
         (use demo_names [of _ "''eth0''"] demo_range c in \<open>auto simp: ingress_settings_def\<close>)
    then show ?thesis using that by (cases "read_ingress (sim_os [demo_json 5 700]) 0 250 (?c, sim_start)") auto
  qed
  have "ident_row (\<lambda>_. ''eth0'') 0 250 (2, 17, 53, 5353, 3, 16777226, 33554442) 3 400 \<in> set r"
    by (simp only: r list.set_intros)
  from ingress_rows_sound [OF dump read this] show ?thesis by blast
qed

section \<open>Conservation over a run of checkpoints\<close>

text \<open>
  A run: checkpoints of one collector, each in whatever world and with whatever bucket it finds. The
  relation records the dumps, in order, and all rows that were reported.
\<close>

inductive ingress_run ::
  "'w os \<Rightarrow> ingress_collector \<Rightarrow> udp_map_entry list list \<Rightarrow> udp_sample list \<Rightarrow> ingress_collector \<Rightarrow> bool"
  for os :: "'w os" where
  run_done: "ingress_run os c [] [] c"
| run_checkpoint:
    "on_reader (dump_entries os) (c, w) = (Inr entries, s) \<Longrightarrow>
     read_ingress os b e (c, w) = (Inr rows, (c', w')) \<Longrightarrow>
     ingress_run os c' dumps later d \<Longrightarrow>
     ingress_run os c (entries # dumps) (rows @ later) d"

inductive_cases ingress_run_NilE: "ingress_run os c [] rows d"
inductive_cases ingress_run_ConsE: "ingress_run os c (es # dumps) rows d"









lemma ident_row_counters [simp]:
  "us_packets (ident_row nm b e i p q) = p" "us_bytes (ident_row nm b e i p q) = q"
  by (cases i, simp add: delta_sample_def)+














end
