(* ===== verification/EbpfFacts.thy ===== *)
theory EbpfFacts
  imports IngressFacts
begin

text \<open>
  What the parsers, the attachments, the map reader and the constructor of \<open>ebpf.py\<close> guarantee: round
  trips with the kernel's byte layouts, no orphaned loader, the order of the tc commands, the choice of
  the map, and the time fields of a checkpoint.
\<close>

section \<open>What the kernel writes is what is read\<close>

text \<open>One map entry as bpftool prints it for a per-CPU map: a raw key and one raw value per CPU.\<close>

definition percpu_entry :: "byte list \<Rightarrow> byte list list \<Rightarrow> json" where
  "percpu_entry key_bytes value_bytes =
     JObj [(''key'', json_bytes key_bytes),
           (''values'', JList (map (\<lambda>b. JObj [(''value'', json_bytes b)]) value_bytes))]"

lemma traverse_values:
  assumes "\<And>b. b \<in> set bs \<Longrightarrow> f (json_bytes b) = Inr (g b)"
  shows "traverse (\<lambda>cpu. bind_res (py_get cpu ''value'' JNull) f) (map (\<lambda>b. JObj [(''value'', json_bytes b)]) bs) =
    Inr (map g bs)"
  using assms by (induction bs) simp_all

text \<open>(C29) Entries of the ingress map survive the trip through the kernel's struct: the key that was
  packed comes back field by field, and the counters are the sums over all CPUs.\<close>

theorem ingress_entry_roundtrip:
  assumes key: "pack udp_key_fmt (udp_key_vals k) = Inr kb"
    and vals: "map (\<lambda>c. pack udp_counters_fmt (udp_counters_vals c)) cs = map Inr bs"
  shows "parse_bpftool_entry (percpu_entry kb bs) =
    Inr \<lparr>me_key = k, me_counters =
      \<lparr>mc_packets = sum_list (map mc_packets cs), mc_bytes = sum_list (map mc_bytes cs)\<rparr>\<rparr>"
proof -
  have k: "parse_bpftool_key (json_bytes kb) = Inr k"
    using pack_length [OF key] udp_key.decode_encode [OF key, of "[]"] by (simp add: parse_key_bytes)
  have v: "traverse (\<lambda>cpu. bind_res (py_get cpu ''value'' JNull) udp_counters_of_value)
      (map (\<lambda>b. JObj [(''value'', json_bytes b)]) bs) = Inr cs"
    using vals
  proof (induction cs arbitrary: bs)
    case (Cons c cs)
    then obtain b rest where bs: "bs = b # rest" and b: "pack udp_counters_fmt (udp_counters_vals c) = Inr b"
        and rest: "map (\<lambda>c. pack udp_counters_fmt (udp_counters_vals c)) cs = map Inr rest"
      by (cases bs) auto
    have "udp_counters_of_value (json_bytes b) = Inr c"
      using pack_length [OF b] udp_counters.decode_encode [OF b, of "[]"] by (simp add: counters_bytes)
    with Cons.IH [OF rest] bs show ?case by simp
  qed simp
  show ?thesis
    unfolding parse_bpftool_entry_def parse_bpftool_counters_def percpu_entry_def
    by (simp add: k v zero_udp_counters_def)
qed

lemma demo_pack:
  "pack udp_key_fmt (udp_key_vals \<lparr>mk_family = 2, mk_ip_proto = 17, mk_src_port = 53, mk_dst_port = 5353,
      mk_ifindex = 3, mk_src_ip4 = 16777226, mk_dst_ip4 = 33554442\<rparr>) =
    Inr [2, 17, 53, 0, 233, 20, 0, 0, 3, 0, 0, 0, 10, 0, 0, 1, 10, 0, 0, 2]"
  "pack udp_counters_fmt (udp_counters_vals \<lparr>mc_packets = 2, mc_bytes = 300\<rparr>) =
    Inr [2, 0, 0, 0, 0, 0, 0, 0, 44, 1, 0, 0, 0, 0, 0, 0]"
  "pack udp_counters_fmt (udp_counters_vals \<lparr>mc_packets = 3, mc_bytes = 400\<rparr>) =
    Inr [3, 0, 0, 0, 0, 0, 0, 0, 144, 1, 0, 0, 0, 0, 0, 0]"
  by code_simp+

lemma ingress_entry_roundtrip_witness:
  "parse_bpftool_entry (percpu_entry
      [2, 17, 53, 0, 233, 20, 0, 0, 3, 0, 0, 0, 10, 0, 0, 1, 10, 0, 0, 2]
      [[2, 0, 0, 0, 0, 0, 0, 0, 44, 1, 0, 0, 0, 0, 0, 0], [3, 0, 0, 0, 0, 0, 0, 0, 144, 1, 0, 0, 0, 0, 0, 0]]) =
    Inr (demo_entry 5 700)"
  using ingress_entry_roundtrip [of "me_key (demo_entry 5 700)"
      "[2, 17, 53, 0, 233, 20, 0, 0, 3, 0, 0, 0, 10, 0, 0, 1, 10, 0, 0, 2]"
      "[\<lparr>mc_packets = 2, mc_bytes = 300\<rparr>, \<lparr>mc_packets = 3, mc_bytes = 400\<rparr>]"
      "[[2, 0, 0, 0, 0, 0, 0, 0, 44, 1, 0, 0, 0, 0, 0, 0], [3, 0, 0, 0, 0, 0, 0, 0, 144, 1, 0, 0, 0, 0, 0, 0]]"]
  by (simp add: demo_entry_def demo_pack)

text \<open>(C30) Entries of the delivered map: same trip; the counters add up over the CPUs, and the socket
  inode is the first one a CPU recorded.\<close>

theorem delivered_entry_roundtrip:
  assumes key: "pack delivered_key_fmt (delivered_key_vals k) = Inr kb"
    and vals: "map (\<lambda>v. pack delivered_value_fmt (delivered_value_vals v)) vs = map Inr bs"
  shows "\<exists>x. parse_bpftool_delivered_entry (percpu_entry kb bs) = Inr x \<and> de_key x = k \<and>
    dv_packets (de_value x) = sum_list (map dv_packets vs) \<and> dv_bytes (de_value x) = sum_list (map dv_bytes vs) \<and>
    dv_socket_inode (de_value x) =
      (case filter (\<lambda>i. i \<noteq> 0) (map dv_socket_inode vs) of [] \<Rightarrow> 0 | i # _ \<Rightarrow> i)"
proof -
  have k: "parse_bpftool_delivered_key (json_bytes kb) = Inr k"
    using pack_length [OF key] delivered_key.decode_encode [OF key, of "[]"] by (simp add: parse_delivered_key_bytes)
  have v: "traverse (\<lambda>cpu. bind_res (py_get cpu ''value'' JNull) delivered_value_of_value)
      (map (\<lambda>b. JObj [(''value'', json_bytes b)]) bs) = Inr vs"
    using vals
  proof (induction vs arbitrary: bs)
    case (Cons v vs)
    then obtain b rest where bs: "bs = b # rest" and b: "pack delivered_value_fmt (delivered_value_vals v) = Inr b"
        and rest: "map (\<lambda>v. pack delivered_value_fmt (delivered_value_vals v)) vs = map Inr rest"
      by (cases bs) auto
    have "delivered_value_of_value (json_bytes b) = Inr v"
      using pack_length [OF b] delivered_val.decode_encode [OF b, of "[]"] by (simp add: delivered_value_bytes)
    with Cons.IH [OF rest] bs show ?case by simp
  qed simp
  show ?thesis
    unfolding parse_bpftool_delivered_entry_def parse_bpftool_delivered_value_def percpu_entry_def
    by (simp add: k v dv_fold_inode)
qed

lemma demo_delivered_pack:
  "pack delivered_key_fmt (delivered_key_vals \<lparr>dk_socket_cookie = 9, dk_src_ip4 = 16777226, dk_dst_ip4 = 33554442,
      dk_src_port = 53, dk_dst_port = 5353, dk_family = 2, dk_ip_proto = 17\<rparr>) =
    Inr [9, 0, 0, 0, 0, 0, 0, 0, 10, 0, 0, 1, 10, 0, 0, 2, 53, 0, 233, 20, 2, 17, 0, 0]"
  "pack delivered_value_fmt (delivered_value_vals
      \<lparr>dv_packets = 1, dv_bytes = 100, dv_socket_inode = 0, dv_ifindex = 3\<rparr>) =
    Inr [1, 0, 0, 0, 0, 0, 0, 0, 100, 0, 0, 0, 0, 0, 0, 0, 0, 0, 0, 0, 0, 0, 0, 0, 3, 0, 0, 0, 0, 0, 0, 0]"
  "pack delivered_value_fmt (delivered_value_vals
      \<lparr>dv_packets = 2, dv_bytes = 50, dv_socket_inode = 7, dv_ifindex = 3\<rparr>) =
    Inr [2, 0, 0, 0, 0, 0, 0, 0, 50, 0, 0, 0, 0, 0, 0, 0, 7, 0, 0, 0, 0, 0, 0, 0, 3, 0, 0, 0, 0, 0, 0, 0]"
  by code_simp+

lemma delivered_entry_roundtrip_witness:
  "\<exists>x. parse_bpftool_delivered_entry (percpu_entry
      [9, 0, 0, 0, 0, 0, 0, 0, 10, 0, 0, 1, 10, 0, 0, 2, 53, 0, 233, 20, 2, 17, 0, 0]
      [[1, 0, 0, 0, 0, 0, 0, 0, 100, 0, 0, 0, 0, 0, 0, 0, 0, 0, 0, 0, 0, 0, 0, 0, 3, 0, 0, 0, 0, 0, 0, 0],
       [2, 0, 0, 0, 0, 0, 0, 0, 50, 0, 0, 0, 0, 0, 0, 0, 7, 0, 0, 0, 0, 0, 0, 0, 3, 0, 0, 0, 0, 0, 0, 0]]) = Inr x \<and>
    dv_packets (de_value x) = 3 \<and> dv_bytes (de_value x) = 150 \<and> dv_socket_inode (de_value x) = 7"
  using delivered_entry_roundtrip [of
      "\<lparr>dk_socket_cookie = 9, dk_src_ip4 = 16777226, dk_dst_ip4 = 33554442, dk_src_port = 53,
        dk_dst_port = 5353, dk_family = 2, dk_ip_proto = 17\<rparr>"
      "[9, 0, 0, 0, 0, 0, 0, 0, 10, 0, 0, 1, 10, 0, 0, 2, 53, 0, 233, 20, 2, 17, 0, 0]"
      "[\<lparr>dv_packets = 1, dv_bytes = 100, dv_socket_inode = 0, dv_ifindex = 3\<rparr>,
        \<lparr>dv_packets = 2, dv_bytes = 50, dv_socket_inode = 7, dv_ifindex = 3\<rparr>]"
      "[[1, 0, 0, 0, 0, 0, 0, 0, 100, 0, 0, 0, 0, 0, 0, 0, 0, 0, 0, 0, 0, 0, 0, 0, 3, 0, 0, 0, 0, 0, 0, 0],
       [2, 0, 0, 0, 0, 0, 0, 0, 50, 0, 0, 0, 0, 0, 0, 0, 7, 0, 0, 0, 0, 0, 0, 0, 3, 0, 0, 0, 0, 0, 0, 0]]"]
  by (auto simp: demo_delivered_pack)

text \<open>The formats with which user space reads the maps are the layouts the C compiler gives to the
  structs of the BPF programs: same offset and width for every field, same total size.\<close>

lemma udp_map_layouts:
  "layout_agrees udp_key_fmt udp_key_struct \<and> layout_agrees udp_counters_fmt udp_counters_struct \<and>
   layout_agrees delivered_key_fmt delivered_key_struct \<and> layout_agrees delivered_value_fmt delivered_value_struct"
  by (intro conjI udp_key_layout udp_counters_layout delivered_key_layout delivered_value_layout)

text \<open>(C40) Two addresses of the kernel never render as the same text, and every 32-bit value renders.\<close>

theorem ipv4_text_injective:
  "(\<exists>s. ipv4_from_bpf_int v = Inr s) = (v \<in> {0..<2 ^ 32}) \<and>
   (ipv4_from_bpf_int u = ipv4_from_bpf_int v) = (if v \<in> {0..<2 ^ 32} then u = v else u \<notin> {0..<2 ^ 32})"
proof
  show "(\<exists>s. ipv4_from_bpf_int v = Inr s) = (v \<in> {0..<2 ^ 32})"
    using ipv4_from_bpf_int_range [of v] by simp
  have out: "ipv4_from_bpf_int x = Inl StructError \<longleftrightarrow> x \<notin> {0..<2 ^ 32}" for x
    by (auto simp: ipv4_from_bpf_int_def)
  show "(ipv4_from_bpf_int u = ipv4_from_bpf_int v) = (if v \<in> {0..<2 ^ 32} then u = v else u \<notin> {0..<2 ^ 32})"
  proof (cases "v \<in> {0..<2 ^ 32}")
    case True
    then obtain s where s: "ipv4_from_bpf_int v = Inr s" using ipv4_from_bpf_int_range [of v] by auto
    with True ipv4_from_bpf_int_inj [OF _ s, of u] show ?thesis by auto
  next
    case False
    then have "ipv4_from_bpf_int v = Inl StructError" using out by blast
    with False out [of u] show ?thesis by (simp only: if_not_P if_False)
  qed
qed

section \<open>No orphaned loader\<close>

lemma stop_child_dead:
  assumes laws: "child_laws os alive" and run: "stop_child os h w = (r, w')"
  shows "alive w' \<subseteq> alive w - {h}"
proof -
  obtain u w1 where t: "os_terminate os h w = (u, w1)" by (cases "os_terminate os h w")
  obtain y w2 where c: "os_communicate os h True w1 = (y, w2)" by (cases "os_communicate os h True w1")
  obtain v w3 where k: "os_kill os h w2 = (v, w3)" by (cases "os_kill os h w2")
  obtain z w4 where d: "os_communicate os h False w3 = (z, w4)" by (cases "os_communicate os h False w3")
  show ?thesis
  proof (cases y)
    case None
    with run t c k d have "w' = w4" by (simp add: stop_child_def io_defs)
    with child_terminate [OF laws t] child_communicate [OF laws c] child_kill [OF laws k]
      child_communicate [OF laws d] None show ?thesis by auto
  next
    case (Some x)
    with run t c have "w' = w2" by (simp add: stop_child_def io_defs)
    with child_terminate [OF laws t] child_communicate [OF laws c] Some show ?thesis by auto
  qed
qed

lemma receive_detach_dead:
  assumes laws: "child_laws os alive" and run: "receive_detach os (a, w) = (r, (a', w'))"
  shows "alive w' \<subseteq> alive w - set_option (ra_process a) \<and> ra_process a' = None"
proof (cases "ra_process a")
  case None
  with run show ?thesis by (auto simp: receive_detach_def io_defs)
next
  case (Some h)
  obtain rc w1 where p: "os_poll os h w = (rc, w1)" by (cases "os_poll os h w")
  obtain s w2 where st: "stop_child os h w1 = (s, w2)" by (cases "stop_child os h w1")
  show ?thesis
  proof (cases rc)
    case None
    with run Some p st have "w' = w2" "ra_process a' = None" by (auto simp: receive_detach_def io_defs)
    with stop_child_dead [OF laws st] child_poll [OF laws p] None Some show ?thesis by auto
  next
    case (Some rc')
    with run \<open>ra_process a = Some h\<close> p have "w' = w1" "ra_process a' = None" by (auto simp: receive_detach_def io_defs)
    with child_poll [OF laws p] Some \<open>ra_process a = Some h\<close> show ?thesis by auto
  qed
qed

lemma exit_detail_dead:
  assumes laws: "child_laws os alive" and run: "exit_detail os h w = (r, w')"
  shows "alive w' \<subseteq> alive w - {h}"
proof -
  obtain z w1 where c: "os_communicate os h False w = (z, w1)" by (cases "os_communicate os h False w")
  obtain i w2 where x: "os_wait os h w1 = (i, w2)" by (cases "os_wait os h w1")
  from run c x have "w' = w2" by (simp add: exit_detail_def io_defs Let_def)
  with child_communicate [OF laws c] child_wait [OF laws x] show ?thesis by auto
qed

text \<open>The operations that neither start nor stop a child.\<close>

lemma frames_run_command:
  assumes "child_laws os alive"
  shows "frames alive (run_command os args sudo check)"
  unfolding run_command_def Let_def
  by (intro frame_intros) (auto simp: child_run [OF assms] frames_basic split: exec_outcome.splits)

lemma frames_run_json:
  assumes "child_laws os alive"
  shows "frames alive (run_json os args sudo)"
  unfolding run_json_def by (intro frame_intros frames_run_command [OF assms])

lemma frames_tc_detach:
  assumes "child_laws os alive"
  shows "frames (alive \<circ> snd) (tc_detach os ignore)"
  unfolding tc_detach_def set_attached_def
  by (intro frame_intros frames_world_snd frames_run_command [OF assms]) auto

lemma frames_tc_attach:
  assumes "child_laws os alive"
  shows "frames (alive \<circ> snd) (tc_attach os)"
  unfolding tc_attach_def set_attached_def
  by (intro frame_intros frames_world_snd frames_tc_detach [OF assms] frames_run_command [OF assms])
     (auto dest: child_exists [OF assms])

lemma frames_refresh_map_id:
  assumes "child_laws os alive"
  shows "frames (alive \<circ> snd) (refresh_map_id os)"
  unfolding refresh_map_id_def
  by (intro frame_intros frames_world_snd frames_run_json [OF assms]) auto

lemma frames_collector_ifname:
  assumes "child_laws os alive"
  shows "frames alive (collector_ifname os args)"
  unfolding collector_ifname_def default_route_interface_def
  by (intro frame_intros frames_run_command [OF assms]) (auto dest: child_getenv [OF assms])

lemma receive_attach_child:
  assumes laws: "child_laws os alive" and run: "receive_attach os (a, w) = (r, (a', w'))"
  shows "case r of Inl e \<Rightarrow> (case e of RuntimeError m vs \<Rightarrow> alive w' \<subseteq> alive w | _ \<Rightarrow> True)
    | Inr st \<Rightarrow> \<exists>h. ra_process a' = Some h \<and> alive w' \<subseteq> insert h (alive w)"
proof -
  obtain f1 w1 where 1: "os_exists os (ra_loader_path a) w = (f1, w1)" by (cases "os_exists os (ra_loader_path a) w")
  obtain f2 w2 where 2: "os_exists os (ra_object_path a) w1 = (f2, w2)" by (cases "os_exists os (ra_object_path a) w1")
  obtain sp w3 where 3: "os_popen os (receive_command a) w2 = (sp, w3)" by (cases "os_popen os (receive_command a) w2")
  show ?thesis
  proof (cases "f1 \<and> f2 \<and> (\<exists>h. sp = Spawned h)")
    case False
    with run 1 2 3 child_exists [OF laws 1] child_exists [OF laws 2] child_popen [OF laws 3] show ?thesis
      by (cases sp) (auto simp: receive_attach_def io_defs split: if_splits)
  next
    case True
    then obtain h where h: "f1" "f2" "sp = Spawned h" by blast
    let ?a = "a\<lparr>ra_process := Some h\<rparr>"
    obtain rd w4 where 4: "os_select os h w3 = (rd, w4)" by (cases "os_select os h w3")
    obtain line w5 where 5: "os_readline os h w4 = (line, w5)" by (cases "os_readline os h w4")
    have grow: "alive w4 \<subseteq> insert h (alive w)" "alive w5 \<subseteq> insert h (alive w)"
      using child_exists [OF laws 1] child_exists [OF laws 2] child_popen [OF laws 3] child_select [OF laws 4]
        child_readline [OF laws 5] h by auto
    consider "\<not> rd" | "rd" "line = []"
      | st where "rd" "line \<noteq> []" "parse_receive_loader_status os line = Inr st"
      | e where "rd" "line \<noteq> []" "parse_receive_loader_status os line = Inl e"
      by (cases "parse_receive_loader_status os line") auto
    then show ?thesis
    proof cases
      case 1
      obtain q b w6 where d: "receive_detach os (?a, w4) = (q, (b, w6))" by (metis surj_pair)
      from receive_detach_dead [OF laws d] grow have "alive w6 \<subseteq> alive w" by auto
      with run h 1 d \<open>os_exists os (ra_loader_path a) w = (f1, w1)\<close> 2 3 4 show ?thesis
        by (auto simp: receive_attach_def io_defs split: sum.splits py_error.splits)
    next
      case 2
      obtain q w6 where d: "exit_detail os h w5 = (q, w6)" by (metis surj_pair)
      from exit_detail_dead [OF laws d] grow have "alive w6 \<subseteq> alive w" by auto
      with run h 1 2 d \<open>os_exists os (ra_object_path a) w1 = (f2, w2)\<close> 3 4 5 show ?thesis
        by (auto simp: receive_attach_def io_defs split: sum.splits py_error.splits)
    next
      case 3
      have "receive_attach os (a, w) = (Inr st, (?a\<lparr>ra_status := Some st\<rparr>, w5))"
        using h 1 2 3 \<open>os_popen os (receive_command a) w2 = (sp, w3)\<close> 4 5 by (simp add: receive_attach_def io_defs)
      with run have "r = Inr st" "ra_process a' = Some h" "w' = w5" by auto
      with grow show ?thesis by auto
    next
      case 4
      obtain q b w6 where d: "receive_detach os (?a, w5) = (q, (b, w6))" by (metis surj_pair)
      from receive_detach_dead [OF laws d] grow have "alive w6 \<subseteq> alive w" by auto
      with run h 1 2 3 4 d \<open>os_select os h w3 = (rd, w4)\<close> 5 show ?thesis
        by (cases e) (auto simp: receive_attach_def io_defs split: sum.splits py_error.splits)
    qed
  qed
qed

text \<open>(C10) The receive loader is never left behind: when \<open>attach\<close> raises a \<open>RuntimeError\<close> (no readiness in
  time, a dead loader, a bad status line), no process runs that did not run before, and when it succeeds
  the one new process is the one that \<open>detach\<close> will stop.\<close>

theorem receive_attach_no_orphan:
  assumes laws: "child_laws os alive" and run: "receive_attach os (a, w) = (r, (a', w'))"
  shows "case r of Inl e \<Rightarrow> (case e of RuntimeError m vs \<Rightarrow> alive w' \<subseteq> alive w | _ \<Rightarrow> True)
    | Inr st \<Rightarrow> (\<exists>h. ra_process a' = Some h \<and> alive w' \<subseteq> insert h (alive w)) \<and>
        (\<forall>q b w''. receive_detach os (a', w') = (q, (b, w'')) \<longrightarrow> alive w'' \<subseteq> alive w)"
  using receive_attach_child [OF laws run] receive_detach_dead [OF laws]
  by (cases r) (auto split: py_error.splits, blast+)

lemma receive_attach_no_orphan_witness:
  "\<exists>a' w' q b w''. receive_attach (sim_os [JObj [(''backend'', JStr ''fentry''), (''map_id'', JInt 7)]])
      (\<lparr>ra_loader_path = ''l'', ra_object_path = ''o'', ra_hook = ''auto'', ra_startup_timeout = JInt 10,
         ra_process = None, ra_status = None\<rparr>, sim_start)
      = (Inr \<lparr>rl_backend = ''fentry'', rl_map_id = 7\<rparr>, (a', w')) \<and>
    set (sim_alive w') = {0} \<and>
    receive_detach (sim_os [JObj [(''backend'', JStr ''fentry''), (''map_id'', JInt 7)]]) (a', w') = (q, (b, w'')) \<and>
    set (sim_alive w'') = {}"
proof -
  let ?os = "sim_os [JObj [(''backend'', JStr ''fentry''), (''map_id'', JInt 7)]]"
  let ?a = "\<lparr>ra_loader_path = ''l'', ra_object_path = ''o'', ra_hook = ''auto'', ra_startup_timeout = JInt 10,
         ra_process = None, ra_status = None\<rparr>"
  have parse: "parse_receive_loader_status ?os (sim_line \<lparr>sim_step = 0, sim_alive = [0], sim_log = []\<rparr>) =
      Inr \<lparr>rl_backend = ''fentry'', rl_map_id = 7\<rparr>"
    by (simp add: parse_receive_loader_status_def py_str_def)
  obtain a' w' where run: "receive_attach ?os (?a, sim_start) = (Inr \<lparr>rl_backend = ''fentry'', rl_map_id = 7\<rparr>, (a', w'))"
      and w': "set (sim_alive w') = {0}"
    using parse by (auto simp: receive_attach_def io_defs sim_start_def)
  obtain q b w'' where d: "receive_detach ?os (a', w') = (q, (b, w''))" by (metis surj_pair)
  from receive_attach_no_orphan [OF sim_child_laws run] d have "set (sim_alive w'') = {}"
    by (auto simp: sim_start_def)
  with run w' d show ?thesis by blast
qed

text \<open>The state of a collector under construction: only its own loader was started.\<close>

definition owned_children :: "ingress_collector \<Rightarrow> nat set" where
  "owned_children c = (case ic_receive_attachment c of None \<Rightarrow> {} | Some a \<Rightarrow> set_option (ra_process a))"

lemma on_receive_detach_dead:
  assumes laws: "child_laws os alive" and run: "on_receive (receive_detach os) (c, w) = (r, (c', w'))"
  shows "alive w' \<subseteq> alive w - owned_children c"
proof (cases "ic_receive_attachment c")
  case None
  with run show ?thesis by (simp add: on_receive_def owned_children_def)
next
  case (Some a)
  obtain q b w1 where d: "receive_detach os (a, w) = (q, (b, w1))" by (metis surj_pair)
  with run Some have "w' = w1" by (auto simp: on_receive_def)
  with receive_detach_dead [OF laws d] Some show ?thesis by (simp add: owned_children_def)
qed

lemma frames_fall_back:
  assumes "child_laws os alive"
  shows "frames (alive \<circ> snd) (fall_back_to_legacy os reason)"
  unfolding fall_back_to_legacy_def
  by (intro frame_intros frames_world_snd) (auto dest: child_warn [OF assms])

text \<open>The outcomes that the constructor's clean-up is written for.\<close>

fun returned_or_runtime :: "'a res \<Rightarrow> bool" where
  "returned_or_runtime (Inr _) = True"
| "returned_or_runtime (Inl (RuntimeError _ _)) = True"
| "returned_or_runtime (Inl _) = False"

lemma configure_cookie_children:
  assumes laws: "child_laws os alive"
    and run: "configure_cookie os args mode (c, w) = (q, (c', w'))" and q: "returned_or_runtime q"
    and fresh: "ic_receive_attachment c = None"
  shows "alive w' \<subseteq> alive w \<union> owned_children c'"
proof -
  consider e where "new_receive_attachment (ia_receive_loader_path args) (ia_receive_object_path args) (ia_receive_hook args) = Inl e"
    | att where "new_receive_attachment (ia_receive_loader_path args) (ia_receive_object_path args) (ia_receive_hook args) = Inr att"
    by (cases "new_receive_attachment (ia_receive_loader_path args) (ia_receive_object_path args) (ia_receive_hook args)") auto
  then show ?thesis
  proof cases
    case 1
    with run show ?thesis by (auto simp: configure_cookie_def io_defs)
  next
    case (2 att)
    obtain r att' w1 where a: "receive_attach os (att, w) = (r, (att', w1))" by (metis surj_pair)
    note child = receive_attach_child [OF laws a]
    have legacy: "alive v = alive w1" if "fall_back_to_legacy os reason (c, w1) = (q, (d, v))" for reason q d v
      using framesD [OF frames_fall_back [OF laws] that] by simp
    show ?thesis
    proof (cases r)
      case (Inl e)
      with run q 2 a child legacy show ?thesis
        by (cases e) (fastforce simp: configure_cookie_def io_defs split: if_splits)+
    next
      case (Inr st)
      with run 2 a child show ?thesis
        by (auto simp: configure_cookie_def io_defs new_delivered_reader_def owned_children_def split: if_splits)
    qed
  qed
qed

lemma configure_delivery_children:
  assumes laws: "child_laws os alive"
    and run: "configure_delivery os args (c, w) = (q, (c', w'))" and q: "returned_or_runtime q"
    and fresh: "ic_receive_attachment c = None"
  shows "alive w' \<subseteq> alive w \<union> owned_children c'"
proof -
  let ?c = "if ic_enricher c = None then c\<lparr>ic_enricher := Some (new_enricher None)\<rparr> else c"
  have c: "ic_receive_attachment ?c = None" using fresh by simp
  have legacy: "alive v = alive w" if "fall_back_to_legacy os reason (?c, w) = (r, (d, v))" for reason r d v
    using framesD [OF frames_fall_back [OF laws] that] by simp
  consider "ic_attribution c \<in> {''none'', ''legacy''}"
    | "ic_attribution c \<notin> {''none'', ''legacy''}" "\<not> ia_attach args"
    | "ic_attribution c \<notin> {''none'', ''legacy''}" "ia_attach args" by blast
  then show ?thesis
  proof cases
    case 1
    with run show ?thesis by (auto simp: configure_delivery_def io_defs split: if_splits)
  next
    case 2
    with run legacy show ?thesis
      by (cases "ia_receive_map_id args")
         (auto simp: configure_delivery_def io_bind_def io_get_def io_modify_def io_raise_def io_res_def
            new_delivered_reader_def split: if_splits)
  next
    case 3
    with run have "configure_cookie os args (ic_attribution c) (?c, w) = (q, (c', w'))"
      by (simp add: configure_delivery_def io_bind_def io_get_def io_modify_def)
    from configure_cookie_children [OF laws this q c] show ?thesis .
  qed
qed

lemma on_part_children:
  assumes laws: "child_laws os alive"
  shows "on_attachment (tc_attach os) (c, w) = (r, (c', w')) \<Longrightarrow>
      alive w' = alive w \<and> ic_receive_attachment c' = ic_receive_attachment c"
    and "on_attachment (tc_detach os ignore) (c, w) = (r', (c', w')) \<Longrightarrow>
      alive w' = alive w \<and> ic_receive_attachment c' = ic_receive_attachment c"
    and "on_reader (refresh_map_id os) (c, w) = (i, (c', w')) \<Longrightarrow>
      alive w' = alive w \<and> ic_receive_attachment c' = ic_receive_attachment c"
  using framesD [OF frames_tc_attach [OF laws], of "(ic_attachment c, w)"]
    framesD [OF frames_tc_detach [OF laws], of ignore "(ic_attachment c, w)"]
    framesD [OF frames_refresh_map_id [OF laws], of "(ic_reader c, w)"]
  by (auto simp: on_attachment_def on_reader_def io_self_def split: prod.splits)

lemma collector_setup_children:
  assumes laws: "child_laws os alive"
    and run: "collector_setup os args (c, w) = (q, (c', w'))" and q: "returned_or_runtime q"
    and fresh: "ic_receive_attachment c = None"
  shows "alive w' \<subseteq> alive w \<union> owned_children c'"
proof -
  obtain q1 c1 w1 where 1: "(if ia_attach args then on_attachment (tc_attach os) else io_return ()) (c, w) = (q1, (c1, w1))"
    by (metis surj_pair)
  then have s1: "alive w1 = alive w" "ic_receive_attachment c1 = None"
    using on_part_children(1) [OF laws] fresh by (auto simp: io_return_def split: if_splits)
  obtain q2 c2 w2 where 2: "on_reader (refresh_map_id os) (c1, w1) = (q2, (c2, w2))" by (metis surj_pair)
  have s2: "alive w2 = alive w" "ic_receive_attachment c2 = None"
    using on_part_children(3) [OF laws 2] s1 by simp_all
  show ?thesis
  proof (cases q1)
    case (Inl e)
    with run 1 s1 show ?thesis by (auto simp: collector_setup_def io_bind_def)
  next
    case (Inr u)
    note q1 = this
    show ?thesis
    proof (cases q2)
      case (Inl e)
      with run 1 2 q1 s2 show ?thesis by (auto simp: collector_setup_def io_bind_def)
    next
      case (Inr i)
      with run 1 2 q1 have "configure_delivery os args (c2, w2) = (q, (c', w'))"
        by (simp add: collector_setup_def io_bind_def)
      from configure_delivery_children [OF laws this q s2(2)] s2(1) show ?thesis by simp
    qed
  qed
qed

text \<open>Which filter the collector's attachment names never changes.\<close>

definition filter_of :: "tc_attachment \<Rightarrow> string \<times> int" where
  "filter_of t = (tc_ifname t, tc_pref t)"

lemma frames_tc_filter:
  "frames (filter_of \<circ> fst) (tc_detach os ignore)" "frames (filter_of \<circ> fst) (tc_attach os)"
proof -
  have d: "frames (filter_of \<circ> fst) (tc_detach os b)" for b
    unfolding tc_detach_def set_attached_def by (intro frame_intros) (auto simp: filter_of_def)
  then show "frames (filter_of \<circ> fst) (tc_detach os ignore)" by this
  show "frames (filter_of \<circ> fst) (tc_attach os)"
    unfolding tc_attach_def set_attached_def by (intro frame_intros d) (auto simp: filter_of_def)
qed

text \<open>What the choice of the delivery mode does not touch.\<close>

lemma frames_configure_delivery:
  assumes f: "\<And>m c. f (c\<lparr>ic_attribution := m\<rparr>) = f c" "\<And>b c. f (c\<lparr>ic_receive_backend := b\<rparr>) = f c"
    "\<And>a c. f (c\<lparr>ic_receive_attachment := a\<rparr>) = f c" "\<And>e c. f (c\<lparr>ic_enricher := e\<rparr>) = f c"
    "\<And>r c. f (c\<lparr>ic_delivered_reader := r\<rparr>) = f c"
  shows "frames (f \<circ> fst) (configure_delivery os args)"
proof -
  have "frames (f \<circ> fst) (configure_cookie os args mode)" for mode
    unfolding configure_cookie_def
  proof (intro frame_intros)
    fix att
    show "frames (f \<circ> fst) (\<lambda>(c, w).
       case receive_attach os (att, w) of
         (Inl e, (att', w')) \<Rightarrow>
           (case e of
              RuntimeError msg vs \<Rightarrow>
                if mode = ''auto'' then fall_back_to_legacy os (error_text msg vs) (c, w') else (Inl e, (c, w'))
            | _ \<Rightarrow> (Inl e, (c, w')))
       | (Inr status, (att', w')) \<Rightarrow>
           (let c' = c\<lparr>ic_receive_attachment := Some att'\<rparr> in
            case new_delivered_reader (rl_map_id status) of
              Inl e \<Rightarrow> (Inl e, (c', w'))
            | Inr rd \<Rightarrow> (Inr (), (c'\<lparr>ic_delivered_reader := Some rd, ic_attribution := ''cookie'',
                             ic_receive_backend := Some (rl_backend status)\<rparr>, w'))))"
      by (auto simp: frames_def fall_back_to_legacy_def io_defs Let_def f
          split: prod.splits sum.splits py_error.splits)
  qed
  then show ?thesis
    unfolding configure_delivery_def fall_back_to_legacy_def by (intro frame_intros) (auto simp: f)
qed

lemma configure_delivery_filter:
  "configure_delivery os args (c, w) = (q, (c', w')) \<Longrightarrow> ic_attachment c' = ic_attachment c"
  using framesD [OF frames_configure_delivery [of ic_attachment], of os args "(c, w)" q "(c', w')"] by simp

lemma on_attachment_filter:
  "on_attachment (tc_attach os) (c, w) = (r, (c', w')) \<Longrightarrow> filter_of (ic_attachment c') = filter_of (ic_attachment c)"
  "on_attachment (tc_detach os ignore) (c, w) = (r', (c', w')) \<Longrightarrow> filter_of (ic_attachment c') = filter_of (ic_attachment c)"
  using framesD [OF frames_tc_filter(2), of os "(ic_attachment c, w)"]
    framesD [OF frames_tc_filter(1), of os ignore "(ic_attachment c, w)"]
  by (auto simp: on_attachment_def io_self_def split: prod.splits)

lemma collector_setup_filter:
  assumes run: "collector_setup os args (c, w) = (q, (c', w'))"
  shows "filter_of (ic_attachment c') = filter_of (ic_attachment c)"
proof -
  obtain q1 c1 w1 where 1: "(if ia_attach args then on_attachment (tc_attach os) else io_return ()) (c, w) = (q1, (c1, w1))"
    by (metis surj_pair)
  then have s1: "filter_of (ic_attachment c1) = filter_of (ic_attachment c)"
    using on_attachment_filter(1) by (auto simp: io_return_def split: if_splits)
  obtain q2 c2 w2 where 2: "on_reader (refresh_map_id os) (c1, w1) = (q2, (c2, w2))" by (metis surj_pair)
  then have s2: "ic_attachment c2 = ic_attachment c1" by (auto simp: on_reader_def io_self_def split: prod.splits)
  have "c' = c1 \<or> c' = c2 \<or> configure_delivery os args (c2, w2) = (q, (c', w'))"
    using run 1 2 by (cases q1; cases q2) (auto simp: collector_setup_def io_bind_def)
  then show ?thesis using s1 s2 configure_delivery_filter by metis
qed

lemma run_command_world:
  "snd (run_command os args sudo check w) = snd (os_run os (sudo_command args sudo) w)"
  by (auto simp: run_command_def Let_def io_defs split: prod.splits exec_outcome.splits)

lemma tc_detach_world:
  "snd (snd (tc_detach os ignore (t, w))) = snd (os_run os (sudo_command (tc_detach_args t) True) w)"
  using run_command_world [of os "tc_detach_args t" True False w]
  by (auto simp: tc_detach_def set_attached_def io_defs split: prod.splits sum.splits)

lemma tc_detach_trace:
  assumes rec: "records_commands os trace" and run: "on_attachment (tc_detach os ignore) (c, w) = (r, (c', w'))"
  shows "trace w' = trace w @ [sudo_command (tc_detach_args (ic_attachment c)) True]"
proof -
  have "w' = snd (snd (tc_detach os ignore (ic_attachment c, w)))"
    using run by (auto simp: on_attachment_def io_self_def split: prod.splits)
  with rec show ?thesis by (simp add: tc_detach_world records_commands_def)
qed

lemma on_receive_detach_trace:
  assumes rec: "records_commands os trace"
  shows "frames (trace \<circ> snd) (on_receive (receive_detach os))"
proof -
  have t: "os_poll os h w = (x, w') \<Longrightarrow> trace w' = trace w" "os_terminate os h w = (u, w') \<Longrightarrow> trace w' = trace w"
      "os_kill os h w = (u, w') \<Longrightarrow> trace w' = trace w" "os_communicate os h b w = (y, w') \<Longrightarrow> trace w' = trace w"
    for h w w' b x u y
    using rec unfolding records_commands_def by (metis snd_conv)+
  have "frames trace (stop_child os h)" for h
    unfolding stop_child_def by (intro frame_intros) (auto dest: t)
  then have "frames (trace \<circ> snd) (receive_detach os)"
    unfolding receive_detach_def by (intro frame_intros frames_world_snd) (auto dest: t)
  then show ?thesis
    by (simp add: frames_def on_receive_def split: option.splits prod.splits) (metis snd_conv)
qed

lemma cleanup_run:
  assumes laws: "child_laws os alive" and rec: "records_commands os trace"
    and e: "e \<noteq> KeyboardInterrupt"
    and run: "collector_cleanup os args e (c, w) = (r, (c', w'))"
  shows "isl r \<and> alive w' \<subseteq> alive w - owned_children c \<and>
    ((\<exists>u. fst (on_receive (receive_detach os) (c, w)) = Inr u) \<longrightarrow>
       trace w' = trace w @ (if ia_attach args then [sudo_command (tc_detach_args (ic_attachment c)) True] else []))"
proof -
  obtain q1 c1 w1 where 1: "on_receive (receive_detach os) (c, w) = (q1, (c1, w1))" by (metis surj_pair)
  obtain q2 c2 w2 where 2: "on_attachment (tc_detach os True) (c1, w1) = (q2, (c2, w2))" by (metis surj_pair)
  have att: "ic_attachment c1 = ic_attachment c"
    using 1 by (auto simp: on_receive_def split: option.splits prod.splits)
  note dead = on_receive_detach_dead [OF laws 1] and tr = framesD [OF on_receive_detach_trace [OF rec] 1]
    and keep = on_part_children(2) [OF laws 2] and del = tc_detach_trace [OF rec 2]
  show ?thesis
  proof (cases q1)
    case (Inl x)
    with run 1 e have "r = Inl x" "w' = w1" by (auto simp: collector_cleanup_def io_bind_def)
    with dead 1 Inl show ?thesis by simp
  next
    case (Inr u)
    with run 1 2 e have "isl r" "w' = (if ia_attach args then w2 else w1)"
      by (auto simp: collector_cleanup_def io_defs split: sum.splits if_splits)
    with dead keep del tr att show ?thesis by simp
  qed
qed

text \<open>Stopping the receive loader cannot raise: the operating system calls it makes are total.\<close>

lemma on_receive_detach_returns: "\<exists>u. fst (on_receive (receive_detach os) s) = Inr u"
proof -
  have "\<exists>u. fst (stop_child os h w) = Inr u" for h w
    by (auto simp: stop_child_def io_defs split: prod.splits option.splits)
  then have "\<exists>u. fst (receive_detach os t) = Inr u" for t
    by (auto simp: receive_detach_def io_bind_def io_get_def io_modify_def io_world_def io_op_def io_return_def
        split: prod.splits option.splits sum.splits) (metis Inl_Inr_False fst_conv)+
  then show ?thesis
    by (auto simp: on_receive_def split: option.splits prod.splits) (metis fst_conv)
qed

text \<open>(C9) A failed constructor leaves nothing behind. When the setup of the UDP collector raises a
  \<open>RuntimeError\<close> at whatever point (attaching the filter, finding the map, starting the loader), under any
  of the four attribution modes, the constructor raises and no process runs that did not run before. A
  constructor that attaches then runs one more command, which deletes the tc filter of its own interface
  and preference; one that was told not to attach (\<open>--no-attach\<close>) runs no further command, for it has
  attached no filter.\<close>

theorem failed_constructor_cleans_up:
  assumes laws: "child_laws os alive" and rec: "records_commands os trace"
    and known: "ia_attribution args \<in> {''none'', ''auto'', ''cookie'', ''legacy''}"
    and nm: "collector_ifname os args w = (Inr ifname, w1)"
    and failed: "collector_setup os args (initial_collector args ifname (effective_attribution args), w1) =
      (Inl (RuntimeError m vs), (c, w2))"
    and new: "new_ingress_collector os args w = (r, w')"
  shows "isl r \<and> alive w' \<subseteq> alive w \<and> trace w' = trace w2 @ (if ia_attach args then
    [[''sudo'', ''-n'', ''tc'', ''filter'', ''del'', ''dev'', ifname, ''ingress'', ''pref'', str_of_int (ia_pref args)]]
    else [])"
proof -
  let ?c0 = "initial_collector args ifname (effective_attribution args)"
  obtain q d v where clean: "collector_cleanup os args (RuntimeError m vs) (c, w2) = (q, (d, v))" by (metis surj_pair)
  have w1: "alive w1 = alive w" using framesD [OF frames_collector_ifname [OF laws] nm] .
  have "alive w2 \<subseteq> alive w1 \<union> owned_children c"
    by (rule collector_setup_children [OF laws failed]) (simp_all add: initial_collector_def)
  moreover have "filter_of (ic_attachment c) = (ifname, ia_pref args)"
    using collector_setup_filter [OF failed] by (simp add: initial_collector_def filter_of_def)
  moreover have "isl q \<and> alive v \<subseteq> alive w2 - owned_children c \<and>
      trace v = trace w2 @ (if ia_attach args then [sudo_command (tc_detach_args (ic_attachment c)) True] else [])"
    using cleanup_run [OF laws rec _ clean] on_receive_detach_returns [of os "(c, w2)"] by auto
  moreover have "isl r \<and> w' = v" if "isl q"
    using new known nm failed clean that
    by (cases q) (auto simp: new_ingress_collector_def io_catch_def)
  ultimately show ?thesis
    by (auto simp: w1 tc_detach_args_def sudo_command_def filter_of_def)
qed

lemma demo_failed_setup:
  "\<exists>m vs c w2. collector_setup (sim_os []) (demo_args\<lparr>ia_attach := True\<rparr>)
     (initial_collector (demo_args\<lparr>ia_attach := True\<rparr>) ''eth0'' ''none'', sim_start) =
     (Inl (RuntimeError m vs), (c, w2))"
  by (simp add: collector_setup_def on_attachment_def on_reader_def tc_attach_def tc_detach_def refresh_map_id_def
      run_json_def sim_run_command set_attached_def io_defs demo_args_def initial_collector_def)

lemma failed_constructor_cleans_up_witness:
  "\<exists>r w' before. new_ingress_collector (sim_os []) (demo_args\<lparr>ia_attach := True\<rparr>) sim_start = (r, w') \<and> isl r \<and>
    set (sim_alive w') \<subseteq> {} \<and> sim_log w' = before @
    [[''sudo'', ''-n'', ''tc'', ''filter'', ''del'', ''dev'', ''eth0'', ''ingress'', ''pref'', str_of_int 49152]]"
proof -
  let ?args = "demo_args\<lparr>ia_attach := True\<rparr>"
  obtain m vs c w2 where failed: "collector_setup (sim_os []) ?args
     (initial_collector ?args ''eth0'' (effective_attribution ?args), sim_start) = (Inl (RuntimeError m vs), (c, w2))"
    using demo_failed_setup by (auto simp: effective_attribution_def demo_args_def)
  obtain r w' where new: "new_ingress_collector (sim_os []) ?args sim_start = (r, w')" by (metis surj_pair)
  have ifname: "collector_ifname (sim_os []) ?args sim_start = (Inr ''eth0'', sim_start)"
    by (simp add: collector_ifname_def demo_args_def io_return_def)
  have known: "ia_attribution ?args \<in> {''none'', ''auto'', ''cookie'', ''legacy''}" "ia_attach ?args"
      "ia_pref ?args = 49152"
    by (simp_all add: demo_args_def)
  from failed_constructor_cleans_up [OF sim_child_laws sim_records known(1) ifname failed new] new known(2,3)
  show ?thesis by (auto simp: sim_start_def)
qed

text \<open>(C18) \<open>close\<close> of a collector that detaches on close stops the loader it started and then deletes
  its tc filter, as its last command.\<close>

theorem close_stops_loader:
  assumes laws: "child_laws os alive" and rec: "records_commands os trace"
    and detach: "ic_detach_on_close c" and run: "close_collector os (c, w) = (r, (c', w'))"
  shows "alive w' \<subseteq> alive w - owned_children c \<and>
    trace w' = trace w @ [sudo_command (tc_detach_args (ic_attachment c)) True]"
proof -
  obtain q1 c1 w1 where 1: "on_receive (receive_detach os) (c, w) = (q1, (c1, w1))" by (metis surj_pair)
  obtain u where u: "q1 = Inr u" using on_receive_detach_returns [of os "(c, w)"] 1 by auto
  obtain q2 c2 w2 where 2: "on_attachment (tc_detach os True) (c1, w1) = (q2, (c2, w2))" by (metis surj_pair)
  have "w' = w2" using run detach 1 2 u by (auto simp: close_collector_def io_bind_def io_get_def)
  moreover have "ic_attachment c1 = ic_attachment c"
    using 1 by (auto simp: on_receive_def split: option.splits prod.splits)
  ultimately show ?thesis
    using on_receive_detach_dead [OF laws 1] framesD [OF on_receive_detach_trace [OF rec] 1]
      on_part_children(2) [OF laws 2] tc_detach_trace [OF rec 2] by simp
qed

lemma close_stops_loader_witness:
  "\<exists>r c' w'. close_collector (sim_os []) (demo_collector, sim_start) = (r, (c', w')) \<and>
    sim_log w' = [[''sudo'', ''-n'', ''tc'', ''filter'', ''del'', ''dev'', ''eth0'', ''ingress'', ''pref'', str_of_int 49152]]"
proof -
  obtain r c' w' where run: "close_collector (sim_os []) (demo_collector, sim_start) = (r, (c', w'))"
    by (metis surj_pair)
  have "ic_detach_on_close demo_collector"
    by (simp add: demo_collector_def initial_collector_def demo_args_def)
  from close_stops_loader [OF sim_child_laws sim_records this run] run show ?thesis
    by (auto simp: demo_collector_def initial_collector_def demo_args_def tc_detach_args_def sudo_command_def sim_start_def)
qed

text \<open>(C38) Attaching is idempotent on the system: whenever \<open>attach\<close> of the tc filter succeeds it has run
  exactly three commands, in this order: make sure of the \<open>clsact\<close> qdisc, delete an old filter at this
  interface and preference, add the new one; and the attachment knows that it is attached.\<close>

theorem tc_attach_order:
  assumes rec: "records_commands os trace" and run: "tc_attach os (t, w) = (Inr u, (t', w'))"
  shows "trace w' = trace w @
      map (\<lambda>args. sudo_command args True) [tc_qdisc_args t, tc_detach_args t, tc_add_args t] \<and> tc_attached t'"
proof -
  have run1: "trace (snd (run_command os args s b v)) = trace v @ [sudo_command args s]" for args s b v
    using rec by (simp add: run_command_world records_commands_def)
  have ex: "os_exists os p v = (f, v') \<Longrightarrow> trace v' = trace v" for p v f v'
    using rec unfolding records_commands_def by (metis snd_conv)
  obtain f w1 where 1: "os_exists os (tc_object_path t) w = (f, w1)" by (metis surj_pair)
  obtain q w2 where 2: "run_command os (tc_qdisc_args t) True False w1 = (q, w2)" by (metis surj_pair)
  obtain d t3 w3 where 3: "tc_detach os True (t, w2) = (d, (t3, w3))" by (metis surj_pair)
  obtain x w4 where 4: "run_command os (tc_add_args t) True True w3 = (x, w4)" by (metis surj_pair)
  have 5: "w' = w4 \<and> t' = t3\<lparr>tc_attached := True\<rparr>"
    using run 1 2 3 4 by (cases q; cases d; cases x) (auto simp: tc_attach_def set_attached_def io_defs split: if_splits)
  have "trace w3 = trace w2 @ [sudo_command (tc_detach_args t) True]"
    using tc_detach_world [of os True t w2] 3 rec by (simp add: records_commands_def)
  with ex [OF 1] run1 [of "tc_qdisc_args t" True False w1] 2 run1 [of "tc_add_args t" True True w3] 4 5
  show ?thesis by simp
qed

lemma tc_attach_order_witness:
  "\<exists>u t' w'. tc_attach (sim_os []) (ic_attachment demo_collector, sim_start) = (Inr u, (t', w')) \<and>
    length (sim_log w') = 3 \<and> tc_attached t'"
proof -
  obtain u t' w' where run: "tc_attach (sim_os []) (ic_attachment demo_collector, sim_start) = (Inr u, (t', w'))"
    by (simp add: tc_attach_def tc_detach_def sim_run_command set_attached_def io_defs)
  from tc_attach_order [OF sim_records run] run show ?thesis by (auto simp: sim_start_def)
qed

section \<open>The choice of the map\<close>

text \<open>A loaded program that can be the counter: the wanted name, and maps of its own.\<close>

definition is_candidate :: "string \<Rightarrow> json \<Rightarrow> bool" where
  "is_candidate wanted p \<longleftrightarrow> py_get p ''name'' JNull = Inr (JStr wanted) \<and>
     (\<exists>ids. py_get p ''map_ids'' JNull = Inr ids \<and> py_truthy ids)"

lemma candidate_programs_set:
  "candidate_programs wanted ps = Inr cs \<Longrightarrow> set cs = {p \<in> set ps. is_candidate wanted p}"
  by (induction wanted ps arbitrary: cs rule: candidate_programs.induct)
     (auto simp: res_simps is_candidate_def split: if_splits)

lemma newest_program_max:
  assumes "newest_program cs = Inr p" and "cs \<noteq> []"
  shows "p \<in> set cs \<and> (\<forall>q \<in> set cs. \<exists>a b. int_get0 q ''id'' = Inr a \<and> int_get0 p ''id'' = Inr b \<and> a \<le> b)"
proof -
  obtain ids where ids: "traverse (\<lambda>x. int_get0 x ''id'') cs = Inr ids"
      and p: "p = snd (last (sort_key fst (zip ids cs)))"
    using assms(1) by (auto simp: newest_program_def res_simps)
  have len: "length ids = length cs" by (rule traverse_length [OF ids])
  with assms(2) have ne: "zip ids cs \<noteq> []" by (cases cs; cases ids) auto
  have pair: "int_get0 c ''id'' = Inr n" if "(n, c) \<in> set (zip ids cs)" for n c
    using that traverse_nth [OF ids] len by (auto simp: set_zip)
  obtain n where last': "last (sort_key fst (zip ids cs)) = (n, p)" by (metis p prod.collapse)
  with last_sort_key(1) [OF ne, of fst] have np: "(n, p) \<in> set (zip ids cs)" by simp
  have "\<exists>a b. int_get0 q ''id'' = Inr a \<and> int_get0 p ''id'' = Inr b \<and> a \<le> b" if "q \<in> set cs" for q
  proof -
    obtain k where k: "k < length cs" "cs ! k = q" using \<open>q \<in> set cs\<close> by (auto simp: in_set_conv_nth)
    then have kq: "(ids ! k, q) \<in> set (zip ids cs)" using len by (force simp: set_zip)
    from last_sort_key(2) [OF ne kq, of fst] last' have "ids ! k \<le> n" by simp
    with pair [OF kq] pair [OF np] show ?thesis by blast
  qed
  moreover have "p \<in> set cs" using np by (auto dest: set_zip_rightD)
  ultimately show ?thesis by blast
qed

lemma owned_map_ids_newest:
  assumes "owned_map_ids rd programs = Inr ids"
  shows "\<exists>ps p raw. py_iter programs = Inr ps \<and> p \<in> set ps \<and> is_candidate (mr_program_name rd) p \<and>
    (\<forall>q \<in> set ps. is_candidate (mr_program_name rd) q \<longrightarrow>
       (\<exists>a b. int_get0 q ''id'' = Inr a \<and> int_get0 p ''id'' = Inr b \<and> a \<le> b)) \<and>
    bind_res (py_get p ''map_ids'' JNull) py_iter = Inr raw \<and> traverse py_int raw = Inr ids"
proof -
  obtain ps cs p mi raw where
    ps: "py_iter programs = Inr ps" and
    cs: "candidate_programs (mr_program_name rd) ps = Inr cs" "cs \<noteq> []" and
    p: "newest_program cs = Inr p" "py_get p ''map_ids'' JNull = Inr mi" and
    raw: "(if py_truthy mi then py_iter mi else Inr []) = Inr raw" "traverse py_int raw = Inr ids"
    using assms unfolding owned_map_ids_def res_simps by blast
  note new = newest_program_max [OF p(1) cs(2)] and set = candidate_programs_set [OF cs(1)]
  from new set have "is_candidate (mr_program_name rd) p" by auto
  with p(2) have "py_truthy mi" by (auto simp: is_candidate_def)
  with raw(1) p(2) have "bind_res (py_get p ''map_ids'' JNull) py_iter = Inr raw" by simp
  with ps new set raw(2) show ?thesis by blast
qed

text \<open>The entry of the map listing that gave a name: the last one of that id.\<close>

lemma map_names_entry:
  "map_names os ms names = Inr names' \<Longrightarrow>
     if \<exists>m \<in> set ms. int_item m ''id'' = Inr i
     then \<exists>pre m post nm. ms = pre @ m # post \<and> int_item m ''id'' = Inr i \<and>
       py_get m ''name'' (JStr []) = Inr nm \<and> names' i = Some (py_str os nm) \<and>
       (\<forall>q \<in> set post. int_item q ''id'' \<noteq> Inr i)
     else names' i = names i"
proof (induction ms arbitrary: names)
  case Nil
  then show ?case by simp
next
  case (Cons m ms)
  show ?case
  proof (cases "\<exists>q \<in> set ms. int_item q ''id'' = Inr i")
    case True
    obtain names'' where "map_names os ms names'' = Inr names'"
      using Cons.prems by (auto simp: res_simps split: if_splits)
    from Cons.IH [OF this] True obtain pre q post nm where "ms = pre @ q # post"
        "int_item q ''id'' = Inr i" "py_get q ''name'' (JStr []) = Inr nm" "names' i = Some (py_str os nm)"
        "\<forall>q \<in> set post. int_item q ''id'' \<noteq> Inr i"
      by auto
    then have entry: "m # ms = (m # pre) @ q # post \<and> int_item q ''id'' = Inr i \<and>
        py_get q ''name'' (JStr []) = Inr nm \<and> names' i = Some (py_str os nm) \<and>
        (\<forall>q \<in> set post. int_item q ''id'' \<noteq> Inr i)"
      by simp
    have listed: "\<exists>q \<in> set (m # ms). int_item q ''id'' = Inr i" using True by simp
    show ?thesis unfolding if_P [OF listed] by (intro exI) (rule entry)
  next
    case False
    show ?thesis
    proof (cases "int_item m ''id'' = Inr i")
      case True
      then have "py_in ''id'' m = Inr True"
        using Cons.prems by (cases m) (auto simp: int_item_def res_simps split: option.splits if_splits)
      with True Cons.prems obtain nm where nm: "py_get m ''name'' (JStr []) = Inr nm"
          "map_names os ms (names(i \<mapsto> py_str os nm)) = Inr names'"
        by (auto simp: res_simps)
      from Cons.IH [OF nm(2)] False have "names' i = Some (py_str os nm)" by simp
      with True False nm(1) have entry: "m # ms = [] @ m # ms \<and> int_item m ''id'' = Inr i \<and>
          py_get m ''name'' (JStr []) = Inr nm \<and> names' i = Some (py_str os nm) \<and>
          (\<forall>q \<in> set ms. int_item q ''id'' \<noteq> Inr i)"
        by simp
      have listed: "\<exists>q \<in> set (m # ms). int_item q ''id'' = Inr i" using True by simp
      show ?thesis unfolding if_P [OF listed] by (intro exI) (rule entry)
    next
      case other: False
      obtain names'' where run: "map_names os ms names'' = Inr names'" and keep: "names'' i = names i"
        using Cons.prems other by (auto simp: res_simps split: if_splits)
      from Cons.IH [OF run] False other keep show ?thesis by simp
    qed
  qed
qed

text \<open>(C17) The map that is read is the right one. After a successful \<open>refresh_map_id\<close> the reader holds a
  map id that the newest loaded program of the wanted name owns: no program of that name that owns maps
  has a greater id. The output of \<open>bpftool map show\<close> has an entry for that id, the last one of that id,
  and its name is the wanted name cut to the kernel's fifteen characters; no id that the program lists
  earlier has an entry of that name. (A reader of a map with an empty name would take an unlisted map;
  the analyzer has none.)\<close>

theorem refresh_map_id_correct:
  assumes run: "refresh_map_id os (rd, w) = (Inr i, (rd', w'))" and named: "mr_map_name rd \<noteq> []"
  shows "rd' = rd\<lparr>mr_map_id := Some i\<rparr> \<and> (\<exists>programs w1 ps p raw ids before after maps ms pre m post nm.
    run_json os [''bpftool'', ''-j'', ''prog'', ''show''] True w = (Inr programs, w1) \<and>
    py_iter programs = Inr ps \<and> p \<in> set ps \<and> is_candidate (mr_program_name rd) p \<and>
    (\<forall>q \<in> set ps. is_candidate (mr_program_name rd) q \<longrightarrow>
       (\<exists>a b. int_get0 q ''id'' = Inr a \<and> int_get0 p ''id'' = Inr b \<and> a \<le> b)) \<and>
    bind_res (py_get p ''map_ids'' JNull) py_iter = Inr raw \<and> traverse py_int raw = Inr ids \<and>
    run_json os [''bpftool'', ''-j'', ''map'', ''show''] True w1 = (Inr maps, w') \<and> py_iter maps = Inr ms \<and>
    ms = pre @ m # post \<and> int_item m ''id'' = Inr i \<and> (\<forall>q \<in> set post. int_item q ''id'' \<noteq> Inr i) \<and>
    py_get m ''name'' (JStr []) = Inr nm \<and> py_str os nm = take 15 (mr_map_name rd) \<and>
    ids = before @ i # after \<and> (\<forall>j \<in> set before. \<exists>names. map_names os ms Map.empty = Inr names \<and>
      name_of_map names [] j \<noteq> take 15 (mr_map_name rd)))"
proof -
  let ?wanted = "take 15 (mr_map_name rd)"
  obtain programs w1 where 1: "run_json os [''bpftool'', ''-j'', ''prog'', ''show''] True w = (Inr programs, w1)"
    using run by (cases "run_json os [''bpftool'', ''-j'', ''prog'', ''show''] True w"; cases "fst (run_json os [''bpftool'', ''-j'', ''prog'', ''show''] True w)")
      (auto simp: refresh_map_id_def io_defs)
  obtain ids where 2: "owned_map_ids rd programs = Inr ids"
    using run 1 by (cases "owned_map_ids rd programs") (auto simp: refresh_map_id_def io_defs)
  obtain maps w2 where 3: "run_json os [''bpftool'', ''-j'', ''map'', ''show''] True w1 = (Inr maps, w2)"
    using run 1 2 by (cases "run_json os [''bpftool'', ''-j'', ''map'', ''show''] True w1"; cases "fst (run_json os [''bpftool'', ''-j'', ''map'', ''show''] True w1)")
      (auto simp: refresh_map_id_def io_defs)
  have 4: "choose_map os rd maps ids = Inr i \<and> rd' = rd\<lparr>mr_map_id := Some i\<rparr> \<and> w' = w2"
    using run 1 2 3 by (cases "choose_map os rd maps ids") (auto simp: refresh_map_id_def io_defs)
  then obtain ms names where listed: "(if py_truthy maps then py_iter maps else Inr []) = Inr ms"
      and names: "map_names os ms Map.empty = Inr names"
      and found: "find (\<lambda>j. name_of_map names [] j = ?wanted) ids = Some i"
    by (auto simp: choose_map_def Let_def bind_res_Inr_iff split: option.splits)
  from 3 4 have reader: "rd' = rd\<lparr>mr_map_id := Some i\<rparr>"
    and maps_read: "run_json os [''bpftool'', ''-j'', ''map'', ''show''] True w1 = (Inr maps, w')" by simp_all
  have nonempty: "?wanted \<noteq> []" using named by simp
  obtain before after where split: "ids = before @ i # after" "name_of_map names [] i = ?wanted"
      "\<forall>j \<in> set before. name_of_map names [] j \<noteq> ?wanted"
    using find_first [OF found] by blast
  have some: "names i = Some ?wanted"
    using split(2) nonempty by (auto simp: name_of_map_def split: option.splits)
  then obtain pre m post nm where entry: "ms = pre @ m # post" "int_item m ''id'' = Inr i"
      "py_get m ''name'' (JStr []) = Inr nm" "py_str os nm = ?wanted" "\<forall>q \<in> set post. int_item q ''id'' \<noteq> Inr i"
    using map_names_entry [OF names, of i] by (auto split: if_splits)
  have iter: "py_iter maps = Inr ms"
    using listed entry(1) by (auto split: if_splits)
  have earlier: "\<forall>j \<in> set before. \<exists>ns. map_names os ms Map.empty = Inr ns \<and> name_of_map ns [] j \<noteq> ?wanted"
    using names split(3) by blast
  from owned_map_ids_newest [OF 2] obtain ps p raw where own: "py_iter programs = Inr ps" "p \<in> set ps"
      "is_candidate (mr_program_name rd) p"
      "\<forall>q \<in> set ps. is_candidate (mr_program_name rd) q \<longrightarrow>
         (\<exists>a b. int_get0 q ''id'' = Inr a \<and> int_get0 p ''id'' = Inr b \<and> a \<le> b)"
      "bind_res (py_get p ''map_ids'' JNull) py_iter = Inr raw" "traverse py_int raw = Inr ids"
    by blast
  show ?thesis
    by (intro conjI exI) (rule reader 1 own maps_read iter entry split(1) earlier)+
qed

lemma refresh_map_id_correct_witness:
  "\<exists>rd' w'. refresh_map_id (sim_os
      [JList [JObj [(''id'', JInt 4), (''name'', JStr ''udp_ingress''), (''map_ids'', JList [JInt 8])],
              JObj [(''id'', JInt 9), (''name'', JStr ''udp_ingress''), (''map_ids'', JList [JInt 6, JInt 7])]],
       JList [JObj [(''id'', JInt 6), (''name'', JStr ''other'')], JObj [(''id'', JInt 7), (''name'', JStr ''udp_ingress_cou'')]]])
     (new_map_reader, sim_start) = (Inr 7, (rd', w')) \<and> mr_map_id rd' = Some 7"
proof -
  let ?t = "[JList [JObj [(''id'', JInt 4), (''name'', JStr ''udp_ingress''), (''map_ids'', JList [JInt 8])],
              JObj [(''id'', JInt 9), (''name'', JStr ''udp_ingress''), (''map_ids'', JList [JInt 6, JInt 7])]],
       JList [JObj [(''id'', JInt 6), (''name'', JStr ''other'')], JObj [(''id'', JInt 7), (''name'', JStr ''udp_ingress_cou'')]]]"
  obtain rd' w' where run: "refresh_map_id (sim_os ?t) (new_map_reader, sim_start) = (Inr 7, (rd', w'))"
    by (simp add: refresh_map_id_def sim_run_json io_defs sim_start_def owned_map_ids_def newest_program_def
        choose_map_def new_map_reader_def UDP_INGRESS_PROGRAM_NAME_def UDP_INGRESS_MAP_NAME_def py_str_def name_of_map_def)
  have "mr_map_name new_map_reader \<noteq> []" by (simp add: new_map_reader_def UDP_INGRESS_MAP_NAME_def)
  from refresh_map_id_correct [OF run this] run show ?thesis by auto
qed

end
