(* ===== verification/FlowFacts.thy ===== *)
theory FlowFacts
  imports FlowCollector EbpfFacts
begin

text \<open>
  What the channel collectors guarantee: the flow map as a delta reader, the rows of a checkpoint and how
  they are attributed, the owner cache, and the round trip of flow entries with the kernel's structs.
\<close>

section \<open>The flow map is read as deltas\<close>

lemma frames_unit_lookup:
  "(\<And>m c. f (c\<lparr>fl_pid_units := m\<rparr>) = f c) \<Longrightarrow> frames (f \<circ> fst) (collector_unit_for_pid os pid)"
  unfolding collector_unit_for_pid_def by (intro frame_intros) auto

lemma frames_flow_emit:
  "(\<And>m c. f (c\<lparr>fl_pid_units := m\<rparr>) = f c) \<Longrightarrow> frames (f \<circ> fst) (flow_emit pr os b e first_entry i prev now)"
  unfolding flow_emit_def Let_def by (intro frame_intros frames_unit_lookup)

interpretation flows: delta_reader add_flow_counters zero_flow_counters fl_previous put_flows
    "flow_emit pr os b e first_entry" for pr and os :: "'w os" and b e first_entry
proof unfold_locales
  show "fl_previous (put_flows p ob) = p" for p ob by (simp add: put_flows_def)
  show "fl_previous (fst t) = fl_previous (fst s)"
    if "flow_emit pr os b e first_entry i prev c s = (r, t)" for i prev c s r t
    using framesD [OF frames_flow_emit that, of fl_previous] by simp
qed

abbreviation flow_ident :: "flow_entry \<Rightarrow> ident8" where
  "flow_ident \<equiv> flow_key_identity \<circ> fe_key"

abbreviation flow_counts :: "flow_entry \<Rightarrow> flow_counters" where
  "flow_counts \<equiv> flow_value_counters \<circ> fe_value"

abbreviation flow_sums :: "flow_entry list \<Rightarrow> (ident8 \<times> flow_counters) list \<times> (ident8 \<times> flow_entry) list" where
  "flow_sums \<equiv> aggregate flow_ident flow_counts add_flow_counters zero_flow_counters"

text \<open>The counters of one identity: the sums over all entries of the dump that carry it.\<close>

definition channel_total :: "flow_entry list \<Rightarrow> ident8 \<Rightarrow> flow_counters" where
  "channel_total entries i =
     (let vs = map fe_value (filter (\<lambda>x. flow_ident x = i) entries)
      in \<lparr>fc_tx_bytes = sum_list (map fv_tx_bytes vs), fc_rx_bytes = sum_list (map fv_rx_bytes vs),
          fc_tx_calls = sum_list (map fv_tx_calls vs), fc_rx_calls = sum_list (map fv_rx_calls vs),
          fc_connections = sum_list (map fv_connections vs)\<rparr>)"

lemma channel_total_eq: "flow_ctr.total flow_ident flow_counts entries i = channel_total entries i"
proof -
  have f: "fold (\<lambda>x a. add_flow_counters a (flow_counts x)) es z =
     \<lparr>fc_tx_bytes = fc_tx_bytes z + sum_list (map (fv_tx_bytes \<circ> fe_value) es),
      fc_rx_bytes = fc_rx_bytes z + sum_list (map (fv_rx_bytes \<circ> fe_value) es),
      fc_tx_calls = fc_tx_calls z + sum_list (map (fv_tx_calls \<circ> fe_value) es),
      fc_rx_calls = fc_rx_calls z + sum_list (map (fv_rx_calls \<circ> fe_value) es),
      fc_connections = fc_connections z + sum_list (map (fv_connections \<circ> fe_value) es)\<rparr>" for es z
    by (induction es arbitrary: z) (simp_all add: add_flow_counters_def flow_value_counters_def)
  show ?thesis
    unfolding flow_ctr.total_def channel_total_def Let_def f by (simp add: zero_flow_counters_def)
qed

definition channel_baseline :: "flow_entry list \<Rightarrow> (ident8 \<rightharpoonup> flow_counters)" where
  "channel_baseline entries i =
     (if i \<in> flow_ident ` set entries then Some (channel_total entries i) else None)"

lemma flow_totals: "map_of (fst (flow_sums entries)) = channel_baseline entries"
  by (simp only: fun_eq_iff flow_ctr.aggregate_totals channel_total_eq channel_baseline_def) simp

text \<open>\<open>_read_flows\<close> after its dump.\<close>

definition flow_loop ::
  "flow_proto \<Rightarrow> 'w os \<Rightarrow> int \<Rightarrow> int \<Rightarrow> flow_entry list \<Rightarrow> (flow_collector \<times> 'w, channel_sample list) io" where
  "flow_loop pr os b e entries s =
     emit_loop put_flows fl_previous (flow_emit pr os b e (snd (flow_sums entries))) (fst (flow_sums entries)) []
       (put_flows (drop_stale (fst (flow_sums entries)) (fl_previous (fst s))) (fst s), snd s)"

lemma read_flows_loop:
  assumes "flow_dump_entries pr os (fl_map_id c) w = (Inr entries, w')"
  shows "read_flows pr os b e (c, w) = flow_loop pr os b e entries (c, w')"
  using assms
  by (simp add: read_flows_def flow_loop_def io_bind_def io_get_def io_world_def io_modify_def split: prod.splits)

lemma read_flows_dump_error:
  "flow_dump_entries pr os (fl_map_id c) w = (Inl x, w') \<Longrightarrow> read_flows pr os b e (c, w) = (Inl x, (c, w'))"
  by (simp add: read_flows_def io_bind_def io_get_def io_world_def)

lemma flow_loop_baseline:
  "flow_loop pr os b e entries s = (Inr rows, t) \<Longrightarrow> fl_previous (fst t) = channel_baseline entries"
  unfolding flow_loop_def
  by (drule flows.checkpoint_baseline [OF _ flow_ctr.aggregate_distinct]) (simp only: flow_totals)

section \<open>What one row says\<close>

text \<open>
  A row of a flow \<open>x\<close> that grew from \<open>p\<close> to \<open>t\<close>: the clamped growth of each counter, not all zero, the
  identity of the socket, and the verdict of the catalog for the row's unit and endpoint.
\<close>

definition channel_row :: "flow_proto \<Rightarrow> channel_catalog \<Rightarrow> flow_entry \<Rightarrow> flow_counters \<Rightarrow> flow_counters \<Rightarrow> int \<Rightarrow> int
    \<Rightarrow> channel_sample \<Rightarrow> bool" where
  "channel_row pr catalog x p t b e r \<longleftrightarrow>
     cs_tx_bytes r = max (fc_tx_bytes t - fc_tx_bytes p) 0 \<and> cs_rx_bytes r = max (fc_rx_bytes t - fc_rx_bytes p) 0 \<and>
     cs_tx_calls r = max (fc_tx_calls t - fc_tx_calls p) 0 \<and> cs_rx_calls r = max (fc_rx_calls t - fc_rx_calls p) 0 \<and>
     cs_connections r = max (fc_connections t - fc_connections p) 0 \<and>
     (cs_tx_bytes r > 0 \<or> cs_rx_bytes r > 0 \<or> cs_tx_calls r > 0 \<or> cs_rx_calls r > 0 \<or> cs_connections r > 0) \<and>
     cs_bucket_ms r = e \<and> cs_bucket_start_ns r = b \<and> cs_layer r = fp_layer pr \<and> cs_ip_proto r = fp_ip_proto pr \<and>
     cs_socket_id r = fk_socket_cookie (fe_key x) \<and> cs_cgroup_id r = fk_cgroup_id (fe_key x) \<and>
     cs_host_pid r = fv_pid (fe_value x) \<and> cs_src_port r = fk_src_port (fe_key x) \<and>
     ipv4_from_bpf_int (fk_src_ip4 (fe_key x)) = Inr (cs_src_ip r) \<and>
     fp_endpoint pr (fe_key x) = Inr (cs_dst_ip r, cs_dst_port r) \<and>
     cs_status r = cm_status (catalog_match catalog (cs_unit r) (cs_dst_ip r) (cs_dst_port r)) \<and>
     (case cm_target (catalog_match catalog (cs_unit r) (cs_dst_ip r) (cs_dst_port r)) of
        None \<Rightarrow> cs_channel r = [] \<and> cs_url r = [] \<and> cs_host r = []
      | Some g \<Rightarrow> cs_channel r = ct_channel g \<and> cs_url r = ct_url g \<and> cs_host r = ct_host g)"

lemma flow_emit_row:
  assumes emit: "flow_emit pr os b e first_entry i p t u = (Inr rows, v)" and r: "r \<in> set rows"
  shows "\<exists>x. map_of first_entry i = Some x \<and> channel_row pr (fl_catalog (fst u)) x p t b e r \<and>
    channel_matches (fl_filter (fst u)) r"
proof -
  have busy: "\<not> flow_idle (flow_delta p t)"
  proof
    assume "flow_idle (flow_delta p t)"
    with emit r show False by (simp add: flow_emit_def io_return_def)
  qed
  obtain x where x: "map_of first_entry i = Some x"
    using emit busy by (cases "map_of first_entry i") (auto simp: flow_emit_def Let_def io_raise_def)
  obtain unit u1 where unit: "collector_unit_for_pid os (fv_pid (fe_value x)) u = (Inr unit, u1)"
    using emit unfolding flow_emit_def Let_def if_not_P [OF busy] x option.case by (simp only: io_bind_Inr_iff) blast
  have keep: "fl_catalog (fst u1) = fl_catalog (fst u)" "fl_filter (fst u1) = fl_filter (fst u)"
    using framesD [OF frames_unit_lookup unit, of fl_catalog] framesD [OF frames_unit_lookup unit, of fl_filter] by simp_all
  obtain ep_ip ep_port where ep: "fp_endpoint pr (fe_key x) = Inr (ep_ip, ep_port)"
    using emit unit unfolding flow_emit_def Let_def if_not_P [OF busy] x option.case
    by (cases "fp_endpoint pr (fe_key x)") (auto simp: io_bind_def io_res_def)
  obtain src where src: "ipv4_from_bpf_int (fk_src_ip4 (fe_key x)) = Inr src"
    using emit unit ep unfolding flow_emit_def Let_def if_not_P [OF busy] x option.case
    by (cases "ipv4_from_bpf_int (fk_src_ip4 (fe_key x))") (auto simp: io_bind_def io_res_def io_get_def)
  obtain n w2 where n: "ifname_from_index os (fv_ifindex (fe_value x)) [] (snd u1) = (Inr n, w2)"
    using emit unit ep src unfolding flow_emit_def Let_def if_not_P [OF busy] x option.case
    by (cases "ifname_from_index os (fv_ifindex (fe_value x)) [] (snd u1)"; cases "fst (ifname_from_index os (fv_ifindex (fe_value x)) [] (snd u1))")
       (auto simp: io_bind_def io_res_def io_get_def io_world_def)
  let ?m = "catalog_match (fl_catalog (fst u)) unit ep_ip ep_port"
  let ?r = "flow_sample pr b e x (flow_delta p t) unit ?m src ep_ip ep_port n"
  have "rows = (if channel_matches (fl_filter (fst u)) ?r then [?r] else [])"
    using emit unit ep src n unfolding flow_emit_def Let_def if_not_P [OF busy] x option.case
    by (auto simp: io_bind_def io_res_def io_get_def io_world_def io_return_def keep)
  with r have eq: "r = ?r" and f: "channel_matches (fl_filter (fst u)) ?r" by (auto split: if_splits)
  have "channel_row pr (fl_catalog (fst u)) x p t b e ?r"
    using busy ep src
    by (auto simp: channel_row_def flow_sample_def flow_delta_def flow_idle_def target_text_def split: option.splits)
  with x eq f show ?thesis by blast
qed

section \<open>A checkpoint of the flow map\<close>

text \<open>Catalog, filter, map and attachment are settings: no row changes them.\<close>

definition flow_settings :: "flow_collector \<Rightarrow> channel_catalog \<times> channel_filter \<times> int \<times> flow_attachment option" where
  "flow_settings c = (fl_catalog c, fl_filter c, fl_map_id c, fl_attachment c)"

definition same_settings :: "flow_collector \<Rightarrow> flow_collector \<times> 'w \<Rightarrow> bool" where
  "same_settings c s \<longleftrightarrow> flow_settings (fst s) = flow_settings c"

lemma same_settings_step:
  "same_settings c u \<Longrightarrow> same_settings c (put_flows p (fst u), snd u)"
  "flow_emit pr os b e fe i prev now u = (r, v) \<Longrightarrow> same_settings c u \<Longrightarrow> same_settings c v"
  using framesD [OF frames_flow_emit [of flow_settings], of pr os b e fe i prev now u r v]
  by (simp_all add: same_settings_def flow_settings_def put_flows_def)

lemma flow_loop_row:
  assumes loop: "flow_loop pr os b e entries (c, w) = (Inr rows, t)" and r: "r \<in> set rows"
  shows "\<exists>x p. x \<in> set entries \<and> fl_previous c (flow_ident x) = Some p \<and>
    map_of (snd (flow_sums entries)) (flow_ident x) = Some x \<and> channel_matches (fl_filter c) r \<and>
    channel_row pr (fl_catalog c) x p (channel_total entries (flow_ident x)) b e r"
proof -
  have start: "same_settings c (put_flows (drop_stale (fst (flow_sums entries)) (fl_previous c)) c, w)"
    by (simp add: same_settings_def flow_settings_def put_flows_def)
  let ?c = "put_flows (drop_stale (fst (flow_sums entries)) (fl_previous c)) c"
  have "r \<in> set [] \<or> (\<exists>i tot p u v xs. (i, tot) \<in> set (fst (flow_sums entries)) \<and>
      fl_previous (fst (?c, w)) i = Some p \<and>
      flow_emit pr os b e (snd (flow_sums entries)) i p tot u = (Inr xs, v) \<and> r \<in> set xs \<and> same_settings c u)"
  proof (rule flows.loop_samples_keep [where keep = "same_settings c"])
    show "same_settings c v" if "flow_emit pr os b e (snd (flow_sums entries)) i p t u = (q, v)" "same_settings c u"
      for i p t u q v
      using that by (rule same_settings_step(2))
    show "emit_loop put_flows fl_previous (flow_emit pr os b e (snd (flow_sums entries))) (fst (flow_sums entries)) []
        (?c, w) = (Inr rows, t)"
      using loop by (simp add: flow_loop_def)
  qed (rule same_settings_step(1) flow_ctr.aggregate_distinct r start | assumption)+
  then obtain i tot p u v xs where i: "(i, tot) \<in> set (fst (flow_sums entries))"
    and p: "drop_stale (fst (flow_sums entries)) (fl_previous c) i = Some p"
    and row: "flow_emit pr os b e (snd (flow_sums entries)) i p tot u = (Inr xs, v)" "r \<in> set xs"
    and u: "same_settings c u"
    by (auto simp: put_flows_def simp del: comp_apply)
  have "map_of (fst (flow_sums entries)) i = Some tot"
    using i flow_ctr.aggregate_distinct by (rule map_of_is_SomeI [rotated])
  then have tot: "tot = channel_total entries i"
    unfolding flow_totals channel_baseline_def by (simp only: split: if_splits) simp_all
  from p have p: "fl_previous c i = Some p" by (auto simp: drop_stale_def restrict_map_def split: if_splits)
  from flow_emit_row [OF row] u obtain x where x: "map_of (snd (flow_sums entries)) i = Some x"
      "channel_row pr (fl_catalog c) x p tot b e r" "channel_matches (fl_filter c) r"
    by (auto simp: same_settings_def flow_settings_def)
  from x(1) have "x \<in> set entries" "flow_ident x = i"
    unfolding flow_ctr.aggregate_first by (auto simp: find_Some_iff)
  with tot p x show ?thesis by blast
qed

text \<open>(C3) Channel rows are sound. After a dump, each row of a TCP or UDP checkpoint belongs to one dumped
  flow that an earlier checkpoint saw: its five counters are the clamped growth of the flow's sums since
  then and not all zero, it carries the socket cookie, the cgroup and the pid of that flow, its status and
  channel are the catalog's verdict on its unit and endpoint, and it passes the filter. Afterwards the
  baseline is the sums of this dump.\<close>

theorem channel_rows_sound:
  assumes dump: "flow_dump_entries pr os (fl_map_id c) w = (Inr entries, w')"
    and read: "read_flows pr os b e (c, w) = (Inr rows, (d, v))"
  shows "fl_previous d = channel_baseline entries \<and>
    (\<forall>r \<in> set rows. channel_matches (fl_filter c) r \<and>
      (\<exists>x p. x \<in> set entries \<and> fl_previous c (flow_key_identity (fe_key x)) = Some p \<and>
        channel_row pr (fl_catalog c) x p (channel_total entries (flow_key_identity (fe_key x))) b e r))"
proof -
  have loop: "flow_loop pr os b e entries (c, w') = (Inr rows, (d, v))"
    using read by (simp add: read_flows_loop [OF dump])
  from flow_loop_row [OF loop] flow_loop_baseline [OF loop] show ?thesis
    by (simp only: fst_conv comp_apply) blast
qed

text \<open>The first dump of new flows is a baseline, not traffic.\<close>

lemma flow_known:
  "i \<in> fst ` set (fst (flow_sums entries)) \<Longrightarrow> i \<in> flow_ident ` set entries"
  using flow_totals [of entries] weak_map_of_SomeI
  by (metis (no_types, lifting) channel_baseline_def imageE option.distinct(1) prod.collapse)

text \<open>First sight of channel flows seeds and reports nothing, whatever the unit, the catalog and the
  system: the checkpoint returns no row, does nothing more after the dump, and keeps the sums as baseline.\<close>

theorem channel_first_sight_silent:
  assumes dump: "flow_dump_entries pr os (fl_map_id c) w = (Inr entries, w')"
    and fresh: "\<forall>x \<in> set entries. fl_previous c (flow_key_identity (fe_key x)) = None"
  shows "\<exists>d. read_flows pr os b e (c, w) = (Inr [], (d, w')) \<and> fl_previous d = channel_baseline entries"
proof -
  let ?s = "(put_flows (drop_stale (fst (flow_sums entries)) (fl_previous c)) c, w')"
  have unknown: "fl_previous (fst ?s) i = None" if "i \<in> fst ` set (fst (flow_sums entries))" for i
    using flow_known [OF that] fresh by (auto simp: put_flows_def drop_stale_def restrict_map_def)
  have "\<exists>d. emit_loop put_flows fl_previous (flow_emit pr os b e (snd (flow_sums entries))) (fst (flow_sums entries)) [] ?s
      = (Inr [], (d, snd ?s))"
    by (rule flows.loop_seeds [OF unknown flow_ctr.aggregate_distinct])
  then obtain d where "flow_loop pr os b e entries (c, w') = (Inr [], (d, w'))"
    by (auto simp only: flow_loop_def fst_conv snd_conv)
  with flow_loop_baseline [OF this] show ?thesis by (simp add: read_flows_loop [OF dump])
qed

text \<open>One TCP flow, dumped with typed fields, and a collector that saw its first 100 bytes.\<close>

definition demo_flow_key :: flow_key where
  "demo_flow_key = \<lparr>fk_socket_cookie = 9, fk_src_ip4 = 16777226, fk_dst_ip4 = 33554442, fk_src_port = 53,
     fk_dst_port = 443, fk_family = 2, fk_ip_proto = 6, fk_cgroup_id = 5\<rparr>"

definition demo_flow_value :: "int \<Rightarrow> int \<Rightarrow> flow_value" where
  "demo_flow_value bts start = \<lparr>fv_tx_bytes = 1, fv_rx_bytes = bts, fv_tx_calls = 1, fv_rx_calls = 1,
     fv_connections = 0, fv_start_ns = start, fv_last_ns = 8, fv_pid = 7, fv_ifindex = 2, fv_state = 1\<rparr>"

definition demo_flow_entry :: "int \<Rightarrow> flow_entry" where
  "demo_flow_entry bts = \<lparr>fe_key = demo_flow_key, fe_value = demo_flow_value bts 6\<rparr>"

definition demo_flow_json :: "int \<Rightarrow> json" where
  "demo_flow_json bts = JList [JObj
     [(''key'', JObj [(''socket_cookie'', JInt 9), (''src_ip4'', JInt 16777226), (''dst_ip4'', JInt 33554442),
        (''src_port'', JInt 53), (''dst_port'', JInt 443), (''family'', JInt 2), (''ip_proto'', JInt 6),
        (''cgroup_id'', JInt 5)]),
      (''value'', JObj [(''tx_bytes'', JInt 1), (''rx_bytes'', JInt bts), (''tx_calls'', JInt 1),
        (''rx_calls'', JInt 1), (''start_ns'', JInt 6), (''last_ns'', JInt 8), (''pid'', JInt 7),
        (''ifindex'', JInt 2), (''state'', JInt 1)])]]"

definition demo_flow_collector :: flow_collector where
  "demo_flow_collector =
     \<lparr>fl_catalog = \<lparr>cat_targets = []\<rparr>, fl_bucket_ms = 1000, fl_filter = no_channel_filter, fl_proc_root = ''/proc'',
      fl_previous = Map.empty, fl_pid_units = Map.empty, fl_attachment = None, fl_map_id = 4,
      fl_last_checkpoint_ns = None\<rparr>"

lemma demo_flow_dump:
  "flow_dump_entries tcp_flows (sim_os [demo_flow_json bts]) 4 sim_start =
     (Inr [demo_flow_entry bts], sim_start\<lparr>sim_step := 1, sim_log := [sudo_command (dump_command 4) True]\<rparr>)"
proof -
  have "parse_dump (parse_flow_entry tcp_flows) (demo_flow_json bts) = Inr [demo_flow_entry bts]"
    by (simp add: parse_dump_def demo_flow_json_def parse_flow_entry_def parse_flow_key_def decode_flow_key_def
        validate_flow_key_def parse_flow_value_def flow_value_of_value_def demo_flow_entry_def demo_flow_key_def
        demo_flow_value_def tcp_flows_def int_get0_def)
  then show ?thesis
    by (simp add: flow_dump_entries_def sim_run_json io_defs sim_start_def)
qed

lemma channel_first_sight_silent_witness:
  "\<exists>d w'. read_flows tcp_flows (sim_os [demo_flow_json 500]) 0 250 (demo_flow_collector, sim_start) = (Inr [], (d, w')) \<and>
    fl_previous d = channel_baseline [demo_flow_entry 500]"
proof -
  have dump: "flow_dump_entries tcp_flows (sim_os [demo_flow_json 500]) (fl_map_id demo_flow_collector) sim_start =
     (Inr [demo_flow_entry 500], sim_start\<lparr>sim_step := 1, sim_log := [sudo_command (dump_command 4) True]\<rparr>)"
    by (simp add: demo_flow_collector_def demo_flow_dump)
  have "fl_previous demo_flow_collector = Map.empty" by (simp add: demo_flow_collector_def)
  with channel_first_sight_silent [OF dump, of 0 250] show ?thesis by auto
qed

lemma demo_flow_read:
  "\<exists>rows d v. read_flows tcp_flows (sim_os [demo_flow_json 500]) 0 250
      (put_flows (channel_baseline [demo_flow_entry 100]) demo_flow_collector, sim_start) = (Inr rows, (d, v)) \<and>
    length rows = 1"
proof -
  let ?c = "put_flows (channel_baseline [demo_flow_entry 100]) demo_flow_collector"
  have dump: "flow_dump_entries tcp_flows (sim_os [demo_flow_json 500]) (fl_map_id ?c) sim_start =
     (Inr [demo_flow_entry 500], sim_start\<lparr>sim_step := 1, sim_log := [sudo_command (dump_command 4) True]\<rparr>)"
    by (simp add: put_flows_def demo_flow_collector_def demo_flow_dump)
  show ?thesis
    unfolding read_flows_loop [OF dump]
    by (simp add: flow_loop_def aggregate_def aggregate_step_def Let_def setdefault_def
        drop_stale_def put_flows_def demo_flow_collector_def channel_baseline_def channel_total_def demo_flow_entry_def
        demo_flow_key_def demo_flow_value_def flow_key_identity_def flow_value_counters_def add_flow_counters_def
        zero_flow_counters_def flow_emit_def flow_delta_def flow_idle_def collector_unit_for_pid_def unit_for_pid_def
        read_text_def tcp_flows_def tcp_endpoint_def ip_text_in_range ifname_from_index_def io_defs)
qed

lemma channel_rows_sound_witness:
  "\<exists>rows d v. read_flows tcp_flows (sim_os [demo_flow_json 500]) 0 250
      (put_flows (channel_baseline [demo_flow_entry 100]) demo_flow_collector, sim_start) = (Inr rows, (d, v)) \<and>
    length rows = 1 \<and> (\<forall>r \<in> set rows. cs_rx_bytes r = 400 \<and> cs_status r = ''unknown_unit'')"
proof -
  let ?c = "put_flows (channel_baseline [demo_flow_entry 100]) demo_flow_collector"
  have dump: "flow_dump_entries tcp_flows (sim_os [demo_flow_json 500]) (fl_map_id ?c) sim_start =
     (Inr [demo_flow_entry 500], sim_start\<lparr>sim_step := 1, sim_log := [sudo_command (dump_command 4) True]\<rparr>)"
    by (simp add: put_flows_def demo_flow_collector_def demo_flow_dump)
  obtain rows d v where read: "read_flows tcp_flows (sim_os [demo_flow_json 500]) 0 250 (?c, sim_start) = (Inr rows, (d, v))"
    and len: "length rows = 1" using demo_flow_read by blast
  have "cs_rx_bytes r = 400 \<and> cs_status r = ''unknown_unit''" if "r \<in> set rows" for r
    using channel_rows_sound [OF dump read] that
    by (auto simp: channel_row_def put_flows_def demo_flow_collector_def channel_baseline_def channel_total_def
        demo_flow_entry_def demo_flow_value_def flow_delta_def catalog_match_def by_unit_def)
  with read len show ?thesis by blast
qed

section \<open>Entries of the flow maps\<close>

text \<open>The merged start is the minimum of the recorded ones, the merged last activity the maximum.\<close>

lemma fv_fold_earliest:
  "fv_start_ns (fold (\<lambda>p acc. merge_flow_values acc p) vs zero_flow_value) =
     (let starts = {s \<in> fv_start_ns ` set vs. s \<noteq> 0} in if starts = {} then 0 else Min starts)"
proof -
  let ?r = "fv_start_ns (fold (\<lambda>p acc. merge_flow_values acc p) vs zero_flow_value)"
  let ?starts = "{s \<in> fv_start_ns ` set vs. s \<noteq> 0}"
  have mem: "?r = 0 \<or> ?r \<in> fv_start_ns ` set vs" and low: "\<forall>s \<in> ?starts. ?r \<noteq> 0 \<and> ?r \<le> s"
    using fv_fold_start [of vs zero_flow_value] by (auto simp: zero_flow_value_def)
  show ?thesis
  proof (cases "?starts = {}")
    case True
    with mem have "?r = 0" by blast
    with True show ?thesis by (simp add: Let_def)
  next
    case False
    with mem low have "?r \<in> ?starts" by blast
    then have "Min ?starts = ?r" by (intro Min_eqI) (use low in auto)
    then show ?thesis unfolding Let_def if_not_P [OF False] by simp
  qed
qed

lemma fv_fold_last:
  "fv_last_ns (fold (\<lambda>p acc. merge_flow_values acc p) vs zero_flow_value) = Max (insert 0 (fv_last_ns ` set vs))"
proof -
  have "fv_last_ns (fold (\<lambda>p acc. merge_flow_values acc p) vs a) = Max (insert (fv_last_ns a) (fv_last_ns ` set vs))" for a
  proof (induction vs arbitrary: a)
    case (Cons v vs)
    have "Max (insert (fv_last_ns (merge_flow_values a v)) (fv_last_ns ` set vs)) =
        Max (insert (fv_last_ns a) (insert (fv_last_ns v) (fv_last_ns ` set vs)))"
      by (cases "vs = []") (simp_all add: merge_flow_values_def max.assoc)
    with Cons.IH show ?case by simp
  qed simp
  from this [of zero_flow_value] show ?thesis by (simp add: zero_flow_value_def)
qed

text \<open>(C31) Entries of a channel map survive the trip through the kernel's struct: the key that was packed
  comes back field by field, the five counters are the sums over all CPUs, the start is the earliest of the
  starts that the CPUs recorded (a CPU that recorded none has 0, and 0 is the result if no CPU did), the
  last activity is the latest, and pid, interface and state are the first that are not zero.\<close>

theorem flow_entry_roundtrip:
  assumes key: "pack flow_key_fmt (flow_key_vals k) = Inr kb" and valid: "validate_flow_key pr k = Inr ()"
    and vals: "map (\<lambda>v. pack flow_value_fmt (flow_value_vals v)) vs = map Inr bs"
  shows "\<exists>x. parse_flow_entry pr (percpu_entry kb bs) = Inr x \<and> fe_key x = k \<and>
    fv_tx_bytes (fe_value x) = sum_list (map fv_tx_bytes vs) \<and>
    fv_rx_bytes (fe_value x) = sum_list (map fv_rx_bytes vs) \<and>
    fv_tx_calls (fe_value x) = sum_list (map fv_tx_calls vs) \<and>
    fv_rx_calls (fe_value x) = sum_list (map fv_rx_calls vs) \<and>
    fv_connections (fe_value x) = sum_list (map fv_connections vs) \<and>
    fv_start_ns (fe_value x) =
      (let starts = {s \<in> fv_start_ns ` set vs. s \<noteq> 0} in if starts = {} then 0 else Min starts) \<and>
    fv_last_ns (fe_value x) = Max (insert 0 (fv_last_ns ` set vs)) \<and>
    fv_pid (fe_value x) = (case filter (\<lambda>i. i \<noteq> 0) (map fv_pid vs) of [] \<Rightarrow> 0 | i # _ \<Rightarrow> i) \<and>
    fv_ifindex (fe_value x) = (case filter (\<lambda>i. i \<noteq> 0) (map fv_ifindex vs) of [] \<Rightarrow> 0 | i # _ \<Rightarrow> i) \<and>
    fv_state (fe_value x) = (case filter (\<lambda>i. i \<noteq> 0) (map fv_state vs) of [] \<Rightarrow> 0 | i # _ \<Rightarrow> i)"
proof -
  have k: "parse_flow_key pr (json_bytes kb) = Inr k"
    using pack_length [OF key] flow_key_layout.decode_encode [OF key, of "[]"] valid
    by (simp add: parse_flow_key_def decode_flow_key_bytes)
  have v: "traverse (\<lambda>cpu. bind_res (py_get cpu ''value'' JNull) (flow_value_of_value pr))
      (map (\<lambda>b. JObj [(''value'', json_bytes b)]) bs) = Inr vs"
    using vals
  proof (induction vs arbitrary: bs)
    case (Cons v vs)
    then obtain b rest where bs: "bs = b # rest" and b: "pack flow_value_fmt (flow_value_vals v) = Inr b"
        and rest: "map (\<lambda>v. pack flow_value_fmt (flow_value_vals v)) vs = map Inr rest"
      by (cases bs) auto
    have "flow_value_of_value pr (json_bytes b) = Inr v"
      using pack_length [OF b] flow_value_layout.decode_encode [OF b, of "[]"] by (simp add: flow_value_bytes)
    with Cons.IH [OF rest] bs show ?case by simp
  qed simp
  let ?v = "fold (\<lambda>p acc. merge_flow_values acc p) vs zero_flow_value"
  have "parse_flow_entry pr (percpu_entry kb bs) = Inr \<lparr>fe_key = k, fe_value = ?v\<rparr>"
    unfolding parse_flow_entry_def parse_flow_value_def percpu_entry_def by (simp add: k v)
  then show ?thesis
    by (simp add: fv_fold_pid fv_fold_earliest fv_fold_last) (simp add: zero_flow_value_def)
qed

lemma demo_flow_pack:
  "pack flow_key_fmt (flow_key_vals demo_flow_key) =
    Inr [9, 0, 0, 0, 0, 0, 0, 0, 10, 0, 0, 1, 10, 0, 0, 2, 53, 0, 187, 1, 2, 6, 0, 0, 5, 0, 0, 0, 0, 0, 0, 0]"
  "pack flow_value_fmt (flow_value_vals (demo_flow_value 100 6)) =
    Inr ([1, 0, 0, 0, 0, 0, 0, 0, 100, 0, 0, 0, 0, 0, 0, 0, 1, 0, 0, 0, 0, 0, 0, 0, 1, 0, 0, 0, 0, 0, 0, 0,
      0, 0, 0, 0, 0, 0, 0, 0, 6, 0, 0, 0, 0, 0, 0, 0, 8, 0, 0, 0, 0, 0, 0, 0, 7, 0, 0, 0, 2, 0, 0, 0, 1, 0, 0, 0,
      0, 0, 0, 0])"
  "pack flow_value_fmt (flow_value_vals (demo_flow_value 200 4)) =
    Inr ([1, 0, 0, 0, 0, 0, 0, 0, 200, 0, 0, 0, 0, 0, 0, 0, 1, 0, 0, 0, 0, 0, 0, 0, 1, 0, 0, 0, 0, 0, 0, 0,
      0, 0, 0, 0, 0, 0, 0, 0, 4, 0, 0, 0, 0, 0, 0, 0, 8, 0, 0, 0, 0, 0, 0, 0, 7, 0, 0, 0, 2, 0, 0, 0, 1, 0, 0, 0,
      0, 0, 0, 0])"
  by code_simp+

lemma flow_entry_roundtrip_witness:
  "\<exists>kb b1 b2 x. parse_flow_entry tcp_flows (percpu_entry kb [b1, b2]) = Inr x \<and> fe_key x = demo_flow_key \<and>
    fv_rx_bytes (fe_value x) = 300 \<and> fv_start_ns (fe_value x) = 4 \<and> fv_pid (fe_value x) = 7"
proof -
  obtain kb b1 b2 where pk: "pack flow_key_fmt (flow_key_vals demo_flow_key) = Inr kb"
      "pack flow_value_fmt (flow_value_vals (demo_flow_value 100 6)) = Inr b1"
      "pack flow_value_fmt (flow_value_vals (demo_flow_value 200 4)) = Inr b2"
    using demo_flow_pack by blast
  have valid: "validate_flow_key tcp_flows demo_flow_key = Inr ()"
    by (simp add: validate_flow_key_def demo_flow_key_def tcp_flows_def)
  have vals: "map (\<lambda>v. pack flow_value_fmt (flow_value_vals v)) [demo_flow_value 100 6, demo_flow_value 200 4] =
      map Inr [b1, b2]"
    by (simp add: pk)
  have "{s \<in> fv_start_ns ` set [demo_flow_value 100 6, demo_flow_value 200 4]. s \<noteq> 0} = {6, 4}"
    by (auto simp: demo_flow_value_def)
  note starts = this
  show ?thesis
    using flow_entry_roundtrip [OF pk(1) valid vals, unfolded starts Let_def]
    by (auto simp: demo_flow_value_def)
qed

text \<open>The formats with which user space reads the channel maps are the layouts the C compiler gives to
  the key and value structs of \<open>tcp_channel.bpf.c\<close> and \<open>udp_channel.bpf.c\<close>: the same offset and width for
  every field, and the same total size.\<close>

lemma flow_map_layouts:
  "layout_agrees flow_key_fmt flow_key_struct \<and> layout_agrees flow_value_fmt flow_value_struct"
  by (simp add: flow_key_layout flow_value_layout)

end
