(* ===== verification/FlowOwner.thy ===== *)
theory FlowOwner
  imports FlowFacts
begin

text \<open>
  Which unit a channel row is attributed to: the service named by the process's cgroup file, read again at
  every checkpoint; the endpoint of an unconnected (multicast) receiver; and the time fields of a row.
\<close>

section \<open>The unit of a cgroup file\<close>

lemma splitlines_aux_line:
  "\<forall>c \<in> set l. \<not> is_line_end c \<Longrightarrow>
     splitlines_aux cur (l @ CHR 10 # rest) = (rev cur @ l) # splitlines_aux [] rest"
proof (induction l arbitrary: cur)
  case Nil
  have "is_line_end (CHR 10)" by code_simp
  then show ?case by (cases rest) simp_all
qed simp

lemma splitlines_lines:
  "\<forall>l \<in> set ls. \<forall>c \<in> set l. \<not> is_line_end c \<Longrightarrow> splitlines (concat (map (\<lambda>l. l @ [CHR 10]) ls)) = ls"
  unfolding splitlines_def by (induction ls) (simp_all add: splitlines_aux_line)

text \<open>One line \<open>hierarchy:controllers:/part/part\<close> of \<open>/proc/<pid>/cgroup\<close>.\<close>

definition cgroup_line :: "string \<times> string list \<Rightarrow> string" where
  "cgroup_line l = fst l @ '':/'' @ join ''/'' (snd l)"

definition clean_part :: "string \<Rightarrow> bool" where
  "clean_part p \<longleftrightarrow> (\<forall>c \<in> set p. c \<noteq> CHR ''/'' \<and> c \<noteq> CHR '':'' \<and> \<not> is_line_end c)"

lemma join_slash_chars:
  "c \<in> set (join ''/'' ps) \<Longrightarrow> c = CHR ''/'' \<or> (\<exists>p \<in> set ps. c \<in> set p)"
  by (induction "''/''" ps rule: join.induct) auto

lemma line_services_cgroup:
  assumes parts: "\<forall>p \<in> set ps. clean_part p" and ne: "ps \<noteq> []"
  shows "line_services (cgroup_line (pre, ps)) = filter is_service_part ps"
proof -
  have "CHR '':'' \<notin> set (CHR ''/'' # join ''/'' ps)"
    using parts join_slash_chars [of "CHR '':''" ps] by (auto simp: clean_part_def)
  then have "split_last (CHR '':'') (cgroup_line (pre, ps)) = Some (pre, CHR ''/'' # join ''/'' ps)"
    unfolding split_last_Some by (simp add: cgroup_line_def)
  moreover have "split_on (CHR ''/'') (CHR ''/'' # join ''/'' ps) = [] # ps"
    using split_on_join [OF ne, of "CHR ''/''"] parts by (auto simp: clean_part_def)
  moreover have "\<not> is_service_part []" by code_simp
  ultimately show ?thesis by (simp add: line_services_def)
qed

text \<open>(C28) The owning unit. A cgroup file of any number of lines yields the last service of its last line
  that has one: nested under a slice, a scope or the user manager's own \<open>user@\<close> unit, the innermost
  service wins, and the user manager itself is never the owner. Without a service the owner is empty.\<close>

theorem unit_of_cgroup_file:
  assumes lines: "\<forall>(pre, ps) \<in> set ls. (\<forall>c \<in> set pre. \<not> is_line_end c) \<and> ps \<noteq> [] \<and> (\<forall>p \<in> set ps. clean_part p)"
  shows "unit_from_cgroup_text (concat (map (\<lambda>l. cgroup_line l @ [CHR 10]) ls)) =
    (let services = concat (map (filter is_service_part \<circ> snd) ls)
     in if services = [] then [] else last services)"
proof -
  have "\<forall>l \<in> set (map cgroup_line ls). \<forall>c \<in> set l. \<not> is_line_end c"
  proof (intro ballI)
    fix l c assume "l \<in> set (map cgroup_line ls)" and c: "c \<in> set l"
    then obtain pre ps where l: "l = cgroup_line (pre, ps)" and mem: "(pre, ps) \<in> set ls" by auto
    have ascii: "\<not> is_line_end (CHR '':'')" "\<not> is_line_end (CHR ''/'')" by code_simp+
    from c consider "c \<in> set pre" | "c = CHR '':''" | "c = CHR ''/''" | p where "p \<in> set ps" "c \<in> set p"
      using join_slash_chars [of c ps] by (auto simp: l cgroup_line_def)
    then show "\<not> is_line_end c"
      using lines mem ascii by cases (auto simp: clean_part_def split: prod.splits)
  qed
  then have "splitlines (concat (map (\<lambda>l. cgroup_line l @ [CHR 10]) ls)) = map cgroup_line ls"
    using splitlines_lines [of "map cgroup_line ls"] by (simp add: comp_def)
  moreover have "concat (map (line_services \<circ> cgroup_line) ls) = concat (map (filter is_service_part \<circ> snd) ls)"
    using lines line_services_cgroup by (intro arg_cong [of _ _ concat] map_cong) (auto split: prod.splits)
  ultimately show ?thesis by (simp add: unit_from_cgroup_text_def)
qed

lemma unit_of_cgroup_file_witness:
  "unit_from_cgroup_text (concat (map (\<lambda>l. cgroup_line l @ [CHR 10])
     [(''1:cpu'', [''init.scope'']), (''0:'', [''user.slice'', ''user@1000.service'', ''radio.service''])])) = ''radio.service''"
proof -
  have lines: "\<forall>(pre, ps) \<in> set [(''1:cpu'', [''init.scope'']), (''0:'', [''user.slice'', ''user@1000.service'', ''radio.service''])].
     (\<forall>c \<in> set pre. \<not> is_line_end c) \<and> ps \<noteq> [] \<and> (\<forall>p \<in> set ps. clean_part p)"
    unfolding clean_part_def by code_simp
  have services: "concat (map (filter is_service_part \<circ> snd)
      [(''1:cpu'', [''init.scope'']), (''0:'', [''user.slice'', ''user@1000.service'', ''radio.service''])]) = [''radio.service'']"
    by code_simp
  show ?thesis unfolding unit_of_cgroup_file [OF lines] services Let_def by simp
qed

section \<open>Owners are read at the checkpoint\<close>

text \<open>The owner of every process, while nothing changes \<open>/proc\<close>.\<close>

definition steady_owners :: "'w os \<Rightarrow> string \<Rightarrow> (int \<Rightarrow> string) \<Rightarrow> bool" where
  "steady_owners os proc owner \<longleftrightarrow> (\<forall>pid w. fst (unit_for_pid os pid proc w) = Inr (owner pid))"

definition owned_rows :: "(int \<Rightarrow> string) \<Rightarrow> channel_sample \<Rightarrow> bool" where
  "owned_rows owner r \<longleftrightarrow> cs_unit r = (if cs_host_pid r \<le> 0 then [] else owner (cs_host_pid r))"

text \<open>The cache holds only what was read.\<close>

definition cache_ok :: "string \<Rightarrow> (int \<Rightarrow> string) \<Rightarrow> flow_collector \<times> 'w \<Rightarrow> bool" where
  "cache_ok proc owner s \<longleftrightarrow> fl_proc_root (fst s) = proc \<and>
     (\<forall>pid unit. fl_pid_units (fst s) pid = Some unit \<longrightarrow> unit = owner pid)"

lemma lookup_owner:
  assumes steady: "steady_owners os proc owner" and ok: "cache_ok proc owner s"
    and run: "collector_unit_for_pid os pid s = (Inr unit, t)"
  shows "unit = (if pid \<le> 0 then [] else owner pid)"
proof (cases "pid \<le> 0")
  case True
  with run show ?thesis by (simp add: collector_unit_for_pid_def io_return_def)
next
  case False
  obtain q w' where u: "unit_for_pid os pid proc (snd s) = (q, w')" by (metis surj_pair)
  with steady have "q = Inr (owner pid)" by (auto simp: steady_owners_def dest: spec [of _ pid])  (metis fst_conv)
  with run ok u False show ?thesis
    by (cases "fl_pid_units (fst s) pid")
       (auto simp: collector_unit_for_pid_def cache_ok_def io_defs)
qed

lemma lookup_cache:
  assumes steady: "steady_owners os proc owner" and ok: "cache_ok proc owner s"
    and run: "collector_unit_for_pid os pid s = (r, t)"
  shows "cache_ok proc owner t"
proof -
  obtain q w' where u: "unit_for_pid os pid proc (snd s) = (q, w')" by (metis surj_pair)
  with steady have "q = Inr (owner pid)" by (metis fst_conv steady_owners_def)
  with run ok u show ?thesis
    by (cases "fl_pid_units (fst s) pid")
       (auto simp: collector_unit_for_pid_def cache_ok_def io_defs split: if_splits)
qed

text \<open>One run of the loop body: its only effect on the collector is that of the lookup.\<close>

lemma flow_emit_cache:
  assumes steady: "steady_owners os proc owner" and ok: "cache_ok proc owner u"
    and emit: "flow_emit pr os b e fe i p now u = (r, v)"
  shows "cache_ok proc owner v"
proof (cases "flow_idle (flow_delta p now) \<or> map_of fe i = None")
  case True
  with emit ok show ?thesis by (auto simp: flow_emit_def Let_def io_return_def io_raise_def split: if_splits)
next
  case False
  then obtain x where x: "map_of fe i = Some x" and busy: "\<not> flow_idle (flow_delta p now)" by auto
  obtain q t where look: "collector_unit_for_pid os (fv_pid (fe_value x)) u = (q, t)" by (metis surj_pair)
  have ok': "cache_ok proc owner t" by (rule lookup_cache [OF steady ok look])
  show ?thesis
  proof (cases q)
    case (Inl err)
    with emit look x busy have "v = t" by (simp add: flow_emit_def Let_def io_bind_def)
    with ok' show ?thesis by simp
  next
    case (Inr unit)
    let ?K = "io_bind (io_res (fp_endpoint pr (fe_key x))) (\<lambda>(ep_ip, ep_port).
          io_bind (io_get (fl_catalog \<circ> fst)) (\<lambda>catalog.
          let m = catalog_match catalog unit ep_ip ep_port in
          io_bind (io_res (ipv4_from_bpf_int (fk_src_ip4 (fe_key x)))) (\<lambda>src.
          io_bind (io_world (ifname_from_index os (fv_ifindex (fe_value x)) [])) (\<lambda>ifname.
          let sample = flow_sample pr b e x (flow_delta p now) unit m src ep_ip ep_port ifname in
          io_bind (io_get (fl_filter \<circ> fst)) (\<lambda>f.
            io_return (if channel_matches f sample then [sample] else []))))))"
    have "frames (id \<circ> fst) ?K"
      unfolding Let_def by (intro frame_intros)
    moreover have "?K t = (r, v)"
      using emit look x busy Inr by (simp add: flow_emit_def Let_def io_bind_def [of "collector_unit_for_pid _ _"])
    ultimately have "fst v = fst t" using framesD by fastforce
    with ok' show ?thesis by (simp add: cache_ok_def)
  qed
qed

lemma flow_emit_owner:
  assumes steady: "steady_owners os proc owner" and ok: "cache_ok proc owner u"
    and emit: "flow_emit pr os b e fe i p now u = (Inr rows, v)" and r: "r \<in> set rows"
  shows "owned_rows owner r"
proof -
  have busy: "\<not> flow_idle (flow_delta p now)"
    using emit r by (auto simp: flow_emit_def io_return_def)
  obtain x where x: "map_of fe i = Some x"
    using emit busy by (cases "map_of fe i") (auto simp: flow_emit_def Let_def io_raise_def)
  obtain unit t where look: "collector_unit_for_pid os (fv_pid (fe_value x)) u = (Inr unit, t)"
    using emit busy x by (auto simp: flow_emit_def Let_def io_bind_Inr_iff)
  have "cs_unit r = unit \<and> cs_host_pid r = fv_pid (fe_value x)"
    using emit busy x look r
    by (auto simp: flow_emit_def Let_def io_bind_Inr_iff io_return_def flow_sample_def split: prod.splits if_splits)
  with lookup_owner [OF steady ok look] show ?thesis by (simp add: owned_rows_def)
qed

lemma read_flows_owner:
  assumes steady: "steady_owners os proc owner" and ok: "cache_ok proc owner (c, w)"
    and read: "read_flows pr os b e (c, w) = (Inr rows, t)" and r: "r \<in> set rows"
  shows "owned_rows owner r"
proof -
  obtain q w' where d: "flow_dump_entries pr os (fl_map_id c) w = (q, w')" by (metis surj_pair)
  then obtain entries where "q = Inr entries" using read by (cases q) (auto simp: read_flows_dump_error)
  with d read have loop: "flow_loop pr os b e entries (c, w') = (Inr rows, t)" by (simp add: read_flows_loop)
  have put: "cache_ok proc owner (put_flows p c', w'')" if "cache_ok proc owner (c', w)" for p c' w w''
    using that by (simp add: cache_ok_def put_flows_def)
  let ?s = "(put_flows (drop_stale (fst (flow_sums entries)) (fl_previous c)) c, w')"
  have "r \<in> set [] \<or> (\<exists>i tot p u v xs. (i, tot) \<in> set (fst (flow_sums entries)) \<and> fl_previous (fst ?s) i = Some p \<and>
      flow_emit pr os b e (snd (flow_sums entries)) i p tot u = (Inr xs, v) \<and> r \<in> set xs \<and> cache_ok proc owner u)"
  proof (rule flows.loop_samples_keep [where keep = "cache_ok proc owner"])
    show "cache_ok proc owner v" if "flow_emit pr os b e (snd (flow_sums entries)) i p t u = (q, v)" "cache_ok proc owner u"
      for i p t u q v
      using flow_emit_cache [OF steady that(2,1)] .
    show "emit_loop put_flows fl_previous (flow_emit pr os b e (snd (flow_sums entries))) (fst (flow_sums entries)) []
        ?s = (Inr rows, t)"
      using loop by (simp add: flow_loop_def)
    show "cache_ok proc owner ?s" by (rule put [OF ok])
    show "cache_ok proc owner (put_flows p (fst u), snd u)" if "cache_ok proc owner u" for p u
      using that by (simp add: cache_ok_def put_flows_def)
  qed (rule flow_ctr.aggregate_distinct r)+
  then show ?thesis using flow_emit_owner [OF steady] by fastforce
qed

text \<open>The checkpoint after the loader was found alive: the cache is empty when the flows are read.\<close>

definition flow_checkpoint_body :: "flow_proto \<Rightarrow> 'w os \<Rightarrow> (flow_collector \<times> 'w, channel_sample list) io" where
  "flow_checkpoint_body pr os s =
     (let c = (fst s)\<lparr>fl_pid_units := Map.empty\<rparr>; (now, w1) = os_time_ns os (snd s) in
      case bucket_start_ns now (fl_bucket_ms c) of
        Inl e \<Rightarrow> (Inl e, (c, w1))
      | Inr b \<Rightarrow> read_flows pr os b (measured_ms (fl_bucket_ms c) (fl_last_checkpoint_ns c) now)
                 (c\<lparr>fl_last_checkpoint_ns := Some now\<rparr>, w1))"

lemma flow_checkpoint_eq:
  "flow_checkpoint pr os s =
     (case on_flow_attachment (flow_ensure_alive pr os) s of
        (Inl e, t) \<Rightarrow> (Inl e, t) | (Inr _, t) \<Rightarrow> flow_checkpoint_body pr os t)"
  unfolding flow_checkpoint_def flow_checkpoint_body_def
  by (auto simp: io_bind_def io_modify_def io_world_def io_op_def io_get_def io_res_def Let_def
      split: prod.splits sum.splits)

lemma on_flow_attachment_frame:
  "(\<And>a c. f (c\<lparr>fl_attachment := a\<rparr>) = f c) \<Longrightarrow> frames (f \<circ> fst) (on_flow_attachment m)"
  by (simp add: frames_def on_flow_attachment_def split: option.splits prod.splits)

text \<open>(C7) Attribution never uses an owner of an earlier checkpoint. While the owners of processes do not
  change during a checkpoint, every row it returns names the present owner of its process, whatever an
  earlier checkpoint cached for that pid (the pid may have been reused, or unreadable); a row without a pid
  has no owner.\<close>

theorem owners_are_fresh:
  assumes steady: "steady_owners os (fl_proc_root c) owner"
    and run: "flow_checkpoint pr os (c, w) = (Inr rows, t)"
  shows "list_all (\<lambda>r. cs_unit r = (if cs_host_pid r \<le> 0 then [] else owner (cs_host_pid r))) rows"
proof -
  obtain q c1 w1 where a: "on_flow_attachment (flow_ensure_alive pr os) (c, w) = (q, (c1, w1))" by (metis surj_pair)
  have proc: "fl_proc_root c1 = fl_proc_root c"
    using framesD [OF on_flow_attachment_frame a, of fl_proc_root] by simp
  from run a have body: "flow_checkpoint_body pr os (c1, w1) = (Inr rows, t)"
    by (cases q) (auto simp: flow_checkpoint_eq)
  obtain now w2 where now: "os_time_ns os w1 = (now, w2)" by (metis surj_pair)
  let ?c = "c1\<lparr>fl_pid_units := Map.empty, fl_last_checkpoint_ns := Some now\<rparr>"
  from body now obtain b e where "read_flows pr os b e (?c, w2) = (Inr rows, t)"
    by (auto simp: flow_checkpoint_body_def Let_def split: sum.splits)
  moreover have "cache_ok (fl_proc_root c) owner (?c, w2)" by (simp add: cache_ok_def proc)
  ultimately have "owned_rows owner r" if "r \<in> set rows" for r using read_flows_owner [OF steady _ _ that] by blast
  then show ?thesis by (simp add: list_all_iff owned_rows_def)
qed

definition stale_flow_collector :: flow_collector where
  "stale_flow_collector = put_flows (channel_baseline [demo_flow_entry 100])
     (demo_flow_collector\<lparr>fl_pid_units := [7 \<mapsto> ''old.service'']\<rparr>)"

lemma demo_flow_checkpoint:
  "\<exists>rows t. flow_checkpoint tcp_flows (sim_os [demo_flow_json 500]) (stale_flow_collector, sim_start) = (Inr rows, t) \<and>
    length rows = 1"
proof -
  let ?c = "put_flows (channel_baseline [demo_flow_entry 100])
      (demo_flow_collector\<lparr>fl_pid_units := Map.empty, fl_last_checkpoint_ns := Some 1000000000\<rparr>)"
  have dump: "flow_dump_entries tcp_flows (sim_os [demo_flow_json 500]) (fl_map_id ?c) sim_start =
     (Inr [demo_flow_entry 500], sim_start\<lparr>sim_step := 1, sim_log := [sudo_command (dump_command 4) True]\<rparr>)"
    by (simp add: put_flows_def demo_flow_collector_def demo_flow_dump)
  have rows: "\<exists>rows t. read_flows tcp_flows (sim_os [demo_flow_json 500]) 1000000000 1000 (?c, sim_start) = (Inr rows, t) \<and> length rows = 1"
    unfolding read_flows_loop [OF dump]
    by (simp add: flow_loop_def aggregate_def aggregate_step_def Let_def setdefault_def
        drop_stale_def put_flows_def demo_flow_collector_def channel_baseline_def channel_total_def demo_flow_entry_def
        demo_flow_key_def demo_flow_value_def flow_key_identity_def flow_value_counters_def add_flow_counters_def
        zero_flow_counters_def flow_emit_def flow_delta_def flow_idle_def collector_unit_for_pid_def unit_for_pid_def
        read_text_def tcp_flows_def tcp_endpoint_def ip_text_in_range ifname_from_index_def io_defs)
  have "flow_checkpoint tcp_flows (sim_os [demo_flow_json 500]) (stale_flow_collector, sim_start) =
      read_flows tcp_flows (sim_os [demo_flow_json 500]) 1000000000 1000 (?c, sim_start)"
    by (simp add: flow_checkpoint_eq flow_checkpoint_body_def on_flow_attachment_def stale_flow_collector_def put_flows_def
        demo_flow_collector_def bucket_start_ns_Inr measured_ms_def sim_start_def)
  with rows show ?thesis by simp
qed

lemma owners_are_fresh_witness:
  "\<exists>rows t. flow_checkpoint tcp_flows (sim_os [demo_flow_json 500]) (stale_flow_collector, sim_start) = (Inr rows, t) \<and>
    length rows = 1 \<and> list_all (\<lambda>r. cs_unit r = []) rows"
proof -
  obtain rows t where run: "flow_checkpoint tcp_flows (sim_os [demo_flow_json 500]) (stale_flow_collector, sim_start) = (Inr rows, t)"
    and len: "length rows = 1" using demo_flow_checkpoint by blast
  have "steady_owners (sim_os [demo_flow_json 500]) (fl_proc_root stale_flow_collector) (\<lambda>_. [])"
    by (simp add: steady_owners_def unit_for_pid_def read_text_def unit_from_cgroup_text_def splitlines_def io_defs)
  from owners_are_fresh [OF this run] run len show ?thesis by auto
qed

section \<open>The clock of a channel checkpoint\<close>

lemma read_flows_times:
  assumes read: "read_flows pr os b e (c, w) = (Inr rows, t)" and r: "r \<in> set rows"
  shows "cs_bucket_ms r = e \<and> cs_bucket_start_ns r = b"
proof -
  obtain q w' where d: "flow_dump_entries pr os (fl_map_id c) w = (q, w')" by (metis surj_pair)
  then obtain entries where "q = Inr entries" using read by (cases q) (auto simp: read_flows_dump_error)
  with d read have "flow_loop pr os b e entries (c, w') = (Inr rows, t)" by (simp add: read_flows_loop)
  from flow_loop_row [OF this r] show ?thesis by (auto simp: channel_row_def)
qed

lemma frames_read_flows_last: "frames (fl_last_checkpoint_ns \<circ> fst) (read_flows pr os b e)"
  unfolding read_flows_def Let_def
  by (intro frame_intros frames_flow_emit; auto simp: put_flows_def)

text \<open>(C16) The clock of a channel checkpoint. Once the loader was found alive, the collector remembers the
  time of the checkpoint, also when it raises; every row starts at the bucket boundary at or before that
  time, less than one bucket earlier, and spans the whole milliseconds since the previous checkpoint, or
  the nominal bucket when there was none.\<close>

theorem channel_checkpoint_times:
  assumes width: "0 < fl_bucket_ms c"
    and alive: "on_flow_attachment (flow_ensure_alive pr os) (c, w) = (Inr u, (c0, w0))"
    and clock: "os_time_ns os w0 = (now, w1)" and run: "flow_checkpoint pr os (c, w) = (r, (d, v))"
  shows "fl_last_checkpoint_ns d = Some now \<and> (\<forall>rows. r = Inr rows \<longrightarrow> (\<forall>x \<in> set rows.
    cs_bucket_ms x = measured_ms (fl_bucket_ms c) (fl_last_checkpoint_ns c) now \<and> 0 < cs_bucket_ms x \<and>
    cs_bucket_start_ns x \<le> now \<and> now < cs_bucket_start_ns x + fl_bucket_ms c * 1000000 \<and>
    fl_bucket_ms c * 1000000 dvd cs_bucket_start_ns x))"
proof -
  let ?b = "(now div (fl_bucket_ms c * 1000000)) * (fl_bucket_ms c * 1000000)"
  let ?e = "measured_ms (fl_bucket_ms c) (fl_last_checkpoint_ns c) now"
  let ?c = "c0\<lparr>fl_pid_units := Map.empty, fl_last_checkpoint_ns := Some now\<rparr>"
  have same: "fl_bucket_ms c0 = fl_bucket_ms c" "fl_last_checkpoint_ns c0 = fl_last_checkpoint_ns c"
    using framesD [OF on_flow_attachment_frame alive, of fl_bucket_ms]
      framesD [OF on_flow_attachment_frame alive, of fl_last_checkpoint_ns] by simp_all
  have read: "read_flows pr os ?b ?e (?c, w1) = (r, (d, v))"
    using run clock alive width
    by (simp add: flow_checkpoint_eq flow_checkpoint_body_def bucket_start_ns_Inr same)
  have bounds: "?b \<le> now" "now < ?b + fl_bucket_ms c * 1000000" "fl_bucket_ms c * 1000000 dvd ?b"
    using floor_div_bounds [of "fl_bucket_ms c * 1000000" now] width by (simp_all add: distrib_right)
  have last: "fl_last_checkpoint_ns d = Some now"
    using framesD [OF frames_read_flows_last read] by simp
  have rows: "\<forall>x \<in> set rows. cs_bucket_ms x = ?e \<and> cs_bucket_start_ns x = ?b" if "r = Inr rows" for rows
    using read_flows_times [of pr os ?b ?e ?c w1 rows "(d, v)"] read that by simp
  have "0 < ?e" by (rule measured_ms_pos [OF width])
  with last rows bounds show ?thesis by simp
qed

lemma channel_checkpoint_times_witness:
  "\<exists>r d v. flow_checkpoint tcp_flows (sim_os [demo_flow_json 500]) (stale_flow_collector, sim_start) = (r, (d, v)) \<and>
    fl_last_checkpoint_ns d = Some 1000000000"
proof -
  obtain r d v where run: "flow_checkpoint tcp_flows (sim_os [demo_flow_json 500]) (stale_flow_collector, sim_start) = (r, (d, v))"
    by (metis surj_pair)
  have "0 < fl_bucket_ms stale_flow_collector"
      "on_flow_attachment (flow_ensure_alive tcp_flows (sim_os [demo_flow_json 500])) (stale_flow_collector, sim_start) =
        (Inr (), (stale_flow_collector, sim_start))"
      "os_time_ns (sim_os [demo_flow_json 500]) sim_start = (1000000000, sim_start)"
    by (simp_all add: stale_flow_collector_def put_flows_def demo_flow_collector_def sim_start_def on_flow_attachment_def)
  from channel_checkpoint_times [OF this run] run show ?thesis by blast
qed

section \<open>Multicast receivers\<close>

text \<open>(C27) The endpoint of a UDP row. A receiver that is bound but not connected (its flow has no
  destination) is reported and looked up under the group and port it is bound to, a connected one under its
  peer; the status of the row is \<open>matched\<close> only for that endpoint.\<close>

theorem multicast_rows_matched:
  assumes dump: "flow_dump_entries udp_flows os (fl_map_id c) w = (Inr entries, w')"
    and read: "read_flows udp_flows os b e (c, w) = (Inr rows, t)" and r: "r \<in> set rows"
  shows "\<exists>x \<in> set entries. cs_socket_id r = fk_socket_cookie (fe_key x) \<and>
    cs_dst_port r = (if fk_dst_port (fe_key x) = 0 then fk_src_port (fe_key x) else fk_dst_port (fe_key x)) \<and>
    ipv4_from_bpf_int (if fk_dst_ip4 (fe_key x) = 0 then fk_src_ip4 (fe_key x) else fk_dst_ip4 (fe_key x)) = Inr (cs_dst_ip r) \<and>
    (if fk_dst_ip4 (fe_key x) = 0 then cs_dst_ip r = cs_src_ip r else True) \<and>
    (cs_status r = ''matched'') = (case by_unit (fl_catalog c) (cs_unit r) of None \<Rightarrow> False
      | Some g \<Rightarrow> ct_port g = cs_dst_port r \<and> (ct_addresses g = [] \<or> cs_dst_ip r \<in> set (ct_addresses g)))"
proof -
  have loop: "flow_loop udp_flows os b e entries (c, w') = (Inr rows, t)"
    using read by (simp add: read_flows_loop [OF dump])
  from flow_loop_row [OF loop r] obtain x p where x: "x \<in> set entries"
    and row: "channel_row udp_flows (fl_catalog c) x p (channel_total entries (flow_ident x)) b e r" by blast
  have ep: "udp_endpoint (fe_key x) = Inr (cs_dst_ip r, cs_dst_port r)"
    and src: "ipv4_from_bpf_int (fk_src_ip4 (fe_key x)) = Inr (cs_src_ip r)"
    and st: "cs_status r = cm_status (catalog_match (fl_catalog c) (cs_unit r) (cs_dst_ip r) (cs_dst_port r))"
    using row by (simp_all add: channel_row_def udp_flows_def)
  have "(cs_status r = ''matched'') = (case by_unit (fl_catalog c) (cs_unit r) of None \<Rightarrow> False
      | Some g \<Rightarrow> ct_port g = cs_dst_port r \<and> (ct_addresses g = [] \<or> cs_dst_ip r \<in> set (ct_addresses g)))"
    unfolding st by (auto simp: catalog_match_def split: option.splits)
  moreover have "cs_socket_id r = fk_socket_cookie (fe_key x)" using row by (simp add: channel_row_def)
  ultimately show ?thesis
    using x ep src by (intro bexI [of _ x]) (auto simp: udp_endpoint_def res_simps split: if_splits)
qed

definition demo_tv_entry :: "int \<Rightarrow> flow_entry" where
  "demo_tv_entry bts = \<lparr>fe_key = \<lparr>fk_socket_cookie = 9, fk_src_ip4 = 34664431, fk_dst_ip4 = 0, fk_src_port = 1234,
     fk_dst_port = 0, fk_family = 2, fk_ip_proto = 17, fk_cgroup_id = 5\<rparr>, fe_value = demo_flow_value bts 6\<rparr>"

definition demo_tv_json :: "int \<Rightarrow> json" where
  "demo_tv_json bts = JList [JObj
     [(''key'', JObj [(''socket_cookie'', JInt 9), (''src_ip4'', JInt 34664431), (''dst_ip4'', JInt 0),
        (''src_port'', JInt 1234), (''dst_port'', JInt 0), (''family'', JInt 2), (''ip_proto'', JInt 17),
        (''cgroup_id'', JInt 5)]),
      (''value'', JObj [(''tx_bytes'', JInt 1), (''rx_bytes'', JInt bts), (''tx_calls'', JInt 1),
        (''rx_calls'', JInt 1), (''start_ns'', JInt 6), (''last_ns'', JInt 8), (''pid'', JInt 7),
        (''ifindex'', JInt 2), (''state'', JInt 1)])]]"

definition demo_tv_collector :: flow_collector where
  "demo_tv_collector = put_flows (channel_baseline [demo_tv_entry 100])
     (demo_flow_collector\<lparr>fl_catalog := \<lparr>cat_targets = [udp_demo_target]\<rparr>, fl_pid_units := [7 \<mapsto> ''demo-tv.service'']\<rparr>)"

lemma demo_tv_dump:
  "flow_dump_entries udp_flows (sim_os [demo_tv_json bts]) (fl_map_id demo_tv_collector) sim_start =
     (Inr [demo_tv_entry bts], sim_start\<lparr>sim_step := 1, sim_log := [sudo_command (dump_command 4) True]\<rparr>)"
proof -
  have "parse_dump (parse_flow_entry udp_flows) (demo_tv_json bts) = Inr [demo_tv_entry bts]"
    by (simp add: parse_dump_def demo_tv_json_def parse_flow_entry_def parse_flow_key_def decode_flow_key_def
        validate_flow_key_def parse_flow_value_def flow_value_of_value_def demo_tv_entry_def
        demo_flow_value_def udp_flows_def int_get0_def)
  then show ?thesis
    by (simp add: flow_dump_entries_def sim_run_json io_defs sim_start_def demo_tv_collector_def put_flows_def
        demo_flow_collector_def)
qed

lemma group_text: "ipv4_from_bpf_int 34664431 = Inr ''239.239.16.2''"
  by code_simp

lemma multicast_rows_matched_witness:
  "\<exists>rows t. read_flows udp_flows (sim_os [demo_tv_json 500]) 0 250 (demo_tv_collector, sim_start) = (Inr rows, t) \<and>
    length rows = 1 \<and> list_all (\<lambda>r. cs_dst_ip r = ''239.239.16.2'' \<and> cs_dst_port r = 1234) rows"
proof -
  have "\<exists>rows t. read_flows udp_flows (sim_os [demo_tv_json 500]) 0 250 (demo_tv_collector, sim_start) = (Inr rows, t) \<and>
      length rows = 1"
    unfolding read_flows_loop [OF demo_tv_dump]
    by (simp add: flow_loop_def aggregate_def aggregate_step_def Let_def setdefault_def drop_stale_def put_flows_def
        demo_tv_collector_def demo_flow_collector_def channel_baseline_def channel_total_def demo_tv_entry_def
        demo_flow_value_def flow_key_identity_def flow_value_counters_def add_flow_counters_def
        zero_flow_counters_def flow_emit_def flow_delta_def flow_idle_def collector_unit_for_pid_def
        udp_flows_def udp_endpoint_def group_text ifname_from_index_def io_defs)
  then obtain rows t where read: "read_flows udp_flows (sim_os [demo_tv_json 500]) 0 250 (demo_tv_collector, sim_start) = (Inr rows, t)"
    and len: "length rows = 1" by blast
  have "cs_dst_ip r = ''239.239.16.2'' \<and> cs_dst_port r = 1234" if "r \<in> set rows" for r
    using multicast_rows_matched [OF demo_tv_dump read that] by (simp add: demo_tv_entry_def group_text)
  with read len show ?thesis unfolding list_all_iff by blast
qed

end
