(* ===== verification/FlowLoader.thy ===== *)
theory FlowLoader
  imports FlowOwner
begin

text \<open>
  The loader of the channel collectors: the kernel gate that runs before it, the child process that an
  attachment owns in every outcome of \<open>attach\<close>, what \<open>close\<close> stops, and what a dead loader does to a
  checkpoint.
\<close>

section \<open>The kernel gate\<close>

text \<open>A text without the separator lies in one of the joined lines.\<close>

lemma contains_sub_Cons: "contains_sub m (x # s) \<longleftrightarrow> startswith (x # s) m \<or> contains_sub m s"
  by (simp add: contains_sub_def)

lemma startswith_cut: "c \<notin> set m \<Longrightarrow> startswith (l @ c # s) m \<longleftrightarrow> startswith l m"
  by (auto simp: startswith_iff append_eq_append_conv2 Cons_eq_append_conv)

lemma contains_sub_cut:
  "c \<notin> set m \<Longrightarrow> m \<noteq> [] \<Longrightarrow> contains_sub m (l @ c # s) \<longleftrightarrow> contains_sub m l \<or> contains_sub m s"
proof (induction l)
  case Nil
  then show ?case using startswith_cut [of c m "[]" s] by (auto simp: contains_sub_Cons startswith_def contains_sub_def)
next
  case (Cons x l)
  then show ?case using startswith_cut [of c m "x # l" s] by (simp add: contains_sub_Cons)
qed

lemma contains_sub_lines:
  assumes "c \<notin> set m" and "m \<noteq> []"
  shows "contains_sub m (concat (map (\<lambda>x. c # x) ls)) \<longleftrightarrow> (\<exists>l \<in> set ls. contains_sub m l)"
proof -
  have "contains_sub m (l @ concat (map (\<lambda>x. c # x) ls)) \<longleftrightarrow> contains_sub m l \<or> (\<exists>l \<in> set ls. contains_sub m l)" for l
  proof (induction ls arbitrary: l)
    case (Cons x ls)
    with contains_sub_cut [OF assms, of l "x @ concat (map (\<lambda>x. c # x) ls)"] show ?case by simp
  qed simp
  from this [of "[]"] assms show ?thesis by (simp add: contains_sub_def)
qed

lemma proto_params_spec:
  "proto_params head ls = Some t \<Longrightarrow>
     \<exists>before l after. ls = before @ l # after \<and> (\<forall>b \<in> set before. \<not> startswith b head) \<and> startswith l head \<and>
        t = concat (map (\<lambda>x. CHR 10 # x) (takeWhile (\<lambda>x. startswith x [CHR 9]) after))"
proof (induction ls)
  case (Cons x ls)
  show ?case
  proof (cases "startswith x head")
    case True
    with Cons.prems show ?thesis by (intro exI [of _ "[]"] exI [of _ x] exI [of _ ls]) simp
  next
    case False
    with Cons obtain before l after where "ls = before @ l # after" "\<forall>b \<in> set before. \<not> startswith b head" "startswith l head"
        "t = concat (map (\<lambda>x. CHR 10 # x) (takeWhile (\<lambda>x. startswith x [CHR 9]) after))" by auto
    with False show ?thesis by (intro exI [of _ "x # before"] exI [of _ l] exI [of _ after]) simp
  qed
qed simp

lemma search_type_id_spec:
  "search_type_id head s = Some d \<Longrightarrow> contains_sub (head @ d) s \<and> d \<noteq> [] \<and> list_all is_ascii_digit d"
proof (induction s)
  case (Cons c s)
  let ?d = "takeWhile is_ascii_digit (drop (length head) (c # s))"
  show ?case
  proof (cases "startswith (c # s) head \<and> ?d \<noteq> []")
    case True
    with Cons.prems have d: "d = ?d" by (simp add: Let_def)
    have "c # s = head @ drop (length head) (c # s)"
      using True by (metis append_take_drop_id startswith_def)
    also have "\<dots> = (head @ d) @ dropWhile is_ascii_digit (drop (length head) (c # s))" by (simp add: d)
    finally have "contains_sub (head @ d) (c # s)"
      unfolding contains_sub_iff by (metis append_Nil)
    moreover have "list_all is_ascii_digit d" unfolding d list_all_iff using set_takeWhileD by fast
    ultimately show ?thesis using True d by simp
  next
    case False
    with Cons.prems have "search_type_id head s = Some d" by (auto simp: Let_def split: if_splits)
    from Cons.IH [OF this] show ?thesis by (simp add: contains_sub_Cons)
  qed
qed simp

text \<open>(C21) The gate judges the right prototype. When it reaches a verdict, the dump names the type of the
  kernel function itself, the verdict is about the parameters of the first prototype with that very id (the
  indented lines that follow it, and none after them), and it is \<open>True\<close> exactly when one of them is the
  parameter of the old signature.\<close>

theorem gate_judges_own_prototype:
  assumes verdict: "btf_verdict pr text = Some v" and plain: "CHR 10 \<notin> set (fp_old_parameter pr)"
  shows "\<exists>digits before l after. contains_sub (func_head (fp_kernel_function pr) @ digits) text \<and>
    list_all is_ascii_digit digits \<and> split_on (CHR 10) text = before @ l # after \<and>
    startswith l (''['' @ digits @ ''] FUNC_PROTO'') \<and>
    list_all (\<lambda>x. \<not> startswith x (''['' @ digits @ ''] FUNC_PROTO'')) before \<and>
    v = list_ex (contains_sub ([CHR 0x27] @ fp_old_parameter pr @ [CHR 0x27]))
          (takeWhile (\<lambda>x. startswith x [CHR 9]) after)"
proof -
  obtain digits where d: "search_type_id (func_head (fp_kernel_function pr)) text = Some digits"
    using verdict by (auto simp: btf_verdict_def split: option.splits)
  obtain t where t: "proto_params (''['' @ digits @ ''] FUNC_PROTO'') (split_on (CHR 10) text) = Some t"
    and v: "v = contains_sub ([CHR 0x27] @ fp_old_parameter pr @ [CHR 0x27]) t"
    using verdict d by (auto simp: btf_verdict_def split: option.splits)
  from proto_params_spec [OF t] obtain before l after where split: "split_on (CHR 10) text = before @ l # after"
      "\<forall>x \<in> set before. \<not> startswith x (''['' @ digits @ ''] FUNC_PROTO'')" "startswith l (''['' @ digits @ ''] FUNC_PROTO'')"
    and t: "t = concat (map (\<lambda>x. CHR 10 # x) (takeWhile (\<lambda>x. startswith x [CHR 9]) after))" by blast
  have "v = list_ex (contains_sub ([CHR 0x27] @ fp_old_parameter pr @ [CHR 0x27]))
      (takeWhile (\<lambda>x. startswith x [CHR 9]) after)"
    unfolding v t list_ex_iff by (rule contains_sub_lines) (use plain in simp_all)
  with search_type_id_spec [OF d] split show ?thesis unfolding list_all_iff by blast
qed

definition demo_btf :: string where
  "demo_btf = join [CHR 10]
     [''[8] FUNC_PROTO (anon) vlen=1'', CHR 9 # [CHR 0x27] @ ''nonblock'' @ [CHR 0x27] @ '' type_id=1'',
      ''[9] FUNC_PROTO (anon) vlen=1'', CHR 9 # [CHR 0x27] @ ''len'' @ [CHR 0x27] @ '' type_id=1'',
      ''[10] FUNC '' @ [CHR 0x27] @ ''tcp_recvmsg'' @ [CHR 0x27] @ '' type_id=9 linkage=static'']"

lemma demo_btf_verdict: "btf_verdict tcp_flows demo_btf = Some False"
  by code_simp

lemma gate_judges_own_prototype_witness:
  "\<exists>digits before l after. split_on (CHR 10) demo_btf = before @ l # after \<and>
    startswith l (''['' @ digits @ ''] FUNC_PROTO'') \<and>
    \<not> list_ex (contains_sub ([CHR 0x27] @ ''nonblock'' @ [CHR 0x27])) (takeWhile (\<lambda>x. startswith x [CHR 9]) after)"
proof -
  have "CHR 10 \<notin> set (fp_old_parameter tcp_flows)" by (simp add: tcp_flows_def)
  from gate_judges_own_prototype [OF demo_btf_verdict this] show ?thesis by (auto simp: tcp_flows_def)
qed

section \<open>The child of an attachment\<close>

lemma frames_close_stderr [frame_intros]: "frames (f \<circ> snd) close_stderr"
  by (simp add: frames_def close_stderr_def io_modify_def split: prod.splits)

lemma frames_stderr_text:
  assumes "child_laws os alive"
  shows "frames (alive \<circ> snd) (stderr_text os h)"
  unfolding stderr_text_def
  by (intro frame_intros frames_world_snd) (auto dest: child_stderr [OF assms])

lemma stop_child_returns: "\<exists>u. fst (stop_child os h w) = Inr u"
  by (auto simp: stop_child_def io_defs split: prod.splits option.splits)

lemma flow_detach_dead:
  assumes laws: "child_laws os alive" and run: "flow_detach os (a, w) = (r, (a', w'))"
  shows "alive w' \<subseteq> alive w - set_option (fa_process a) \<and> fa_process a' = None \<and> \<not> fa_stderr_open a' \<and> r = Inr ()"
proof (cases "fa_process a")
  case None
  with run show ?thesis by (auto simp: flow_detach_def close_stderr_def io_defs)
next
  case (Some h)
  obtain rc w1 where p: "os_poll os h w = (rc, w1)" by (cases "os_poll os h w")
  obtain s w2 where st: "stop_child os h w1 = (s, w2)" by (cases "stop_child os h w1")
  show ?thesis
  proof (cases rc)
    case None
    have "\<exists>u. s = Inr u" using stop_child_returns [of os h w1] st by simp
    with run Some p st None have "w' = w2 \<and> fa_process a' = None \<and> \<not> fa_stderr_open a' \<and> r = Inr ()"
      by (auto simp: flow_detach_def close_stderr_def io_defs)
    with stop_child_dead [OF laws st] child_poll [OF laws p] None Some show ?thesis by auto
  next
    case (Some rc')
    with run \<open>fa_process a = Some h\<close> p have "w' = w1 \<and> fa_process a' = None \<and> \<not> fa_stderr_open a' \<and> r = Inr ()"
      by (auto simp: flow_detach_def close_stderr_def io_defs)
    with child_poll [OF laws p] Some \<open>fa_process a = Some h\<close> show ?thesis by auto
  qed
qed

text \<open>What can happen to the child between its start and the end of \<open>attach\<close>.\<close>

lemma flow_await_child:
  assumes laws: "child_laws os alive" and h: "fa_process a = Some h"
    and run: "flow_await_status pr os h (a, w) = (r, (a', w'))"
  shows "alive w' \<subseteq> (alive w - {h}) \<union> set_option (fa_process a') \<and> set_option (fa_process a') \<subseteq> {h} \<and>
    (if fa_process a' = None then True else alive w' = alive w) \<and>
    (case r of Inr m \<Rightarrow> fa_process a' = Some h \<and> fa_status a' = Some m
      | Inl e \<Rightarrow> (if fa_process a' = None then True else \<exists>line. line \<noteq> [] \<and> parse_flow_loader_status pr os line = Inl e))"
proof -
  obtain rd w1 where 1: "os_select os h w = (rd, w1)" by (cases "os_select os h w")
  obtain line w2 where 2: "os_readline os h w1 = (line, w2)" by (cases "os_readline os h w1")
  have same: "alive w1 = alive w" "alive w2 = alive w"
    using child_select [OF laws 1] child_readline [OF laws 2] by simp_all
  consider "\<not> rd" | "rd" "line = []" | m where "rd" "line \<noteq> []" "parse_flow_loader_status pr os line = Inr m"
    | e where "rd" "line \<noteq> []" "parse_flow_loader_status pr os line = Inl e"
    by (cases "parse_flow_loader_status pr os line") auto
  then show ?thesis
  proof cases
    case 1
    obtain q b w3 where d: "flow_detach os (a, w1) = (q, (b, w3))" by (metis surj_pair)
    from flow_detach_dead [OF laws d] have d': "alive w3 \<subseteq> alive w1 - {h}" "fa_process b = None" "q = Inr ()"
      by (auto simp: h)
    with run 1 d \<open>os_select os h w = (rd, w1)\<close> have "a' = b" "w' = w3" "\<exists>e. r = Inl e"
      by (auto simp: flow_await_status_def io_defs)
    with d' same show ?thesis by auto
  next
    case 2
    obtain rc w3 where 3: "os_wait os h w2 = (rc, w3)" by (cases "os_wait os h w2")
    obtain q b w4 where 4: "stderr_text os h (a, w3) = (q, (b, w4))" by (metis surj_pair)
    have "alive w4 = alive w3" using framesD [OF frames_stderr_text [OF laws] 4] by simp
    moreover have "\<exists>t. q = Inr t" using 4 by (auto simp: stderr_text_def io_defs split: prod.splits if_splits)
    ultimately have "alive w4 \<subseteq> alive w - {h}" using child_wait [OF laws 3] same by auto
    moreover have "fa_process a' = None" "w' = w4" "\<exists>e. r = Inl e"
      using run 1 2 3 4 \<open>\<exists>t. q = Inr t\<close> \<open>os_readline os h w1 = (line, w2)\<close>
      by (auto simp: flow_await_status_def close_stderr_def io_defs)
    ultimately show ?thesis by auto
  next
    case 3
    with run 1 2 h have "r = Inr m" "fa_process a' = Some h" "fa_status a' = Some m" "w' = w2"
      by (auto simp: flow_await_status_def io_defs)
    with same show ?thesis by auto
  next
    case 4
    with run 1 2 h have "r = Inl e" "a' = a" "w' = w2" by (auto simp: flow_await_status_def io_defs)
    with same h 4 show ?thesis by auto
  qed
qed

lemma frames_refuse:
  assumes "child_laws os alive"
  shows "frames alive (refuse_pre519 pr os)"
  unfolding refuse_pre519_def kernel_has_old_parameter_def
  by (intro frame_intros) (auto dest: child_run [OF assms])

lemma flow_attach_child:
  assumes laws: "child_laws os alive" and run: "flow_attach pr os (a, w) = (r, (a', w'))"
    and idle: "fa_process a = None"
  shows "alive w' \<subseteq> alive w \<union> set_option (fa_process a') \<and> set_option (fa_process a') \<subseteq> alive w' \<and>
    (case r of Inr m \<Rightarrow> fa_process a' \<noteq> None \<and> fa_status a' = Some m
      | Inl e \<Rightarrow> (if fa_process a' = None then True else \<exists>line. line \<noteq> [] \<and> parse_flow_loader_status pr os line = Inl e))"
proof -
  obtain f1 w1 where 1: "os_exists os (fa_loader_path a) w = (f1, w1)" by (metis surj_pair)
  obtain f2 w2 where 2: "os_exists os (fa_object_path a) w1 = (f2, w2)" by (metis surj_pair)
  obtain q w3 where 3: "refuse_pre519 pr os w2 = (q, w3)" by (metis surj_pair)
  obtain euid w4 where 4: "os_geteuid os w3 = (euid, w4)" by (metis surj_pair)
  obtain sp w5 where 5: "os_popen os (flow_command a euid) w4 = (sp, w5)" by (metis surj_pair)
  have same: "alive w1 = alive w" "alive w2 = alive w" "alive w3 = alive w" "alive w4 = alive w"
    using child_exists [OF laws 1] child_exists [OF laws 2] framesD [OF frames_refuse [OF laws] 3]
      child_geteuid [OF laws 4] by simp_all
  show ?thesis
  proof (cases "f1 \<and> f2 \<and> (\<exists>u. q = Inr u) \<and> (\<exists>h. sp = Spawned h)")
    case False
    have "alive w5 = alive w" if "\<nexists>h. sp = Spawned h"
      using child_popen [OF laws 5] same that by (cases sp) simp_all
    with run 1 2 3 4 5 False same idle show ?thesis
      by (cases q; cases sp) (auto simp: flow_attach_def close_stderr_def io_defs split: if_splits)
  next
    case True
    then obtain h where h: "f1" "f2" "\<exists>u. q = Inr u" "sp = Spawned h" by blast
    let ?a = "a\<lparr>fa_stderr_open := True, fa_process := Some h\<rparr>"
    have "flow_await_status pr os h (?a, w5) = (r, (a', w'))"
      using run 1 2 3 4 5 h by (auto simp: flow_attach_def io_defs)
    from flow_await_child [OF laws _ this] have aw: "alive w' \<subseteq> (alive w5 - {h}) \<union> set_option (fa_process a')"
      and own: "set_option (fa_process a') \<subseteq> {h}" "if fa_process a' = None then True else alive w' = alive w5"
      and c: "case r of Inr m \<Rightarrow> fa_process a' = Some h \<and> fa_status a' = Some m
      | Inl e \<Rightarrow> (if fa_process a' = None then True else \<exists>line. line \<noteq> [] \<and> parse_flow_loader_status pr os line = Inl e)"
      by simp_all
    have "alive w5 = insert h (alive w)" using child_popen [OF laws 5] same h by simp
    with aw own have "alive w' \<subseteq> alive w \<union> set_option (fa_process a') \<and> set_option (fa_process a') \<subseteq> alive w'"
      by (auto split: if_splits)
    with c show ?thesis by (cases r) auto
  qed
qed

text \<open>(C8) An attachment owns its loader. Whatever \<open>attach\<close> of a channel attachment does, the only process
  it leaves behind is the one it remembers, so a following \<open>detach\<close> leaves none; \<open>detach\<close> never raises and
  closes the error file. When \<open>attach\<close> returns, the process is remembered with its map id.\<close>

theorem flow_attach_owns_child:
  assumes laws: "child_laws os alive" and run: "flow_attach pr os (a, w) = (r, (a', w'))" and idle: "fa_process a = None"
    and detach: "flow_detach os (a', w') = (q, (b, w''))"
  shows "alive w' \<subseteq> alive w \<union> set_option (fa_process a') \<and> alive w'' \<subseteq> alive w \<and>
    q = Inr () \<and> fa_process b = None \<and> \<not> fa_stderr_open b \<and>
    (case r of Inr m \<Rightarrow> fa_process a' \<noteq> None \<and> fa_status a' = Some m | Inl e \<Rightarrow> True)"
  using flow_attach_child [OF laws run idle] flow_detach_dead [OF laws detach]
  by (cases r) auto

definition demo_flow_os :: "int \<Rightarrow> sim os" where
  "demo_flow_os m = sim_os [JNull, JObj [(''map_id'', JInt m)]]"

lemma demo_gate: "refuse_pre519 pr (demo_flow_os m) sim_start =
    (Inr (), sim_start\<lparr>sim_step := 1, sim_log := [btf_command]\<rparr>)"
proof -
  have "btf_verdict pr ''x'' = None"
    by (simp add: btf_verdict_def func_head_def startswith_def)
  then show ?thesis
    by (simp add: refuse_pre519_def kernel_has_old_parameter_def io_defs demo_flow_os_def sim_start_def sim_line_def)
qed

lemma demo_attach:
  "flow_attach pr (demo_flow_os m) (new_flow_attachment ''l'' ''o'', sim_start) =
    (let a = (new_flow_attachment ''l'' ''o'')\<lparr>fa_stderr_open := True, fa_process := Some 1\<rparr>;
         w = \<lparr>sim_step = 2, sim_alive = [1], sim_log = [btf_command]\<rparr>
     in if m \<le> 0 then (Inl (RuntimeError ''invalid {} channel loader status: {}''
          [JStr (fp_label pr), JStr ''xx'']), (a, w)) else (Inr m, (a\<lparr>fa_status := Some m\<rparr>, w)))"
proof -
  have parse: "parse_flow_loader_status pr (demo_flow_os m) ''xx'' =
      (if m \<le> 0 then Inl (RuntimeError ''invalid {} channel loader status: {}'' [JStr (fp_label pr), JStr ''xx'']) else Inr m)"
    by (simp add: parse_flow_loader_status_def demo_flow_os_def sim_loads_def)
  have ops: "os_exists (demo_flow_os m) = (\<lambda>_ s. (True, s))" "os_geteuid (demo_flow_os m) = (\<lambda>s. (0, s))"
      "os_popen (demo_flow_os m) = (\<lambda>_ s. (Spawned (sim_step s), s\<lparr>sim_alive := sim_step s # sim_alive s\<rparr>))"
      "os_select (demo_flow_os m) = (\<lambda>_ s. (True, s))"
      "os_readline (demo_flow_os m) = (\<lambda>_ s. (sim_line s, s\<lparr>sim_step := Suc (sim_step s)\<rparr>))"
    by (simp_all add: demo_flow_os_def)
  have line: "sim_line \<lparr>sim_step = Suc 0, sim_alive = [Suc 0], sim_log = [btf_command]\<rparr> = ''xx''"
    by (simp add: sim_line_def)
  show ?thesis
    unfolding flow_attach_def flow_await_status_def
    using demo_gate [of pr m]
    by (simp add: io_defs ops Let_def new_flow_attachment_def parse sim_start_def line numeral_2_eq_2)
qed

lemma flow_attach_owns_child_witness:
  "\<exists>r a' w' q b w''. flow_attach tcp_flows (demo_flow_os 7) (new_flow_attachment ''l'' ''o'', sim_start) = (r, (a', w')) \<and>
    flow_detach (demo_flow_os 7) (a', w') = (q, (b, w'')) \<and> r = Inr 7 \<and> set (sim_alive w') = {1} \<and> set (sim_alive w'') = {}"
proof -
  let ?at = "new_flow_attachment ''l'' ''o''"
  obtain r a' w' where run: "flow_attach tcp_flows (demo_flow_os 7) (?at, sim_start) = (r, (a', w'))"
    by (metis surj_pair)
  then have w: "set (sim_alive w') = {1}" "r = Inr 7" by (simp_all add: demo_attach Let_def) auto
  obtain q b w'' where d: "flow_detach (demo_flow_os 7) (a', w') = (q, (b, w''))" by (metis surj_pair)
  have idle: "fa_process ?at = None" by (simp add: new_flow_attachment_def)
  from flow_attach_owns_child [OF sim_child_laws run [unfolded demo_flow_os_def] idle d [unfolded demo_flow_os_def]]
  have "set (sim_alive w'') = {}" by (auto simp: sim_start_def)
  with run d w show ?thesis by blast
qed

text \<open>(C20) A refused kernel is never touched. On a kernel whose function still has the old signature, \<open>attach\<close>
  raises, starts no process, remembers none, and leaves every running process alone.\<close>

theorem refused_kernel_never_loaded:
  assumes laws: "child_laws os alive" and run: "flow_attach pr os (a, w) = (r, (a', w'))"
    and old: "\<forall>w. case fst (os_run os btf_command w) of
      ExecCompleted p \<Rightarrow> cp_returncode p = 0 \<and> cp_stdout p \<noteq> [] \<and> btf_verdict pr (cp_stdout p) = Some True | _ \<Rightarrow> False"
  shows "a' = a \<and> alive w' = alive w \<and> (case r of Inl (RuntimeError msg vs) \<Rightarrow> True | _ \<Rightarrow> False)"
proof -
  obtain f1 w1 where 1: "os_exists os (fa_loader_path a) w = (f1, w1)" by (metis surj_pair)
  obtain f2 w2 where 2: "os_exists os (fa_object_path a) w1 = (f2, w2)" by (metis surj_pair)
  obtain oc w3 where 3: "os_run os btf_command w2 = (oc, w3)" by (metis surj_pair)
  have same: "alive w1 = alive w" "alive w2 = alive w" "alive w3 = alive w"
    using child_exists [OF laws 1] child_exists [OF laws 2] child_run [OF laws 3] by simp_all
  from old have oc: "case oc of ExecCompleted p \<Rightarrow>
      cp_returncode p = 0 \<and> cp_stdout p \<noteq> [] \<and> btf_verdict pr (cp_stdout p) = Some True | _ \<Rightarrow> False"
    using spec [OF old, of w2] 3 by simp
  then obtain p where p: "oc = ExecCompleted p" "cp_returncode p = 0" "cp_stdout p \<noteq> []" "btf_verdict pr (cp_stdout p) = Some True"
    by (cases oc) auto
  then have "kernel_has_old_parameter pr os w2 = (Inr (Some True), w3)"
    using 3 by (simp add: kernel_has_old_parameter_def io_defs)
  then obtain msg vs where "refuse_pre519 pr os w2 = (Inl (RuntimeError msg vs), w3)"
    by (simp add: refuse_pre519_def io_defs)
  with run 1 2 same show ?thesis
    by (auto simp: flow_attach_def io_defs split: if_splits)
qed

definition old_btf :: string where
  "old_btf = join [CHR 10]
     [''[9] FUNC_PROTO (anon) vlen=1'', CHR 9 # [CHR 0x27] @ ''nonblock'' @ [CHR 0x27] @ '' type_id=1'',
      ''[10] FUNC '' @ [CHR 0x27] @ ''tcp_recvmsg'' @ [CHR 0x27] @ '' type_id=9 linkage=static'']"

definition old_kernel_os :: "sim os" where
  "old_kernel_os = (sim_os [])\<lparr>os_run := (\<lambda>args s.
     (ExecCompleted \<lparr>cp_returncode = 0, cp_stdout = old_btf, cp_stderr = []\<rparr>, s))\<rparr>"

lemma refused_kernel_never_loaded_witness:
  "\<exists>r a' w'. flow_attach tcp_flows old_kernel_os (new_flow_attachment ''l'' ''o'', sim_start) = (r, (a', w')) \<and>
    sim_alive w' = [] \<and> fa_process a' = None"
proof -
  have laws: "child_laws old_kernel_os (set \<circ> sim_alive)"
    by (auto simp: child_laws_def old_kernel_os_def)
  have verdict: "btf_verdict tcp_flows old_btf = Some True" by code_simp
  have ne: "old_btf \<noteq> []" by (simp add: old_btf_def)
  have old: "\<forall>w. case fst (os_run old_kernel_os btf_command w) of
      ExecCompleted p \<Rightarrow> cp_returncode p = 0 \<and> cp_stdout p \<noteq> [] \<and> btf_verdict tcp_flows (cp_stdout p) = Some True | _ \<Rightarrow> False"
    by (simp add: old_kernel_os_def verdict ne)
  obtain r a' w' where run: "flow_attach tcp_flows old_kernel_os (new_flow_attachment ''l'' ''o'', sim_start) = (r, (a', w'))"
    by (metis surj_pair)
  from refused_kernel_never_loaded [OF laws run old] run show ?thesis
    by (auto simp: sim_start_def new_flow_attachment_def)
qed

text \<open>(C39) A loader whose status line is refused is left running: when the collector's constructor raises
  because the line it read does not parse, the loader it started still runs, and no object that could stop
  it is returned.\<close>

theorem refused_status_leaks_loader:
  assumes laws: "child_laws os alive" and attach: "fg_attach args"
    and run: "flow_attach pr os (new_flow_attachment (fg_loader_path args) (fg_object_path args), w) = (Inl e, (a', w'))"
    and started: "fa_process a' = Some h"
  shows "new_flow_collector pr os args w = (Inl e, w') \<and> h \<in> alive w' \<and>
    (\<exists>line. line \<noteq> [] \<and> parse_flow_loader_status pr os line = Inl e)"
  using flow_attach_child [OF laws run] started run attach
  by (simp add: new_flow_attachment_def new_flow_collector_def flow_source_def io_bind_def)

lemma refused_status_leaks_loader_witness:
  "\<exists>e w'. new_flow_collector tcp_flows (demo_flow_os 0)
      \<lparr>fg_catalog = \<lparr>cat_targets = []\<rparr>, fg_bucket_ms = 1000, fg_filter = None, fg_object_path = ''o'',
        fg_loader_path = ''l'', fg_map_id = None, fg_attach = True, fg_proc_root = ''/proc''\<rparr> sim_start = (Inl e, w') \<and>
    set (sim_alive w') = {1}"
proof -
  let ?args = "\<lparr>fg_catalog = \<lparr>cat_targets = []\<rparr>, fg_bucket_ms = 1000, fg_filter = None, fg_object_path = ''o'',
        fg_loader_path = ''l'', fg_map_id = None, fg_attach = True, fg_proc_root = ''/proc''\<rparr>"
  let ?e = "RuntimeError ''invalid {} channel loader status: {}'' [JStr (fp_label tcp_flows), JStr ''xx'']"
  have run: "flow_attach tcp_flows (demo_flow_os 0) (new_flow_attachment (fg_loader_path ?args) (fg_object_path ?args), sim_start) =
      (Inl ?e, ((new_flow_attachment ''l'' ''o'')\<lparr>fa_stderr_open := True, fa_process := Some 1\<rparr>,
        \<lparr>sim_step = 2, sim_alive = [1], sim_log = [btf_command]\<rparr>))"
    by (simp add: demo_attach Let_def)
  have "fg_attach ?args" "fa_process ((new_flow_attachment ''l'' ''o'')\<lparr>fa_stderr_open := True, fa_process := Some 1\<rparr>) = Some 1"
    by simp_all
  from refused_status_leaks_loader [OF sim_child_laws [of "[JNull, JObj [(''map_id'', JInt 0)]]", folded demo_flow_os_def] this(1) run this(2)]
  have "new_flow_collector tcp_flows (demo_flow_os 0) ?args sim_start = (Inl ?e, \<lparr>sim_step = 2, sim_alive = [1], sim_log = [btf_command]\<rparr>)"
    by blast
  then show ?thesis by auto
qed

section \<open>Closing, and a loader that died\<close>

lemma new_flow_collector_child:
  assumes laws: "child_laws os alive" and run: "new_flow_collector pr os args w = (Inr c, w')"
  shows "alive w' \<subseteq> alive w \<union> (case fl_attachment c of None \<Rightarrow> {} | Some a \<Rightarrow> set_option (fa_process a))"
proof (cases "fg_attach args")
  case False
  with run have "w' = w" "fl_attachment c = None"
    by (auto simp: new_flow_collector_def flow_source_def io_bind_Inr_iff io_res_def io_return_def
        io_raise_def split: option.splits)
  then show ?thesis by simp
next
  case True
  let ?a = "new_flow_attachment (fg_loader_path args) (fg_object_path args)"
  obtain r a' w1 where at: "flow_attach pr os (?a, w) = (r, (a', w1))" by (metis surj_pair)
  with run True have "w' = w1" "fl_attachment c = Some a'"
    by (cases r; auto simp: new_flow_collector_def flow_source_def io_bind_Inr_iff io_res_def io_return_def)+
  moreover have "fa_process ?a = None" by (simp add: new_flow_attachment_def)
  ultimately show ?thesis using flow_attach_child [OF laws at] by auto
qed

text \<open>Closing stops what construction started. A channel collector whose constructor returned, used in
  any way that starts no process of its own and keeps its attachment, leaves no process behind once it is
  closed; \<open>close\<close> does not raise.\<close>

theorem close_stops_channel_loader:
  assumes laws: "child_laws os alive" and run: "new_flow_collector pr os args w = (Inr c, w1)"
    and used: "fl_attachment c2 = fl_attachment c" "alive w2 \<subseteq> alive w1"
    and close: "close_flow_collector os (c2, w2) = (q, (c3, w3))"
  shows "alive w3 \<subseteq> alive w \<and> q = Inr ()"
proof (cases "fl_attachment c")
  case None
  with close used new_flow_collector_child [OF laws run] show ?thesis
    by (auto simp: close_flow_collector_def on_flow_attachment_def)
next
  case (Some a)
  obtain r a' w' where d: "flow_detach os (a, w2) = (r, (a', w'))" by (metis surj_pair)
  with close Some used have "w3 = w'" "q = r"
    by (auto simp: close_flow_collector_def on_flow_attachment_def)
  with flow_detach_dead [OF laws d] new_flow_collector_child [OF laws run] Some used show ?thesis by auto
qed

definition demo_flow_args :: flow_args where
  "demo_flow_args = \<lparr>fg_catalog = \<lparr>cat_targets = []\<rparr>, fg_bucket_ms = 1000, fg_filter = None, fg_object_path = ''o'',
     fg_loader_path = ''l'', fg_map_id = None, fg_attach = True, fg_proc_root = ''/proc''\<rparr>"

lemma demo_constructed:
  "\<exists>c. new_flow_collector pr (demo_flow_os 7) demo_flow_args sim_start =
    (Inr c, \<lparr>sim_step = 2, sim_alive = [1], sim_log = [btf_command]\<rparr>)"
  using demo_attach [of pr 7]
  by (simp add: new_flow_collector_def flow_source_def demo_flow_args_def io_defs Let_def new_flow_reader_def)

lemma close_stops_channel_loader_witness:
  "\<exists>c w q d v. new_flow_collector tcp_flows (demo_flow_os 7) demo_flow_args sim_start = (Inr c, w) \<and> set (sim_alive w) = {1} \<and>
    close_flow_collector (demo_flow_os 7) (c, w) = (q, (d, v)) \<and> set (sim_alive v) = {}"
proof -
  obtain c w where run: "new_flow_collector tcp_flows (demo_flow_os 7) demo_flow_args sim_start = (Inr c, w)"
    and w: "set (sim_alive w) = {1}"
    using demo_constructed [of tcp_flows] by auto
  obtain q d v where close: "close_flow_collector (demo_flow_os 7) (c, w) = (q, (d, v))" by (metis surj_pair)
  have "set (sim_alive v) = {}"
    using close_stops_channel_loader [OF sim_child_laws run [unfolded demo_flow_os_def] refl subset_refl
        close [unfolded demo_flow_os_def]] by (simp add: sim_start_def)
  with run w close show ?thesis by blast
qed

text \<open>(C19) Counters of a dead loader are never read. A checkpoint that finds its loader exited raises a
  \<open>RuntimeError\<close>, keeps the baseline and the time of the last checkpoint, runs no command, and forgets the
  process, so that every later checkpoint raises as well.\<close>

theorem dead_loader_stops_checkpoint:
  assumes att: "fl_attachment c = Some a" and h: "fa_process a = Some h" and dead: "os_poll os h w = (Some rc, w1)"
    and run: "flow_checkpoint pr os (c, w) = (r, (c', w'))"
  shows "(case r of Inl (RuntimeError msg vs) \<Rightarrow> True | _ \<Rightarrow> False) \<and>
    fl_previous c' = fl_previous c \<and> fl_last_checkpoint_ns c' = fl_last_checkpoint_ns c \<and>
    w' = (if fa_stderr_open a then snd (os_stderr_text os h w1) else w1) \<and>
    fl_attachment c' = Some (a\<lparr>fa_process := None, fa_status := None, fa_stderr_open := False\<rparr>) \<and>
    (case flow_checkpoint pr os (c', w') of (Inl (RuntimeError msg vs), s) \<Rightarrow> s = (c', w') | _ \<Rightarrow> False)"
proof -
  obtain t where st: "stderr_text os h (a, w1) =
      (Inr t, (a, if fa_stderr_open a then snd (os_stderr_text os h w1) else w1))"
    by (cases "fa_stderr_open a"; cases "os_stderr_text os h w1") (auto simp: stderr_text_def io_defs)
  obtain vs where alive: "flow_ensure_alive pr os (a, w) =
     (Inl (RuntimeError ''{} channel BPF loader exited with status {}{}'' vs),
      (a\<lparr>fa_process := None, fa_status := None, fa_stderr_open := False\<rparr>,
       if fa_stderr_open a then snd (os_stderr_text os h w1) else w1))"
    by (simp add: flow_ensure_alive_def h dead st close_stderr_def io_defs)
  from run att alive have r: "r = Inl (RuntimeError ''{} channel BPF loader exited with status {}{}'' vs)"
    "c' = c\<lparr>fl_attachment := Some (a\<lparr>fa_process := None, fa_status := None, fa_stderr_open := False\<rparr>)\<rparr>"
    "w' = (if fa_stderr_open a then snd (os_stderr_text os h w1) else w1)"
    by (simp_all add: flow_checkpoint_eq on_flow_attachment_def)
  have again: "flow_checkpoint pr os (c', w') =
      (Inl (RuntimeError ''{} channel BPF loader is not running'' [JStr (fp_label pr)]), (c', w'))"
    by (simp add: flow_checkpoint_eq on_flow_attachment_def flow_ensure_alive_def r(2) io_defs)
  show ?thesis unfolding again r(1) using r(2,3) by simp
qed

lemma dead_loader_stops_checkpoint_witness:
  "\<exists>r c' w'. flow_checkpoint tcp_flows (sim_os []) (demo_flow_collector\<lparr>fl_attachment :=
      Some ((new_flow_attachment ''l'' ''o'')\<lparr>fa_process := Some 3\<rparr>)\<rparr>, sim_start) = (r, (c', w')) \<and>
    w' = sim_start \<and> fl_previous c' = Map.empty"
proof -
  let ?a = "(new_flow_attachment ''l'' ''o'')\<lparr>fa_process := Some 3\<rparr>"
  let ?c = "demo_flow_collector\<lparr>fl_attachment := Some ?a\<rparr>"
  obtain r c' w' where run: "flow_checkpoint tcp_flows (sim_os []) (?c, sim_start) = (r, (c', w'))" by (metis surj_pair)
  have "fl_attachment ?c = Some ?a" "fa_process ?a = Some 3" "os_poll (sim_os []) 3 sim_start = (Some 0, sim_start)"
    by (simp_all add: sim_start_def)
  from dead_loader_stops_checkpoint [OF this run] run show ?thesis
    by (auto simp: new_flow_attachment_def demo_flow_collector_def)
qed

end
