(* ===== verification/EbpfCheckpoint.thy ===== *)
theory EbpfCheckpoint
  imports EbpfFacts
begin

text \<open>
  The delivered reader of the UDP collector, and the checkpoint as a whole: which rows it may report, and
  the time fields they carry.
\<close>

section \<open>The delivered reader\<close>

abbreviation delivered_ident :: "delivered_map_entry \<Rightarrow> ident7" where
  "delivered_ident \<equiv> delivered_key_identity \<circ> de_key"

definition delivered_total :: "delivered_map_entry list \<Rightarrow> ident7 \<Rightarrow> udp_map_counters" where
  "delivered_total entries i =
     (let es = filter (\<lambda>x. delivered_ident x = i) entries
      in \<lparr>mc_packets = sum_list (map (dv_packets \<circ> de_value) es),
          mc_bytes = sum_list (map (dv_bytes \<circ> de_value) es)\<rparr>)"

lemma delivered_total_eq:
  "udp_ctr.total delivered_ident (delivered_counters \<circ> de_value) entries i = delivered_total entries i"
proof -
  have f: "fold (\<lambda>x a. add_udp_counters a ((delivered_counters \<circ> de_value) x)) es z =
     \<lparr>mc_packets = mc_packets z + sum_list (map (dv_packets \<circ> de_value) es),
      mc_bytes = mc_bytes z + sum_list (map (dv_bytes \<circ> de_value) es)\<rparr>" for es z
    by (induction es arbitrary: z) (simp_all add: add_udp_counters_def delivered_counters_def)
  then show ?thesis
    unfolding udp_ctr.total_def delivered_total_def Let_def f by (simp add: zero_udp_counters_def)
qed

definition delivered_baseline :: "delivered_map_entry list \<Rightarrow> (ident7 \<rightharpoonup> udp_map_counters)" where
  "delivered_baseline entries i =
     (if i \<in> delivered_ident ` set entries then Some (delivered_total entries i) else None)"

lemma delivered_totals:
  "map_of (fst (aggregate delivered_ident (delivered_counters \<circ> de_value) add_udp_counters zero_udp_counters entries)) =
     delivered_baseline entries"
  by (simp only: fun_eq_iff udp_ctr.aggregate_totals delivered_total_eq delivered_baseline_def) simp

text \<open>(C13) Delivered rows are attributed by socket. Each row of the delivered reader belongs to one dumped
  entry whose flow an earlier checkpoint saw; its counters are the clamped growth of the flow's summed
  counters since then, at least one of them grew, its socket id is the socket cookie of that entry, and its
  layer says \<open>delivered\<close>. Afterwards the baseline is the sums of this dump.\<close>

theorem delivered_rows_sound:
  assumes reader: "ic_delivered_reader c = Some m"
    and dump: "delivered_dump_entries os m w = (Inr entries, w')"
    and read: "read_delivered os b e (c, w) = (Inr rows, (d, v))"
  shows "ic_delivered_previous d = delivered_baseline entries \<and>
    (\<forall>r \<in> set rows. \<exists>x p. x \<in> set entries \<and> ic_delivered_previous c (delivered_ident x) = Some p \<and>
       is_delta p (delivered_total entries (delivered_ident x)) b e r \<and>
       us_layer r = ''delivered'' \<and> us_socket_id r = dk_socket_cookie (de_key x))"
proof -
  let ?agg = "aggregate delivered_ident (delivered_counters \<circ> de_value) add_udp_counters zero_udp_counters entries"
  have loop: "emit_loop put_delivered ic_delivered_previous (delivered_emit os b e (snd ?agg)) (fst ?agg) []
      (put_delivered (drop_stale (fst ?agg) (ic_delivered_previous c)) c, w') = (Inr rows, (d, v))"
    using read reader dump
    by (simp add: read_delivered_def io_bind_def io_get_def io_world_def io_modify_def split: prod.splits)
  have base: "ic_delivered_previous d = delivered_baseline entries"
    using delivered.checkpoint_baseline [OF loop udp_ctr.aggregate_distinct] by (simp only: fst_conv delivered_totals)
  have "\<exists>x p. x \<in> set entries \<and> ic_delivered_previous c (delivered_ident x) = Some p \<and>
       is_delta p (delivered_total entries (delivered_ident x)) b e r \<and>
       us_layer r = ''delivered'' \<and> us_socket_id r = dk_socket_cookie (de_key x)" if r: "r \<in> set rows" for r
  proof -
    from delivered.loop_samples [OF loop udp_ctr.aggregate_distinct r]
    obtain i tot p u t xs where i: "(i, tot) \<in> set (fst ?agg)"
      and p: "drop_stale (fst ?agg) (ic_delivered_previous c) i = Some p"
      and row: "delivered_emit os b e (snd ?agg) i p tot u = (Inr xs, t)" "r \<in> set xs"
      by (auto simp: put_delivered_def simp del: comp_apply)
    have "map_of (fst ?agg) i = Some tot" using i udp_ctr.aggregate_distinct by (rule map_of_is_SomeI [rotated])
    then have tot: "tot = delivered_total entries i"
      unfolding delivered_totals delivered_baseline_def by (simp only: split: if_splits)  simp_all
    from p have "ic_delivered_previous c i = Some p" by (auto simp: drop_stale_def restrict_map_def split: if_splits)
    moreover obtain x where x: "map_of (snd ?agg) i = Some x" "is_delta p tot b e r" "us_layer r = ''delivered''"
        "us_socket_id r = dk_socket_cookie (de_key x)"
      using delivered_emit_row [OF row] by blast
    moreover have "x \<in> set entries" "delivered_ident x = i"
      using x(1) unfolding udp_ctr.aggregate_first by (auto simp: find_Some_iff)
    ultimately show ?thesis using tot by blast
  qed
  with base show ?thesis by blast
qed

definition demo_delivered :: "int \<Rightarrow> int \<Rightarrow> delivered_map_entry" where
  "demo_delivered packets bts =
     \<lparr>de_key = \<lparr>dk_socket_cookie = 9, dk_src_ip4 = 16777226, dk_dst_ip4 = 33554442, dk_src_port = 53,
        dk_dst_port = 5353, dk_family = 2, dk_ip_proto = 17\<rparr>,
      de_value = \<lparr>dv_packets = packets, dv_bytes = bts, dv_socket_inode = 7, dv_ifindex = 3\<rparr>\<rparr>"

definition demo_delivered_json :: "int \<Rightarrow> int \<Rightarrow> json" where
  "demo_delivered_json packets bts = JList [JObj
     [(''key'', JObj [(''socket_cookie'', JInt 9), (''src_ip4'', JInt 16777226), (''dst_ip4'', JInt 33554442),
        (''src_port'', JInt 53), (''dst_port'', JInt 5353), (''family'', JInt 2), (''ip_proto'', JInt 17)]),
      (''value'', JObj [(''packets'', JInt packets), (''bytes'', JInt bts), (''socket_inode'', JInt 7),
        (''ifindex'', JInt 3)])]]"

definition demo_delivered_collector :: ingress_collector where
  "demo_delivered_collector = put_delivered (delivered_baseline [demo_delivered 2 300])
     (demo_collector\<lparr>ic_delivered_reader := Some 4\<rparr>)"

lemma demo_delivered_dump:
  "delivered_dump_entries (sim_os [demo_delivered_json 5 700]) 4 sim_start =
     (Inr [demo_delivered 5 700], sim_start\<lparr>sim_step := 1, sim_log := [sudo_command (dump_command 4) True]\<rparr>)"
proof -
  have "parse_dump parse_bpftool_delivered_entry (demo_delivered_json 5 700) = Inr [demo_delivered 5 700]"
    by (simp add: parse_dump_def demo_delivered_json_def parse_bpftool_delivered_entry_def
        parse_bpftool_delivered_key_def parse_bpftool_delivered_value_def delivered_value_of_value_def demo_delivered_def)
  then show ?thesis
    by (simp add: delivered_dump_entries_def sim_run_json io_defs sim_start_def)
qed

lemma delivered_rows_sound_witness:
  "\<exists>rows d v. read_delivered (sim_os [demo_delivered_json 5 700]) 0 250 (demo_delivered_collector, sim_start) = (Inr rows, (d, v)) \<and>
    length rows = 1 \<and> (\<forall>r \<in> set rows. us_socket_id r = 9)"
proof -
  have reader: "ic_delivered_reader demo_delivered_collector = Some 4"
    by (simp add: demo_delivered_collector_def put_delivered_def)
  have emitted: "\<exists>rows d v. read_delivered (sim_os [demo_delivered_json 5 700]) 0 250 (demo_delivered_collector, sim_start) =
      (Inr rows, (d, v)) \<and> length rows = 1"
    using demo_delivered_dump reader
    by (simp add: Let_def read_delivered_def io_bind_def io_get_def io_world_def io_modify_def aggregate_def
        aggregate_step_def demo_delivered_def delivered_key_identity_def delivered_counters_def add_udp_counters_def
        zero_udp_counters_def setdefault_def drop_stale_def put_delivered_def demo_delivered_collector_def
        delivered_baseline_def delivered_total_def delivered_emit_def io_res_def ip_text_in_range
        ifname_from_index_def io_op_def io_return_def on_enricher_def keep_matching_def demo_collector_def
        initial_collector_def demo_args_def)
  then obtain rows d v where read: "read_delivered (sim_os [demo_delivered_json 5 700]) 0 250
      (demo_delivered_collector, sim_start) = (Inr rows, (d, v))" and len: "length rows = 1" by blast
  have "\<forall>r \<in> set rows. us_socket_id r = 9"
    using delivered_rows_sound [OF reader demo_delivered_dump read] by (auto simp: demo_delivered_def)
  with read len show ?thesis by blast
qed

section \<open>The time fields of a checkpoint\<close>

lemma read_ingress_times:
  assumes read: "read_ingress os b e (c, w) = (Inr rows, t)" and r: "r \<in> set rows"
  shows "us_bucket_ms r = e \<and> us_bucket_start_ns r = b"
proof -
  obtain q c' w' where d: "on_reader (dump_entries os) (c, w) = (q, (c', w'))" by (metis surj_pair)
  then obtain entries where "q = Inr entries"
    using read by (cases q) (auto simp: read_ingress_dump_error)
  with ingress_rows_delta [OF _ read r] d show ?thesis by (auto simp: is_delta_def)
qed

lemma read_delivered_times:
  assumes read: "read_delivered os b e (c, w) = (Inr rows, t)" and r: "r \<in> set rows"
  shows "us_bucket_ms r = e \<and> us_bucket_start_ns r = b"
proof -
  obtain m where m: "ic_delivered_reader c = Some m"
    using read r by (cases "ic_delivered_reader c") (auto simp: read_delivered_def io_bind_def io_get_def io_return_def)
  obtain q w' where d: "delivered_dump_entries os m w = (q, w')" by (metis surj_pair)
  let ?agg = "\<lambda>es. aggregate delivered_ident (delivered_counters \<circ> de_value) add_udp_counters zero_udp_counters es"
  obtain es where "q = Inr es"
    using read m d by (cases q) (auto simp: read_delivered_def io_bind_def io_get_def io_world_def)
  then have loop: "emit_loop put_delivered ic_delivered_previous (delivered_emit os b e (snd (?agg es))) (fst (?agg es)) []
      (put_delivered (drop_stale (fst (?agg es)) (ic_delivered_previous c)) c, w') = (Inr rows, t)"
    using read m d
    by (simp add: read_delivered_def io_bind_def io_get_def io_world_def io_modify_def split: prod.splits)
  from delivered.loop_samples [OF loop udp_ctr.aggregate_distinct r] show ?thesis
    using delivered_emit_row by (fastforce simp: is_delta_def)
qed

lemma frames_on_receive [frame_intros]:
  "(\<And>a c. f (c\<lparr>ic_receive_attachment := a\<rparr>) = f c) \<Longrightarrow> frames (f \<circ> fst) (on_receive m)"
  by (simp add: frames_def on_receive_def split: option.splits prod.splits)

lemma frames_read_last:
  "frames (ic_last_checkpoint_ns \<circ> fst) (read_ingress os b e)"
  "frames (ic_last_checkpoint_ns \<circ> fst) (read_delivered os b e)"
  unfolding read_ingress_def read_delivered_def Let_def on_reader_def
  by (intro frame_intros frames_ingress_emit frames_delivered_emit; auto simp: put_previous_def put_delivered_def)+

text \<open>(C15) The clock of a checkpoint. Whatever a checkpoint does, and also when it raises, the collector
  remembers its time; and every row it returns, of either layer, starts at the bucket boundary at or before
  that time, less than one bucket earlier, and spans the measured interval, which is positive: the whole
  milliseconds since the previous checkpoint, or the nominal bucket when there was none.\<close>

theorem checkpoint_times:
  assumes width: "0 < ic_bucket_ms c" and clock: "os_time_ns os w = (now, w1)"
    and run: "read_checkpoint os (c, w) = (r, (d, v))"
  shows "ic_last_checkpoint_ns d = Some now \<and> (\<forall>rows. r = Inr rows \<longrightarrow> (\<forall>x \<in> set rows.
    us_bucket_ms x = measured_ms (ic_bucket_ms c) (ic_last_checkpoint_ns c) now \<and> 0 < us_bucket_ms x \<and>
    us_bucket_start_ns x \<le> now \<and> now < us_bucket_start_ns x + ic_bucket_ms c * 1000000 \<and>
    ic_bucket_ms c * 1000000 dvd us_bucket_start_ns x))"
proof -
  define b where "b = (now div (ic_bucket_ms c * 1000000)) * (ic_bucket_ms c * 1000000)"
  define e where "e = measured_ms (ic_bucket_ms c) (ic_last_checkpoint_ns c) now"
  let ?c = "c\<lparr>ic_last_checkpoint_ns := Some now\<rparr>"
  obtain q1 c1 w2 where 1: "read_ingress os b e (?c, w1) = (q1, (c1, w2))" by (metis surj_pair)
  obtain q2 c2 w3 where 2: "read_delivered os b e (c1, w2) = (q2, (c2, w3))" by (metis surj_pair)
  have last: "ic_last_checkpoint_ns c1 = Some now" "ic_last_checkpoint_ns c2 = Some now"
    using framesD [OF frames_read_last(1) 1] framesD [OF frames_read_last(2) 2] by simp_all
  have eq: "read_checkpoint os (c, w) =
      (case q1 of Inl x \<Rightarrow> (Inl x, (c1, w2))
       | Inr ingress \<Rightarrow> if ic_delivered_reader ?c = None then (Inr ingress, (c1, w2))
           else (case q2 of Inl x \<Rightarrow> (Inl x, (c2, w3)) | Inr delivered \<Rightarrow> (Inr (ingress @ delivered), (c2, w3))))"
    using width clock 1 2
    by (cases q1; cases q2; cases "ic_delivered_reader c1")
       (auto simp: read_checkpoint_def io_bind_def io_world_def io_op_def io_get_def io_res_def io_modify_def
          io_return_def bucket_start_ns_Inr b_def e_def Let_def)
  have bounds: "b \<le> now" "now < b + ic_bucket_ms c * 1000000" "ic_bucket_ms c * 1000000 dvd b"
    using floor_div_bounds [of "ic_bucket_ms c * 1000000" now] width by (simp_all add: b_def distrib_right)
  have pos: "0 < e" unfolding e_def by (rule measured_ms_pos [OF width])
  have "us_bucket_ms x = e \<and> us_bucket_start_ns x = b" if "r = Inr rows" "x \<in> set rows" for rows x
  proof -
    have t1: "us_bucket_ms x = e \<and> us_bucket_start_ns x = b" if "q1 = Inr xs" "x \<in> set xs" for xs
      by (rule read_ingress_times [OF _ that(2)]) (use 1 that in simp)
    have t2: "us_bucket_ms x = e \<and> us_bucket_start_ns x = b" if "q2 = Inr xs" "x \<in> set xs" for xs
      by (rule read_delivered_times [OF _ that(2)]) (use 2 that in simp)
    show ?thesis
      using that run eq t1 t2 by (cases q1; cases q2) (auto split: if_splits)
  qed
  moreover have "ic_last_checkpoint_ns d = Some now"
    using run eq last by (auto split: sum.splits if_splits)
  ultimately show ?thesis using bounds pos by (auto simp: e_def)
qed

lemma checkpoint_times_witness:
  "\<exists>r d v. read_checkpoint (sim_os [demo_json 5 700])
      (put_previous (baseline_of [demo_entry 2 300]) demo_collector, sim_start) = (r, (d, v)) \<and>
    ic_last_checkpoint_ns d = Some 1000000000"
proof -
  let ?c = "put_previous (baseline_of [demo_entry 2 300]) demo_collector"
  obtain r d v where run: "read_checkpoint (sim_os [demo_json 5 700]) (?c, sim_start) = (r, (d, v))" by (metis surj_pair)
  have "0 < ic_bucket_ms ?c" "os_time_ns (sim_os [demo_json 5 700]) sim_start = (1000000000, sim_start)"
    by (simp_all add: put_previous_def demo_collector_def initial_collector_def demo_args_def sim_start_def)
  from checkpoint_times [OF this run] run show ?thesis by blast
qed

end
