(* ===== verification/Worlds.thy ===== *)
theory Worlds
  imports Cli FlowLoader EbpfCheckpoint
begin

text \<open>
  Operations that respect an order of worlds. \<open>quiet os R\<close> says that no system call except \<open>Popen\<close> leaves the
  order \<open>R\<close>: with \<open>R\<close> comparing clocks, time never goes back; with \<open>R\<close> comparing the running children, none
  is started. The rules of \<open>keeps_intros\<close> follow the program text and carry \<open>R\<close> through whole checkpoints.
\<close>

named_theorems keeps_intros

definition worldly :: "('s \<Rightarrow> 's \<Rightarrow> bool) \<Rightarrow> bool" where
  "worldly R \<longleftrightarrow> reflp R \<and> transp R"

definition keeps :: "('s \<Rightarrow> 's \<Rightarrow> bool) \<Rightarrow> ('s, 'a) io \<Rightarrow> bool" where
  "keeps R m \<longleftrightarrow> (worldly R \<longrightarrow> (\<forall>s. R s (snd (m s))))"

definition on_world :: "('w \<Rightarrow> 'w \<Rightarrow> bool) \<Rightarrow> 'o \<times> 'w \<Rightarrow> 'o \<times> 'w \<Rightarrow> bool" where
  "on_world R s t \<longleftrightarrow> R (snd s) (snd t)"

lemma worldlyD: "worldly R \<Longrightarrow> R s s" "worldly R \<Longrightarrow> R s t \<Longrightarrow> R t u \<Longrightarrow> R s u"
  unfolding worldly_def by (auto dest: reflpD transpD)

lemma worldly_on_world [simp]:
  fixes R :: "'w \<Rightarrow> 'w \<Rightarrow> bool"
  shows "worldly (on_world R :: 'o \<times> 'w \<Rightarrow> 'o \<times> 'w \<Rightarrow> bool) \<longleftrightarrow> worldly R"
proof
  assume w: "worldly (on_world R :: 'o \<times> 'w \<Rightarrow> 'o \<times> 'w \<Rightarrow> bool)"
  have "R x x" for x
    using worldlyD(1) [OF w, of "(undefined, x)"] by (simp add: on_world_def)
  moreover have "R x y \<Longrightarrow> R y z \<Longrightarrow> R x z" for x y z
    using worldlyD(2) [OF w, of "(undefined, x)" "(undefined, y)" "(undefined, z)"] by (simp add: on_world_def)
  ultimately show "worldly R" unfolding worldly_def by (blast intro: reflpI transpI)
next
  assume w: "worldly R"
  show "worldly (on_world R :: 'o \<times> 'w \<Rightarrow> 'o \<times> 'w \<Rightarrow> bool)"
    unfolding worldly_def on_world_def
    by (intro conjI reflpI transpI) (rule worldlyD(1) [OF w], erule (1) worldlyD(2) [OF w])
qed

lemma keepsD: "keeps R m \<Longrightarrow> worldly R \<Longrightarrow> m s = (r, t) \<Longrightarrow> R s t"
  unfolding keeps_def by (metis snd_conv)

lemma keeps_bind [keeps_intros]:
  assumes "keeps R m" and "\<And>x. keeps R (f x)"
  shows "keeps R (io_bind m f)"
  unfolding keeps_def
proof (intro impI allI)
  fix s assume w: "worldly R"
  obtain r t where m: "m s = (r, t)" by (metis surj_pair)
  have "R s t" by (rule keepsD [OF assms(1) w m])
  moreover have "R t (snd (f x t))" for x using assms(2) w unfolding keeps_def by blast
  ultimately show "R s (snd (io_bind m f s))"
    using worldlyD(2) [OF w] by (cases r) (auto simp: io_bind_def m)
qed

lemma keeps_basic [keeps_intros]:
  "keeps R (io_return x)" "keeps R (io_raise e)" "keeps R (io_res r)" "keeps R (io_get h)"
  by (simp_all add: keeps_def io_defs worldlyD)

lemma keeps_op [keeps_intros]: "(\<And>s. R s (snd (g s))) \<Longrightarrow> keeps R (io_op g)"
  by (simp add: keeps_def io_op_def split: prod.splits) (metis snd_conv)

lemma keeps_world [keeps_intros]: "keeps R m \<Longrightarrow> keeps (on_world R) (io_world m)"
  by (auto simp: keeps_def io_world_def on_world_def split: prod.splits) (metis snd_conv)

lemma keeps_self [keeps_intros]: "keeps (on_world R) m \<Longrightarrow> keeps (on_world R) (io_self get put m)"
  by (auto simp: keeps_def io_self_def on_world_def split: prod.splits) (metis snd_conv)

lemma keeps_modify [keeps_intros]: "(\<And>s. snd (g s) = snd s) \<Longrightarrow> keeps (on_world R) (io_modify g)"
  by (simp add: keeps_def io_modify_def on_world_def worldlyD)

lemma keeps_if [keeps_intros]: "keeps R m \<Longrightarrow> keeps R n \<Longrightarrow> keeps R (if b then m else n)"
  by simp

lemma keeps_case [keeps_intros]:
  "keeps R m \<Longrightarrow> (\<And>x. keeps R (n x)) \<Longrightarrow> keeps R (case q of None \<Rightarrow> m | Some x \<Rightarrow> n x)"
  "(\<And>e. keeps R (k e)) \<Longrightarrow> (\<And>x. keeps R (l x)) \<Longrightarrow> keeps R (case v of Inl e \<Rightarrow> k e | Inr x \<Rightarrow> l x)"
  "(\<And>a b. keeps R (h a b)) \<Longrightarrow> keeps R (case p of (a, b) \<Rightarrow> h a b)"
  by ((cases q; simp), (cases v; simp), (cases p; simp))

lemma keeps_traverse [keeps_intros]: "(\<And>x. keeps R (f x)) \<Longrightarrow> keeps R (io_traverse f xs)"
  by (induction xs) (auto intro!: keeps_intros)

lemma keeps_emit_loop [keeps_intros]:
  fixes R :: "'w \<Rightarrow> 'w \<Rightarrow> bool" and emit :: "'i \<Rightarrow> 'c \<Rightarrow> 'c \<Rightarrow> ('o \<times> 'w, 'm list) io"
  assumes "\<And>i p c. keeps (on_world R) (emit i p c)"
  shows "keeps (on_world R) (emit_loop put get emit tots acc)"
proof -
  have "on_world R s (snd (emit_loop put get emit tots acc s))" if w: "worldly R" for s
  proof (induction tots arbitrary: acc s)
    case Nil
    then show ?case by (simp add: on_world_def worldlyD [OF w])
  next
    case (Cons ic rest)
    obtain i c where ic: "ic = (i, c)" by (cases ic)
    let ?s = "(put ((get (fst s))(i \<mapsto> c)) (fst s), snd s)"
    have s: "on_world R s ?s" by (simp add: on_world_def worldlyD [OF w])
    have w': "worldly (on_world R :: 'o \<times> 'w \<Rightarrow> 'o \<times> 'w \<Rightarrow> bool)" using w by simp
    show ?case
    proof (cases "get (fst s) i")
      case None
      from worldlyD(2) [OF w' s Cons.IH] None show ?thesis by (simp add: ic Let_def)
    next
      case (Some prev)
      obtain r v where e: "emit i prev c ?s = (r, v)" by (metis surj_pair)
      have "on_world R ?s v" by (rule keepsD [OF assms w' e])
      then have v: "on_world R s v" by (rule worldlyD(2) [OF w' s])
      show ?thesis
      proof (cases r)
        case (Inl err)
        with Some e v show ?thesis by (simp add: ic Let_def)
      next
        case (Inr ms)
        with Some e worldlyD(2) [OF w' v Cons.IH] show ?thesis by (simp add: ic Let_def)
      qed
    qed
  qed
  then show ?thesis by (simp add: keeps_def)
qed

section \<open>Quiet systems\<close>

definition quiet :: "'w os \<Rightarrow> ('w \<Rightarrow> 'w \<Rightarrow> bool) \<Rightarrow> bool" where
  "quiet os R \<longleftrightarrow> worldly R \<and>
     (\<forall>w. R w (snd (os_time_ns os w)) \<and> R w (snd (os_monotonic os w)) \<and> R w (snd (os_geteuid os w))) \<and>
     (\<forall>args w. R w (snd (os_run os args w))) \<and>
     (\<forall>p w. R w (snd (os_read_text os p w)) \<and> R w (snd (os_iterdir os p w)) \<and> R w (snd (os_readlink os p w)) \<and>
        R w (snd (os_exists os p w)) \<and> R w (snd (os_getenv os p w))) \<and>
     (\<forall>i w. R w (snd (os_if_indextoname os i w))) \<and>
     (\<forall>h w. R w (snd (os_select os h w)) \<and> R w (snd (os_readline os h w)) \<and> R w (snd (os_poll os h w)) \<and>
        R w (snd (os_wait os h w)) \<and> R w (snd (os_terminate os h w)) \<and> R w (snd (os_kill os h w)) \<and>
        R w (snd (os_stderr_text os h w))) \<and>
     (\<forall>h b w. R w (snd (os_communicate os h b w))) \<and>
     (\<forall>t vs w. R w (snd (os_warn os t vs w))) \<and>
     (\<forall>n p w. R w (snd (os_getaddrinfo os n p w))) \<and> (\<forall>d p w. R w (snd (os_glob os d p w)))"

lemma keeps_call [keeps_intros]:
  assumes "quiet os R"
  shows "keeps R (io_op (os_time_ns os))" "keeps R (io_op (os_monotonic os))" "keeps R (io_op (os_geteuid os))"
    "keeps R (io_op (os_run os args))" "keeps R (io_op (os_read_text os p))" "keeps R (io_op (os_iterdir os p))"
    "keeps R (io_op (os_readlink os p))" "keeps R (io_op (os_exists os p))" "keeps R (io_op (os_getenv os p))"
    "keeps R (io_op (os_if_indextoname os i))" "keeps R (io_op (os_select os h))" "keeps R (io_op (os_readline os h))"
    "keeps R (io_op (os_poll os h))" "keeps R (io_op (os_wait os h))" "keeps R (io_op (os_terminate os h))"
    "keeps R (io_op (os_kill os h))" "keeps R (io_op (os_stderr_text os h))" "keeps R (io_op (os_communicate os h b))"
    "keeps R (io_op (os_warn os t vs))" "keeps R (io_op (os_getaddrinfo os p j))" "keeps R (io_op (os_glob os p p'))"
  using assms unfolding quiet_def by (intro keeps_op; simp)+

lemma keeps_run_command:
  assumes "quiet os R"
  shows "keeps R (run_command os args sudo check)" "keeps R (run_json os args sudo')"
  unfolding run_command_def run_json_def Let_def
  by (intro keeps_intros assms; auto intro!: keeps_intros split: exec_outcome.splits)+

end
