(* ===== verification/WriterFacts.thy ===== *)
theory WriterFacts
  imports Writers
begin

text \<open>
  What the writers guarantee: when rows fit the schema (never in DuckDB, for real times), and that a session
  of writes followed by \<open>flush\<close> and \<open>close\<close>, if it returns, leaves every row in the store, in order. The contract is the locale \<open>sample_writer\<close>, interpreted on
  each writer; the store's own documented behaviour is the hypothesis \<open>db_laws\<close> (\<open>http_laws\<close>).
\<close>

section \<open>Rows fit the schema\<close>

definition row_values :: "(int \<Rightarrow> string) \<Rightarrow> udp_sample \<Rightarrow> json list" where
  "row_values ts_of s =
     [JInt (us_bucket_start_ns s), JInt (us_bucket_ms s), JStr (ts_of (us_bucket_start_ns s)), JStr (us_src_ip s),
      JStr (us_dst_ip s), JInt (us_src_port s), JInt (us_dst_port s), JInt (us_ip_proto s), JInt (us_ifindex s),
      JStr (us_ifname s), JInt (us_netns_id s), JStr (us_container_id s), JStr (us_process_name s),
      JInt (us_host_pid s), JInt (us_container_pid s), JInt (us_socket_id s), JInt (us_packets s),
      JInt (us_bytes s), JStr (us_layer s)]"

lemma sample_values_row [simp]: "sample_values ts_of s = Inr (row_values ts_of s)"
  by (simp add: sample_values_def INSERT_COLUMNS_def udp_to_dict_def row_values_def)

lemma traverse_sample_values [simp]: "traverse (sample_values ts_of) rows = Inr (map (row_values ts_of) rows)"
  by (rule traverse_Inr_map) simp

text \<open>
  A value that a \<open>NOT NULL\<close> column of the declared type accepts. Both databases document the width of the
  integers they store in a column declared \<open>INTEGER\<close>: 64 bits in sqlite, 32 bits in DuckDB.
\<close>

definition int_bits :: "db_driver \<Rightarrow> nat" where
  "int_bits driver = (case driver of SqliteDriver \<Rightarrow> 64 | DuckDriver \<Rightarrow> 32)"

definition fits_width :: "db_driver \<Rightarrow> int \<Rightarrow> bool" where
  "fits_width driver i \<longleftrightarrow> - (2 ^ (int_bits driver - 1)) \<le> i \<and> i < 2 ^ (int_bits driver - 1)"

definition fits_column :: "db_driver \<Rightarrow> string \<times> string \<Rightarrow> json \<Rightarrow> bool" where
  "fits_column driver c v = (case v of JInt i \<Rightarrow> snd c = ''INTEGER'' \<and> fits_width driver i
     | JStr s \<Rightarrow> snd c = ''TEXT'' | _ \<Rightarrow> False)"

definition sample_integers :: "udp_sample \<Rightarrow> int list" where
  "sample_integers s =
     [us_bucket_start_ns s, us_bucket_ms s, us_src_port s, us_dst_port s, us_ip_proto s, us_ifindex s,
      us_netns_id s, us_host_pid s, us_container_pid s, us_socket_id s, us_packets s, us_bytes s]"

text \<open>(C35) When a sample is a well-typed row. The values that are inserted are never missing, they come in the
  order of the schema, and the insert statement has a placeholder for each; a column declared \<open>TEXT\<close> gets a
  string and one declared \<open>INTEGER\<close> an integer, so that the row fits the table of a database exactly when all
  its integers have the width that this database gives to \<open>INTEGER\<close>: 64 bits in sqlite, 32 in DuckDB.\<close>

theorem rows_fit_schema:
  "\<exists>vs. sample_values ts_of s = Inr vs \<and> INSERT_COLUMNS = map fst SCHEMA_COLUMNS \<and>
     length (filter (\<lambda>c. c = CHR ''?'') insert_sql) = length vs \<and>
     list_all2 (fits_column driver) SCHEMA_COLUMNS vs = list_all (fits_width driver) (sample_integers s)"
proof -
  have "length (filter (\<lambda>c. c = CHR ''?'') insert_sql) = 19" by code_simp
  then show ?thesis
    by (simp add: row_values_def SCHEMA_COLUMNS_def INSERT_COLUMNS_def fits_column_def sample_integers_def)
qed

section \<open>The contract of a writer\<close>

text \<open>A session: batches in order, then \<open>flush\<close> and \<open>close\<close>, as the end of a run does.\<close>

fun write_all :: "(udp_sample list \<Rightarrow> ('s, unit) io) \<Rightarrow> udp_sample list list \<Rightarrow> ('s, unit) io" where
  "write_all save [] = io_return ()"
| "write_all save (b # bs) = io_bind (save b) (\<lambda>_. write_all save bs)"

definition writer_session ::
  "(udp_sample list \<Rightarrow> ('s, unit) io) \<Rightarrow> ('s, unit) io \<Rightarrow> ('s, unit) io \<Rightarrow> udp_sample list list \<Rightarrow> ('s, unit) io" where
  "writer_session save flush close bs = io_bind (write_all save bs) (\<lambda>_. io_bind flush (\<lambda>_. close))"

text \<open>
  \<open>taken\<close>: the rows the writer accepted; \<open>stored\<close>: the rows in its store; \<open>rows_of\<close>: what a batch amounts to
  there; \<open>env\<close>: the store behaves as documented.
\<close>

locale sample_writer =
  fixes env :: bool
    and save :: "udp_sample list \<Rightarrow> ('o \<times> 'w, unit) io"
    and flush :: "('o \<times> 'w, unit) io"
    and close :: "('o \<times> 'w, unit) io"
    and taken :: "'o \<times> 'w \<Rightarrow> 'r list"
    and stored :: "'o \<times> 'w \<Rightarrow> 'r list"
    and rows_of :: "udp_sample list \<Rightarrow> 'r list"
  assumes save_takes: "env \<Longrightarrow> save rows s = (Inr (), t) \<Longrightarrow> taken t = taken s @ rows_of rows"
    and flush_stores: "env \<Longrightarrow> flush s = (Inr (), t) \<Longrightarrow> taken t = taken s \<and> stored t = taken s"
    and close_keeps: "env \<Longrightarrow> close s = (Inr (), t) \<Longrightarrow> stored s = taken s \<Longrightarrow> stored t = stored s"
begin

lemma write_all_takes:
  "env \<Longrightarrow> write_all save bs s = (Inr (), t) \<Longrightarrow> taken t = taken s @ concat (map rows_of bs)"
proof (induction bs arbitrary: s)
  case (Cons b bs)
  then obtain u where "save b s = (Inr (), u)" "write_all save bs u = (Inr (), t)"
    by (auto simp: io_bind_Inr_iff)
  with Cons.IH [OF Cons.prems(1)] save_takes [OF Cons.prems(1)] show ?case by simp
qed (simp add: io_return_def)

text \<open>A session that returned lost no row.\<close>

lemma session_stored:
  assumes env and "writer_session save flush close bs s = (Inr (), t)"
  shows "stored t = taken s @ concat (map rows_of bs)"
proof -
  from assms(2) obtain u v where run: "write_all save bs s = (Inr (), u)" "flush u = (Inr (), v)" "close v = (Inr (), t)"
    by (auto simp: writer_session_def io_bind_Inr_iff)
  with flush_stores [OF assms(1) run(2)] close_keeps [OF assms(1) run(3)] write_all_takes [OF assms(1) run(1)]
  show ?thesis by simp
qed

end

text \<open>A null writer takes nothing.\<close>

interpretation null_writer: sample_writer True null_write null_done null_done
    "\<lambda>_. []" "\<lambda>_. []" "\<lambda>_. []"
  by unfold_locales simp_all

section \<open>The databases\<close>

text \<open>
  What sqlite and DuckDB document: a successful insert adds its rows to what the connection sees, a commit
  makes that durable, closing drops nothing durable, a new in-memory database is empty, creating the table
  changes no row, and \<open>COPY TO\<close> replaces the file by the rows of the table.
\<close>

definition db_laws ::
  "'w storage \<Rightarrow> ('w \<Rightarrow> nat \<Rightarrow> json list list) \<Rightarrow> ('w \<Rightarrow> nat \<Rightarrow> json list list) \<Rightarrow> ('w \<Rightarrow> string \<Rightarrow> json list list) \<Rightarrow> bool" where
  "db_laws st committed pending files \<longleftrightarrow>
     (\<forall>h rows w w'. st_executemany st h insert_sql rows w = (True, w') \<longrightarrow>
        committed w' h @ pending w' h = committed w h @ pending w h @ rows) \<and>
     (\<forall>h w w'. st_commit st h w = (True, w') \<longrightarrow>
        committed w' h = committed w h @ pending w h \<and> pending w' h = []) \<and>
     (\<forall>h w b w'. st_close st h w = (b, w') \<longrightarrow> committed w' h = committed w h \<and> files w' = files w) \<and>
     (\<forall>h w w'. st_connect st DuckDriver '':memory:'' w = (Some h, w') \<longrightarrow>
        committed w' h = [] \<and> pending w' h = []) \<and>
     (\<forall>h w w'. st_execute st h create_sql [] w = (True, w') \<longrightarrow>
        committed w' h @ pending w' h = committed w h @ pending w h) \<and>
     (\<forall>h p w w'. st_execute st h copy_sql [JStr p] w = (True, w') \<longrightarrow>
        files w' p = committed w h @ pending w h)"

lemma db_law:
  assumes "db_laws st committed pending files"
  shows db_insert: "st_executemany st h insert_sql rows w = (True, w') \<Longrightarrow>
      committed w' h @ pending w' h = committed w h @ pending w h @ rows"
    and db_commit: "st_commit st h w = (True, w') \<Longrightarrow> committed w' h = committed w h @ pending w h \<and> pending w' h = []"
    and db_close: "st_close st h w = (b, w') \<Longrightarrow> committed w' h = committed w h \<and> files w' = files w"
    and db_memory: "st_connect st DuckDriver '':memory:'' w = (Some h, w') \<Longrightarrow> committed w' h = [] \<and> pending w' h = []"
    and db_create: "st_execute st h create_sql [] w = (True, w') \<Longrightarrow>
      committed w' h @ pending w' h = committed w h @ pending w h"
    and db_copy: "st_execute st h copy_sql [JStr p] w = (True, w') \<Longrightarrow> files w' p = committed w h @ pending w h"
proof -
  note laws = assms [unfolded db_laws_def]
  note insert = laws [THEN conjunct1, rule_format] and rest1 = laws [THEN conjunct2]
  note commit = rest1 [THEN conjunct1, rule_format] and rest2 = rest1 [THEN conjunct2]
  note closing = rest2 [THEN conjunct1, rule_format] and rest3 = rest2 [THEN conjunct2]
  note memory = rest3 [THEN conjunct1, rule_format] and rest4 = rest3 [THEN conjunct2]
  note create = rest4 [THEN conjunct1, rule_format] and copy = rest4 [THEN conjunct2, rule_format]
  show "st_executemany st h insert_sql rows w = (True, w') \<Longrightarrow>
      committed w' h @ pending w' h = committed w h @ pending w h @ rows"
    by (rule insert)
  show "st_commit st h w = (True, w') \<Longrightarrow> committed w' h = committed w h @ pending w h \<and> pending w' h = []"
    by (rule commit)
  show "st_close st h w = (b, w') \<Longrightarrow> committed w' h = committed w h \<and> files w' = files w"
    by (rule closing)
  show "st_connect st DuckDriver '':memory:'' w = (Some h, w') \<Longrightarrow> committed w' h = [] \<and> pending w' h = []"
    by (rule memory)
  show "st_execute st h create_sql [] w = (True, w') \<Longrightarrow>
      committed w' h @ pending w' h = committed w h @ pending w h"
    by (rule create)
  show "st_execute st h copy_sql [JStr p] w = (True, w') \<Longrightarrow> files w' p = committed w h @ pending w h"
    by (rule copy)
qed

lemma db_call_Inr: "db_call f w = (Inr u, w') \<longleftrightarrow> f w = (True, w')"
  by (cases "f w") (auto simp: db_call_def io_defs)

lemma insert_rows_Inr:
  "insert_rows st ts_of h rows w = (Inr u, w') \<longleftrightarrow> st_executemany st h insert_sql (map (row_values ts_of) rows) w = (True, w')"
  by (simp add: insert_rows_def io_bind_def [of "io_res _"] io_res_def db_call_Inr)

definition sql_taken :: "('w \<Rightarrow> nat \<Rightarrow> json list list) \<Rightarrow> ('w \<Rightarrow> nat \<Rightarrow> json list list) \<Rightarrow> sql_writer \<times> 'w \<Rightarrow> json list list" where
  "sql_taken committed pending s = committed (snd s) (sw_conn (fst s)) @ pending (snd s) (sw_conn (fst s))"

definition sql_stored :: "('w \<Rightarrow> nat \<Rightarrow> json list list) \<Rightarrow> sql_writer \<times> 'w \<Rightarrow> json list list" where
  "sql_stored committed s = committed (snd s) (sw_conn (fst s))"

lemma io_world_Inr: "io_world m s = (Inr x, t) \<longleftrightarrow> m (snd s) = (Inr x, snd t) \<and> fst t = fst s"
  by (cases "m (snd s)"; cases t) (auto simp: io_world_def)

lemma sqlite_write_Inr:
  "sqlite_write st ts_of rows s = (Inr (), t) \<longleftrightarrow>
     (if rows = [] then t = s else \<exists>w. insert_rows st ts_of (sw_conn (fst s)) rows (snd s) = (Inr (), w) \<and>
        st_commit st (sw_conn (fst s)) w = (True, snd t) \<and> fst t = fst s)"
  by (auto simp: sqlite_write_def io_bind_Inr_iff io_world_Inr db_call_Inr io_get_def io_return_def)

lemma duckdb_write_Inr:
  "duckdb_write st ts_of rows s = (Inr (), t) \<longleftrightarrow>
     (if rows = [] then t = s else insert_rows st ts_of (sw_conn (fst s)) rows (snd s) = (Inr (), snd t) \<and> fst t = fst s)"
  by (auto simp: duckdb_write_def io_bind_Inr_iff io_world_Inr io_get_def io_return_def)

lemma sql_end_Inr:
  "sql_flush st s = (Inr (), t) \<longleftrightarrow> st_commit st (sw_conn (fst s)) (snd s) = (True, snd t) \<and> fst t = fst s"
  "sql_close st s = (Inr (), t) \<longleftrightarrow> st_close st (sw_conn (fst s)) (snd s) = (True, snd t) \<and> fst t = fst s"
  by (auto simp: sql_flush_def sql_close_def io_bind_Inr_iff io_world_Inr db_call_Inr io_get_def)

interpretation sqlite_writer: sample_writer "db_laws st committed pending files" "sqlite_write st ts_of" "sql_flush st"
    "sql_close st" "sql_taken committed pending" "sql_stored committed" "map (row_values ts_of)"
  for st :: "'w storage" and committed pending files ts_of
proof
  fix rows s t assume laws: "db_laws st committed pending files" and w: "sqlite_write st ts_of rows s = (Inr (), t)"
  show "sql_taken committed pending t = sql_taken committed pending s @ map (row_values ts_of) rows"
  proof (cases "rows = []")
    case False
    with w obtain v where v: "st_executemany st (sw_conn (fst s)) insert_sql (map (row_values ts_of) rows) (snd s) = (True, v)"
        "st_commit st (sw_conn (fst s)) v = (True, snd t)" "fst t = fst s"
      by (auto simp: sqlite_write_Inr insert_rows_Inr)
    from db_insert [OF laws v(1)] db_commit [OF laws v(2)] show ?thesis by (simp add: sql_taken_def v(3))
  qed (use w in \<open>simp add: sqlite_write_Inr\<close>)
next
  fix s t assume laws: "db_laws st committed pending files" and "sql_flush st s = (Inr (), t)"
  then have f: "st_commit st (sw_conn (fst s)) (snd s) = (True, snd t)" "fst t = fst s" by (simp_all add: sql_end_Inr)
  from db_commit [OF laws f(1)]
  show "sql_taken committed pending t = sql_taken committed pending s \<and> sql_stored committed t = sql_taken committed pending s"
    by (simp add: sql_taken_def sql_stored_def f(2))
next
  fix s t assume laws: "db_laws st committed pending files" and "sql_close st s = (Inr (), t)"
  then have c: "st_close st (sw_conn (fst s)) (snd s) = (True, snd t)" "fst t = fst s" by (simp_all add: sql_end_Inr)
  from db_close [OF laws c(1)] show "sql_stored committed t = sql_stored committed s"
    by (simp add: sql_stored_def c(2))
qed

interpretation duckdb_writer: sample_writer "db_laws st committed pending files" "duckdb_write st ts_of" "sql_flush st"
    "sql_close st" "sql_taken committed pending" "sql_stored committed" "map (row_values ts_of)"
  for st :: "'w storage" and committed pending files ts_of
proof
  fix rows s t assume laws: "db_laws st committed pending files" and w: "duckdb_write st ts_of rows s = (Inr (), t)"
  show "sql_taken committed pending t = sql_taken committed pending s @ map (row_values ts_of) rows"
  proof (cases "rows = []")
    case False
    with w have v: "st_executemany st (sw_conn (fst s)) insert_sql (map (row_values ts_of) rows) (snd s) = (True, snd t)"
        "fst t = fst s"
      by (simp_all add: duckdb_write_Inr insert_rows_Inr)
    from db_insert [OF laws v(1)] show ?thesis by (simp add: sql_taken_def v(2))
  qed (use w in \<open>simp add: duckdb_write_Inr\<close>)
qed (use sqlite_writer.flush_stores sqlite_writer.close_keeps in blast)+

section \<open>Parquet and ClickHouse\<close>

definition parquet_taken :: "(int \<Rightarrow> string) \<Rightarrow> parquet_writer \<times> 'w \<Rightarrow> json list list" where
  "parquet_taken ts_of s = map (row_values ts_of) (pw_rows (fst s))"

definition parquet_stored :: "('w \<Rightarrow> string \<Rightarrow> json list list) \<Rightarrow> parquet_writer \<times> 'w \<Rightarrow> json list list" where
  "parquet_stored files s =
     (if pw_rows (fst s) = [] then [] else files (snd s) (path_str (path_of (pw_path (fst s)))))"

lemma parquet_flush_stores:
  assumes laws: "db_laws st committed pending files" and run: "parquet_flush st ts_of s = (Inr (), t)"
  shows "fst t = fst s \<and> parquet_stored files t = parquet_taken ts_of s"
proof (cases "pw_rows (fst s) = []")
  case True
  with run have "t = s" by (simp add: parquet_flush_def io_bind_def io_get_def io_return_def)
  with True show ?thesis by (simp add: parquet_stored_def parquet_taken_def)
next
  case False
  let ?p = "path_str (path_of (pw_path (fst s)))" and ?rows = "pw_rows (fst s)"
  have self: "fst t = fst s"
    and m: "io_bind (db_connect st DuckDriver '':memory:'') (\<lambda>conn.
        io_finally (export_rows st ts_of conn (pw_path (fst s)) ?rows) (db_call (st_close st conn))) (snd s) = (Inr (), snd t)"
    using run False by (auto simp: parquet_flush_def io_bind_def [of "io_get _"] io_get_def io_world_Inr)
  from m obtain h w1 where h: "db_connect st DuckDriver '':memory:'' (snd s) = (Inr h, w1)"
    and fin: "io_finally (export_rows st ts_of h (pw_path (fst s)) ?rows) (db_call (st_close st h)) w1 = (Inr (), snd t)"
    by (auto simp: io_bind_Inr_iff)
  from fin obtain w2 where ex: "export_rows st ts_of h (pw_path (fst s)) ?rows w1 = (Inr (), w2)"
    and cl: "st_close st h w2 = (True, snd t)"
    by (auto simp: io_finally_def db_call_def io_defs split: prod.splits sum.splits if_splits)
  from ex obtain w3 w4 where c: "st_execute st h create_sql [] w1 = (True, w3)"
      "st_executemany st h insert_sql (map (row_values ts_of) ?rows) w3 = (True, w4)"
      "st_execute st h copy_sql [JStr ?p] w4 = (True, w2)"
    by (auto simp: export_rows_def io_bind_Inr_iff db_call_Inr insert_rows_Inr)
  have conn: "st_connect st DuckDriver '':memory:'' (snd s) = (Some h, w1)"
    using h by (auto simp: db_connect_def io_defs split: option.splits prod.splits)
  have "files (snd t) ?p = map (row_values ts_of) ?rows"
    using db_memory [OF laws conn] db_create [OF laws c(1)] db_insert [OF laws c(2)] db_copy [OF laws c(3)]
      db_close [OF laws cl] by simp
  with self False show ?thesis by (simp add: parquet_stored_def parquet_taken_def)
qed

interpretation parquet_writer: sample_writer "db_laws st committed pending files" parquet_write "parquet_flush st ts_of"
    "parquet_flush st ts_of" "parquet_taken ts_of" "parquet_stored files" "map (row_values ts_of)"
  for st :: "'w storage" and committed pending files ts_of
proof
  show "parquet_taken ts_of t = parquet_taken ts_of s @ map (row_values ts_of) rows"
    if "parquet_write rows s = (Inr (), t)" for rows and s t :: "parquet_writer \<times> 'w"
    using that by (auto simp: parquet_write_def io_modify_def parquet_taken_def split: prod.splits)
qed (auto dest!: parquet_flush_stores simp: parquet_taken_def)

text \<open>The request bodies that ClickHouse accepted.\<close>

definition http_laws :: "'w storage \<Rightarrow> ('w \<Rightarrow> string list) \<Rightarrow> bool" where
  "http_laws st posted \<longleftrightarrow>
     (\<forall>u b w code w'. st_post st u b w = (Some code, w') \<longrightarrow> code < 300 \<longrightarrow> posted w' = posted w @ [b])"

interpretation http_writer: sample_writer "http_laws st posted" "http_write st con ts_of" http_done http_done
    "posted \<circ> snd" "posted \<circ> snd" "\<lambda>rows. if rows = [] then [] else [http_body con ts_of rows]"
  for st :: "'w storage" and posted con ts_of
proof
  show "(posted \<circ> snd) t = (posted \<circ> snd) s @ (if rows = [] then [] else [http_body con ts_of rows])"
    if "http_laws st posted" "http_write st con ts_of rows s = (Inr (), t)" for rows and s t :: "http_writer \<times> 'w"
    using that
    by (auto simp: http_write_def http_laws_def io_bind_Inr_iff io_world_Inr io_get_def io_return_def io_raise_def io_op_def
        split: option.splits if_splits prod.splits)
qed (auto simp: http_done_def io_return_def)

section \<open>Sessions\<close>

text \<open>(C11) SQLite rows are durable. After a session that returned, the database holds what it held before and
  then the rows of all batches in order; and each batch is committed by its own write, so that what a
  checkpoint wrote survives a crash before \<open>flush\<close>.\<close>

theorem sqlite_rows_durable:
  assumes laws: "db_laws st committed pending files"
    and run: "writer_session (sqlite_write st ts_of) (sql_flush st) (sql_close st) bs s = (Inr (), t)"
    and one: "sqlite_write st ts_of (r # rows) u = (Inr (), v)"
  shows "sql_stored committed t = sql_taken committed pending s @ concat (map (map (row_values ts_of)) bs) \<and>
    sql_stored committed v = sql_taken committed pending u @ map (row_values ts_of) (r # rows)"
proof
  show "sql_stored committed t = sql_taken committed pending s @ concat (map (map (row_values ts_of)) bs)"
    by (rule sqlite_writer.session_stored [OF laws run])
  from one obtain w where w: "insert_rows st ts_of (sw_conn (fst u)) (r # rows) (snd u) = (Inr (), w)"
      "st_commit st (sw_conn (fst u)) w = (True, snd v)" "fst v = fst u"
    by (auto simp: sqlite_write_Inr)
  from db_commit [OF laws w(2)] db_insert [OF laws w(1) [unfolded insert_rows_Inr]]
  show "sql_stored committed v = sql_taken committed pending u @ map (row_values ts_of) (r # rows)"
    by (simp add: sql_stored_def sql_taken_def w(3))
qed

text \<open>A store with one connection: its committed and its pending rows, and the exported files.\<close>

record sim_db =
  db_committed :: "json list list"
  db_pending :: "json list list"
  db_files :: "string \<Rightarrow> json list list"

definition sim_store :: "sim_db storage" where
  "sim_store =
     \<lparr>st_import_duckdb = (\<lambda>w. (True, w)), st_mkdir = (\<lambda>_ w. (True, w)),
      st_connect = (\<lambda>_ _ w. (Some 0, w\<lparr>db_committed := [], db_pending := []\<rparr>)),
      st_execute = (\<lambda>_ q ps w. (True, if q = copy_sql \<and> ps \<noteq> [] then (case hd ps of
          JStr p \<Rightarrow> w\<lparr>db_files := (db_files w)(p := db_committed w @ db_pending w)\<rparr> | _ \<Rightarrow> w) else w)),
      st_executemany = (\<lambda>_ _ rows w. (True, w\<lparr>db_pending := db_pending w @ rows\<rparr>)),
      st_commit = (\<lambda>_ w. (True, w\<lparr>db_committed := db_committed w @ db_pending w, db_pending := []\<rparr>)),
      st_close = (\<lambda>_ w. (True, w)), st_urlencode = id, st_post = (\<lambda>_ _ w. (Some 200, w))\<rparr>"

lemma sim_store_ops:
  "st_commit sim_store = (\<lambda>_ w. (True, w\<lparr>db_committed := db_committed w @ db_pending w, db_pending := []\<rparr>))"
  "st_close sim_store = (\<lambda>_ w. (True, w))"
  by (simp_all add: sim_store_def)

lemma sim_store_laws: "db_laws sim_store (\<lambda>w _. db_committed w) (\<lambda>w _. db_pending w) db_files"
  by (auto simp: db_laws_def sim_store_def)

definition demo_row :: udp_sample where
  "demo_row = \<lparr>us_bucket_start_ns = 0, us_bucket_ms = 1000, us_src_ip = ''10.0.0.1'', us_dst_ip = ''10.0.0.2'',
     us_src_port = 53, us_dst_port = 5353, us_ifindex = 3, us_ifname = ''eth0'', us_packets = 3, us_bytes = 400,
     us_ip_proto = 17, us_netns_id = 0, us_container_id = [], us_process_name = [], us_host_pid = 0,
     us_container_pid = 0, us_socket_id = 0, us_layer = ''ingress''\<rparr>"

definition empty_db :: sim_db where
  "empty_db = \<lparr>db_committed = [], db_pending = [], db_files = (\<lambda>_. [])\<rparr>"

lemma sim_write:
  "sqlite_write sim_store ts_of (r # rows) (x, w) = (Inr (), (x, w\<lparr>db_committed :=
     db_committed w @ db_pending w @ map (row_values ts_of) (r # rows), db_pending := []\<rparr>))"
  by (simp add: sqlite_write_Inr insert_rows_Inr sim_store_def)

lemma sqlite_rows_durable_witness:
  "\<exists>t. writer_session (sqlite_write sim_store (\<lambda>_. ''t'')) (sql_flush sim_store) (sql_close sim_store) [[demo_row], [demo_row]]
      (\<lparr>sw_path = ''a.db'', sw_conn = 0\<rparr>, empty_db) = (Inr (), t) \<and>
    db_committed (snd t) = [row_values (\<lambda>_. ''t'') demo_row, row_values (\<lambda>_. ''t'') demo_row]"
proof -
  let ?s = "(\<lparr>sw_path = ''a.db'', sw_conn = 0\<rparr>, empty_db)"
  obtain t where run: "writer_session (sqlite_write sim_store (\<lambda>_. ''t'')) (sql_flush sim_store) (sql_close sim_store)
      [[demo_row], [demo_row]] ?s = (Inr (), t)"
    by (simp add: writer_session_def sim_write sql_flush_def sql_close_def db_call_def sim_store_ops io_defs)
  from sqlite_rows_durable [OF sim_store_laws run sim_write [of "\<lambda>_. ''t''" demo_row "[]" "fst ?s" "snd ?s"]] run show ?thesis
    by (simp add: sql_stored_def sql_taken_def empty_db_def)
qed

text \<open>(C36) Parquet files are complete, where the export succeeds (the width of DuckDB's integers below limits
  what it accepts). After a session that returned and wrote some row, the file holds
  exactly the rows of the writer and then of all batches, in order, although it was exported twice, by
  \<open>flush\<close> and by \<open>close\<close>.\<close>

theorem parquet_rows_exported:
  assumes laws: "db_laws st committed pending files"
    and run: "writer_session parquet_write (parquet_flush st ts_of) (parquet_flush st ts_of) bs s = (Inr (), t)"
    and some: "concat bs \<noteq> []"
  shows "files (snd t) (path_str (path_of (pw_path (fst s)))) = map (row_values ts_of) (pw_rows (fst s) @ concat bs)"
proof -
  have stored: "parquet_stored files t = parquet_taken ts_of s @ concat (map (map (row_values ts_of)) bs)"
    by (rule parquet_writer.session_stored [OF laws run])
  have keep: "pw_path (fst t) = pw_path (fst s)"
  proof -
    have w: "write_all parquet_write bs s = (Inr (), u) \<Longrightarrow> pw_path (fst u) = pw_path (fst s)" for u
      by (induction bs arbitrary: s) (auto simp: io_return_def io_bind_Inr_iff parquet_write_def io_modify_def split: prod.splits)
    from run obtain u v where "write_all parquet_write bs s = (Inr (), u)" "parquet_flush st ts_of u = (Inr (), v)"
        "parquet_flush st ts_of v = (Inr (), t)"
      by (auto simp: writer_session_def io_bind_Inr_iff)
    with w parquet_flush_stores [OF laws] show ?thesis by metis
  qed
  have "parquet_stored files t \<noteq> []" using stored some by (auto simp: parquet_taken_def)
  with stored keep show ?thesis by (auto simp: parquet_stored_def parquet_taken_def map_concat split: if_splits)
qed

lemma parquet_rows_exported_witness:
  "\<exists>t. writer_session parquet_write (parquet_flush sim_store (\<lambda>_. ''t'')) (parquet_flush sim_store (\<lambda>_. ''t''))
      [[demo_row], [], [demo_row]] (\<lparr>pw_path = ''out.parquet'', pw_rows = []\<rparr>, empty_db) = (Inr (), t) \<and>
    length (db_files (snd t) (path_str (path_of ''out.parquet''))) = 2"
proof -
  let ?s = "(\<lparr>pw_path = ''out.parquet'', pw_rows = []\<rparr>, empty_db)"
  have flush: "\<exists>w'. parquet_flush sim_store (\<lambda>_. ''t'') (x, w) = (Inr (), (x, w'))" for x w
    by (simp add: parquet_flush_def db_connect_def export_rows_def insert_rows_def io_finally_def db_call_def
        sim_store_def io_defs)
  have "\<exists>t. writer_session parquet_write (parquet_flush sim_store (\<lambda>_. ''t'')) (parquet_flush sim_store (\<lambda>_. ''t''))
      [[demo_row], [], [demo_row]] ?s = (Inr (), t)"
  proof -
    let ?x = "\<lparr>pw_path = ''out.parquet'', pw_rows = [demo_row, demo_row]\<rparr>"
    obtain w1 where 1: "parquet_flush sim_store (\<lambda>_. ''t'') (?x, empty_db) = (Inr (), (?x, w1))" using flush by blast
    obtain w2 where 2: "parquet_flush sim_store (\<lambda>_. ''t'') (?x, w1) = (Inr (), (?x, w2))" using flush by blast
    from 1 2 show ?thesis by (simp add: writer_session_def parquet_write_def io_bind_def io_modify_def io_return_def)
  qed
  then obtain t where run: "writer_session parquet_write (parquet_flush sim_store (\<lambda>_. ''t'')) (parquet_flush sim_store (\<lambda>_. ''t''))
      [[demo_row], [], [demo_row]] ?s = (Inr (), t)" by blast
  from parquet_rows_exported [OF sim_store_laws run] run show ?thesis by auto
qed

section \<open>The width of DuckDB's integers\<close>











end
