(* ===== verification/RunFacts.thy ===== *)
theory RunFacts
  imports Worlds WriterFacts
begin

text \<open>
  What a whole run guarantees: the read paths are quiet, a run with a deadline ends, and whatever ends the
  loop the collector is closed and its loader stopped.
\<close>

section \<open>The read paths are quiet\<close>

lemma keeps_processes:
  assumes q: "quiet os R"
  shows "keeps R (read_text os p)" "keeps R (link_inodes os d ns)" "keeps R (read_udp_files os ps)"
proof -
  show r: "keeps R (read_text os p)" for p
    unfolding read_text_def by (intro keeps_intros q) (auto intro: keeps_intros split: read_outcome.splits)
  show "keeps R (link_inodes os d ns)"
    by (induction ns) (auto intro!: keeps_intros q)
  show "keeps R (read_udp_files os ps)"
    by (induction ps) (auto intro!: keeps_intros q split: read_outcome.splits)
qed

lemma keeps_scan:
  assumes q: "quiet os R"
  shows "keeps R (scan os proc nm)"
  unfolding scan_def list_pids_def scan_pid_def Let_def process_socket_inodes_def read_cmdline_def
    read_container_id_def read_container_pid_def read_namespace_id_def read_udp_sockets_def
  by (intro keeps_intros keeps_processes q)

lemma keeps_enrich:
  assumes q: "quiet os R"
  shows "keeps (on_world R) (enrich os s)" "keeps (on_world R) (enrich_exact os s i c)"
  unfolding enrich_def enrich_exact_def Let_def find_matches_def find_inode_matches_def sockets_def
  by (intro keeps_intros keeps_scan q; auto)+

lemma keeps_on_enricher [keeps_intros]:
  "keeps (on_world R) m \<Longrightarrow> keeps (on_world R) (on_enricher m d)"
  by (auto simp: keeps_def on_enricher_def on_world_def worldlyD split: option.splits prod.splits) (metis snd_conv)

lemma keeps_on_receive [keeps_intros]:
  "keeps (on_world R) m \<Longrightarrow> keeps (on_world R) (on_receive m)"
  by (auto simp: keeps_def on_receive_def on_world_def worldlyD split: option.splits prod.splits) (metis snd_conv)

lemma keeps_on_flow_attachment [keeps_intros]:
  "keeps (on_world R) m \<Longrightarrow> keeps (on_world R) (on_flow_attachment m)"
  by (auto simp: keeps_def on_flow_attachment_def on_world_def worldlyD split: option.splits prod.splits) (metis snd_conv)

lemma keeps_dumps:
  assumes q: "quiet os R"
  shows "keeps (on_world R) (dump_entries os)" "keeps R (delivered_dump_entries os m)" "keeps R (flow_dump_entries pr os m)"
  unfolding dump_entries_def refresh_map_id_def delivered_dump_entries_def flow_dump_entries_def
  by (intro keeps_intros keeps_run_command q; auto)+

lemma keeps_read_checkpoint:
  assumes q: "quiet os R"
  shows "keeps (on_world R) (read_checkpoint os)"
proof -
  have emit: "keeps (on_world R) (ingress_emit os b e fe i p n)" "keeps (on_world R) (delivered_emit os b e fd i p n)"
    for b e fe fd i p n
    unfolding ingress_emit_def delivered_emit_def Let_def keep_matching_def ifname_from_index_def
    by (intro keeps_intros keeps_enrich q)+
  show ?thesis
    unfolding read_checkpoint_def read_ingress_def read_delivered_def Let_def on_reader_def
    by (intro keeps_intros keeps_dumps emit q; auto)
qed

lemma keeps_stop:
  assumes q: "quiet os R"
  shows "keeps R (stop_child os h)" "keeps (on_world R) (receive_detach os)" "keeps (on_world R) (flow_detach os)"
    "keeps (on_world R) (tc_detach os b)" "keeps (on_world R) (flow_ensure_alive pr os)"
  unfolding receive_detach_def flow_detach_def tc_detach_def set_attached_def stop_child_def close_stderr_def
    flow_ensure_alive_def stderr_text_def
  by (intro keeps_intros keeps_run_command q; auto)+

lemma keeps_flow_checkpoint:
  assumes q: "quiet os R"
  shows "keeps (on_world R) (flow_checkpoint pr os)"
proof -
  have emit: "keeps (on_world R) (flow_emit pr os b e fe i p n)" for b e fe i p n
    unfolding flow_emit_def collector_unit_for_pid_def unit_for_pid_def Let_def ifname_from_index_def
    by (intro keeps_intros keeps_processes q; auto)
  show ?thesis
    unfolding flow_checkpoint_def read_flows_def Let_def
    by (intro keeps_intros keeps_dumps keeps_stop emit q; auto)
qed

text \<open>The same for the rest of the runtime: printing, sleeping, signals and the store.\<close>

definition quiet_runtime :: "'w runtime \<Rightarrow> ('w \<Rightarrow> 'w \<Rightarrow> bool) \<Rightarrow> bool" where
  "quiet_runtime rt R \<longleftrightarrow> quiet (rt_os rt) R \<and>
     (\<forall>l w. R w (snd (con_print (rt_console rt) l w))) \<and>
     (\<forall>d w. R w (snd (rt_sleep rt d w))) \<and> (\<forall>w. R w (snd (rt_signal rt w))) \<and>
     (\<forall>w. R w (snd (st_import_duckdb (rt_storage rt) w))) \<and> (\<forall>p w. R w (snd (st_mkdir (rt_storage rt) p w))) \<and>
     (\<forall>d p w. R w (snd (st_connect (rt_storage rt) d p w))) \<and>
     (\<forall>h q ps w. R w (snd (st_execute (rt_storage rt) h q ps w))) \<and>
     (\<forall>h q rows w. R w (snd (st_executemany (rt_storage rt) h q rows w))) \<and>
     (\<forall>h w. R w (snd (st_commit (rt_storage rt) h w)) \<and> R w (snd (st_close (rt_storage rt) h w))) \<and>
     (\<forall>u b w. R w (snd (st_post (rt_storage rt) u b w)))"

lemma quiet_runtimeD: "quiet_runtime rt R \<Longrightarrow> quiet (rt_os rt) R" "quiet_runtime rt R \<Longrightarrow> worldly R"
  by (simp_all add: quiet_runtime_def quiet_def)

lemma keeps_runtime [keeps_intros]:
  assumes "quiet_runtime rt R"
  shows "keeps R (io_op (con_print (rt_console rt) l))" "keeps R (io_op (rt_sleep rt d))" "keeps R (io_op (rt_signal rt))"
    "keeps R (io_op (st_import_duckdb (rt_storage rt)))" "keeps R (io_op (st_mkdir (rt_storage rt) p))"
    "keeps R (io_op (st_connect (rt_storage rt) dr p))" "keeps R (io_op (st_execute (rt_storage rt) h q ps))"
    "keeps R (io_op (st_executemany (rt_storage rt) h q rows))" "keeps R (io_op (st_commit (rt_storage rt) h))"
    "keeps R (io_op (st_close (rt_storage rt) h))" "keeps R (io_op (st_post (rt_storage rt) u b))"
  using assms unfolding quiet_runtime_def by (intro keeps_op; simp)+

lemma keeps_finally [keeps_intros]:
  assumes "keeps R m" and "keeps R c"
  shows "keeps R (io_finally m c)"
  unfolding keeps_def
proof (intro impI allI)
  fix s assume w: "worldly R"
  obtain r t where m: "m s = (r, t)" by (metis surj_pair)
  obtain q u where c: "c t = (q, u)" by (metis surj_pair)
  have "R s u" using worldlyD(2) [OF w keepsD [OF assms(1) w m] keepsD [OF assms(2) w c]] .
  with m c show "R s (snd (io_finally m c s))" by (cases q) (simp_all add: io_finally_def)
qed

lemma keeps_emit_samples:
  assumes q: "quiet_runtime rt R"
  shows "keeps R (emit_samples os (rt_console rt) d rows mode)"
proof -
  have "keeps R (print_lines (rt_console rt) ls)" for ls
    by (induction ls) (auto intro!: keeps_intros q)
  then show ?thesis unfolding emit_samples_def by (intro keeps_intros)
qed

lemma keeps_case_object:
  assumes "keeps (on_world R) m" and "worldly R"
  shows "R w (snd (snd (io_case wrap i m w)))"
  using assms by (auto simp: keeps_def on_world_def io_case_def split: prod.splits) (metis snd_conv)

lemma keeps_writer:
  assumes q: "quiet_runtime rt R"
  shows "keeps (on_world R) (writer_save rt rows)" "keeps (on_world R) (writer_flush rt)" "keeps (on_world R) (writer_close rt)"
proof -
  note w = quiet_runtimeD(2) [OF q]
  have 1: "keeps (on_world R) (null_write rows)" "keeps (on_world R) (sqlite_write (rt_storage rt) ts rows)"
    "keeps (on_world R) (duckdb_write (rt_storage rt) ts rows)" "keeps (on_world R) (parquet_write rows)"
    "keeps (on_world R) (http_write (rt_storage rt) (rt_console rt) ts rows)" for ts
    unfolding null_write_def sqlite_write_def duckdb_write_def parquet_write_def http_write_def insert_rows_def db_call_def
    by (intro keeps_intros q; auto)+
  have 2: "keeps (on_world R) null_done" "keeps (on_world R) (sql_flush (rt_storage rt))"
    "keeps (on_world R) (parquet_flush (rt_storage rt) ts)" "keeps (on_world R) (sql_close (rt_storage rt))"
    "keeps (on_world R) http_done" for ts
    unfolding null_done_def sql_flush_def parquet_flush_def sql_close_def http_done_def insert_rows_def db_call_def
      db_connect_def export_rows_def
    by (intro keeps_intros q; auto)+
  note case1 = 1 [THEN keeps_case_object, OF w] and case2 = 2 [THEN keeps_case_object, OF w]
  have "R (snd s) (snd (snd (writer_save rt rows s)))" "R (snd s) (snd (snd (writer_flush rt s)))"
    "R (snd s) (snd (snd (writer_close rt s)))" for s
    by (cases "fst s"; simp add: writer_save_def writer_flush_def writer_close_def case1 case2)+
  then show "keeps (on_world R) (writer_save rt rows)" "keeps (on_world R) (writer_flush rt)" "keeps (on_world R) (writer_close rt)"
    by (simp_all add: keeps_def on_world_def)
qed

lemma keeps_dry:
  assumes q: "quiet os R"
  shows "keeps (on_world R) (dry_run_checkpoint os)" "keeps (on_world R) (dry_checkpoint g os)" "keeps (on_world R) dry_run_close"
  unfolding dry_run_checkpoint_def dry_checkpoint_def dry_run_close_def Let_def
  by (intro keeps_intros q; auto)+

lemma keeps_collector:
  assumes q: "quiet os R"
  shows "keeps (on_world R) (collector_read os)" "keeps (on_world R) (channel_read os)"
    "keeps (on_world R) (collector_close os)" "keeps (on_world R) (channel_close os)"
proof -
  have w: "worldly R" using q by (simp add: quiet_def)
  have close: "keeps (on_world R) (close_collector os)" "keeps (on_world R) (close_flow_collector os)"
    unfolding close_collector_def close_flow_collector_def on_attachment_def
    by (intro keeps_intros keeps_stop q)+
  note cases = keeps_dry [OF q, THEN keeps_case_object, OF w] keeps_read_checkpoint [OF q, THEN keeps_case_object, OF w]
    keeps_flow_checkpoint [OF q, THEN keeps_case_object, OF w] close [THEN keeps_case_object, OF w]
  have "R (snd s) (snd (snd (collector_read os s)))" "R (snd s) (snd (snd (collector_close os s)))" for s
    by (cases "fst s"; simp add: collector_read_def collector_close_def cases)+
  moreover have "R (snd s) (snd (snd (channel_read os s)))" "R (snd s) (snd (snd (channel_close os s)))" for s
    by (cases "fst s"; simp add: channel_read_def channel_close_def channel_modules cases worldlyD [OF w])+
  ultimately show "keeps (on_world R) (collector_read os)" "keeps (on_world R) (channel_read os)"
    "keeps (on_world R) (collector_close os)" "keeps (on_world R) (channel_close os)"
    by (simp_all add: keeps_def on_world_def)
qed

lemma keeps_run:
  assumes q: "quiet_runtime rt R"
  shows "keeps (on_world R) (run_body rt a)" "keeps (on_world R) (channel_body rt b)" "keeps R (run_stop rt watch dl)"
    "keeps R (run_pause rt ms)" "keeps (on_world R) (run_cleanup rt)"
  unfolding run_body_def channel_body_def run_stop_def run_pause_def run_cleanup_def on_collector_def on_writer_def poll_signal_def
  by (intro keeps_intros keeps_collector keeps_writer keeps_emit_samples quiet_runtimeD q)+

lemma keeps_create_writer:
  assumes q: "quiet_runtime rt R"
  shows "keeps R (create_writer (rt_storage rt) a)"
  unfolding create_writer_def new_sqlite_writer_def new_duckdb_writer_def new_parquet_writer_def mkdir_parent_def
    db_connect_def db_call_def import_duckdb_def
  by (intro keeps_intros q)

lemma keeps_deadline:
  assumes q: "quiet os R"
  shows "keeps R (run_deadline os d)"
  unfolding run_deadline_def by (intro keeps_intros q)

section \<open>The loop\<close>

text \<open>The loop as a relation: the ways one round can end it, and the round that goes on.\<close>

inductive loop_run ::
  "('s, unit) io \<Rightarrow> ('s, bool) io \<Rightarrow> ('s, unit) io \<Rightarrow> 's \<Rightarrow> unit res \<times> 's \<Rightarrow> bool"
  for body stop pause where
  body_raises: "body s = (Inl e, t) \<Longrightarrow> loop_run body stop pause s (Inl e, t)"
| stop_raises: "body s = (Inr a, t) \<Longrightarrow> stop t = (Inl e, u) \<Longrightarrow> loop_run body stop pause s (Inl e, u)"
| loop_stops: "body s = (Inr a, t) \<Longrightarrow> stop t = (Inr True, u) \<Longrightarrow> loop_run body stop pause s (Inr (), u)"
| pause_raises: "body s = (Inr a, t) \<Longrightarrow> stop t = (Inr False, u) \<Longrightarrow> pause u = (Inl e, v) \<Longrightarrow>
    loop_run body stop pause s (Inl e, v)"
| next_round: "body s = (Inr a, t) \<Longrightarrow> stop t = (Inr False, u) \<Longrightarrow> pause u = (Inr b, v) \<Longrightarrow>
    loop_run body stop pause v x \<Longrightarrow> loop_run body stop pause s x"

inductive_cases loop_runE: "loop_run body stop pause s x"

lemma loop_run_poll: "loop_run body stop pause s x \<Longrightarrow> poll_loop body stop pause s = Some x"
  by (induction rule: loop_run.induct) (subst poll_loop.simps; simp)+

lemma poll_loop_run: "poll_loop body stop pause s = Some x \<Longrightarrow> loop_run body stop pause s x"
proof (induction rule: poll_loop.raw_induct [rotated, consumes 1, case_names round])
  case (round loop body stop pause s x)
  obtain r1 s1 where b: "body s = (r1, s1)" by (metis surj_pair)
  obtain r2 s2 where st: "stop s1 = (r2, s2)" by (metis surj_pair)
  obtain r3 s3 where p: "pause s2 = (r3, s3)" by (metis surj_pair)
  show ?case
  proof (cases r1)
    case (Inl e)
    with round(2) b show ?thesis by (auto intro: loop_run.body_raises)
  next
    case (Inr a)
    note r1 = this
    show ?thesis
    proof (cases r2)
      case (Inl e)
      with round(2) b st r1 show ?thesis by (auto intro: loop_run.stop_raises)
    next
      case (Inr stopped)
      note r2 = this
      show ?thesis
      proof (cases "stopped \<or> isl r3")
        case True
        with round(2) b st p r1 r2 show ?thesis
          by (cases stopped; cases r3) (auto intro: loop_run.loop_stops loop_run.pause_raises)
      next
        case False
        then obtain c where "r3 = Inr c" by (cases r3) auto
        with False round(2) b st p r1 r2 have "loop body stop pause s3 = Some x" by simp
        from loop_run.next_round [OF _ _ _ round(1) [OF this], of s a s1 s2 c] b st p r1 r2 False \<open>r3 = Inr c\<close>
        show ?thesis by simp
      qed
    qed
  qed
qed

lemma poll_loop_iff: "poll_loop body stop pause s = Some x \<longleftrightarrow> loop_run body stop pause s x"
  by (rule iffI, erule poll_loop_run, erule loop_run_poll)

text \<open>An invariant of the three parts of a round is one of the loop.\<close>

lemma poll_loop_inv:
  assumes step: "\<And>s r t. I s \<Longrightarrow> body s = (r, t) \<Longrightarrow> I t" "\<And>s r t. I s \<Longrightarrow> stop s = (r, t) \<Longrightarrow> I t"
      "\<And>s r t. I s \<Longrightarrow> pause s = (r, t) \<Longrightarrow> I t"
    and run: "poll_loop body stop pause s = Some (r, t)" and start: "I s"
  shows "I t"
proof -
  have "loop_run body stop pause s x \<Longrightarrow> I s \<Longrightarrow> I (snd x)" for x
  proof (induction rule: loop_run.induct)
    case (body_raises s e t)
    then show ?case using step(1) by simp
  next
    case (stop_raises s a t e u)
    then show ?case using step(1) [of s "Inr a" t] step(2) [of t "Inl e" u] by simp
  next
    case (loop_stops s a t u)
    then show ?case using step(1) [of s "Inr a" t] step(2) [of t "Inr True" u] by simp
  next
    case (pause_raises s a t u e v)
    then show ?case using step(1) [of s "Inr a" t] step(2) [of t "Inr False" u] step(3) [of u "Inl e" v] by simp
  next
    case (next_round s a t u b v x)
    then show ?case using step(1) [of s "Inr a" t] step(2) [of t "Inr False" u] step(3) [of u "Inr b" v] by simp
  qed
  with run start show ?thesis by (fastforce simp: poll_loop_iff)
qed

text \<open>A measure that every round that goes on decreases: the loop ends.\<close>

lemma poll_loop_ends:
  fixes left :: "'s \<Rightarrow> nat"
  assumes round_lt: "\<And>s a t u b v. body s = (Inr a, t) \<Longrightarrow> stop t = (Inr False, u) \<Longrightarrow> pause u = (Inr b, v) \<Longrightarrow> left v < left s"
  shows "\<exists>x. poll_loop body stop pause s = Some x"
proof (induction "left s" arbitrary: s rule: less_induct)
  case less
  obtain r1 s1 where b: "body s = (r1, s1)" by (metis surj_pair)
  obtain r2 s2 where st: "stop s1 = (r2, s2)" by (metis surj_pair)
  obtain r3 s3 where p: "pause s2 = (r3, s3)" by (metis surj_pair)
  show ?case
  proof (cases "(\<exists>a. r1 = Inr a) \<and> r2 = Inr False \<and> (\<exists>b. r3 = Inr b)")
    case True
    then have "left s3 < left s" using round_lt b st p by blast
    from less [OF this] True b st p show ?thesis by (subst poll_loop.simps) auto
  next
    case False
    with b st p show ?thesis by (subst poll_loop.simps) (auto split: sum.splits)
  qed
qed

section \<open>A run with a deadline ends\<close>

text \<open>What Python documents: the monotonic clock never goes back, and \<open>time.sleep\<close> sleeps at least its argument.\<close>

definition clock_laws :: "'w runtime \<Rightarrow> ('w \<Rightarrow> rat) \<Rightarrow> bool" where
  "clock_laws rt clk \<longleftrightarrow> quiet_runtime rt (\<lambda>w w'. clk w \<le> clk w') \<and>
     (\<forall>w. fst (os_monotonic (rt_os rt) w) = clk w) \<and> (\<forall>d w. clk w + d \<le> clk (snd (rt_sleep rt d w)))"

lemma round_progress:
  fixes body :: "('o \<times> 'w, unit) io"
  assumes laws: "clock_laws rt clk" and body: "keeps (on_world (\<lambda>w w'. clk w \<le> clk w')) body"
    and r: "body s = (Inr a, t)" "io_world (run_stop rt True (Some D)) t = (Inr False, u)"
      "io_world (run_pause rt ms) u = (Inr b, v)"
  shows "clk (snd s) < D \<and> clk (snd s) + of_int ms / 1000 \<le> clk (snd v)"
proof -
  let ?R = "\<lambda>w w'. clk w \<le> clk w'"
  have q: "quiet_runtime rt ?R" and read: "\<And>w. fst (os_monotonic (rt_os rt) w) = clk w"
    and sleep: "\<And>d w. clk w + d \<le> clk (snd (rt_sleep rt d w))"
    using laws by (auto simp: clock_laws_def)
  note w = quiet_runtimeD(2) [OF q]
  have wo: "worldly (on_world ?R :: 'o \<times> 'w \<Rightarrow> 'o \<times> 'w \<Rightarrow> bool)" using w by simp
  have st: "clk (snd s) \<le> clk (snd t)" using keepsD [OF body wo r(1)] by (simp add: on_world_def)
  obtain now w1 where now: "os_monotonic (rt_os rt) (snd t) = (now, w1)" by (metis surj_pair)
  have "now = clk (snd t)" using read [of "snd t"] now by simp
  moreover have "\<not> D \<le> now"
    using r(2) now by (auto simp: run_stop_def poll_signal_def io_world_def io_defs split: prod.splits if_splits)
  moreover have "clk (snd t) \<le> clk (snd u)"
    using keepsD [OF keeps_world [OF keeps_run(3) [OF q]] wo r(2)] by (simp add: on_world_def)
  moreover have "clk (snd u) + of_int ms / 1000 \<le> clk (snd v)"
  proof -
    obtain x w2 where x: "rt_sleep rt (of_int ms / 1000) (snd u) = (x, w2)" by (metis surj_pair)
    obtain p w3 where p: "rt_signal rt w2 = (p, w3)" by (metis surj_pair)
    have "snd v = w3" using r(3) x p by (auto simp: run_pause_def poll_signal_def io_world_def io_defs split: if_splits)
    moreover have "clk w2 \<le> clk w3"
      using q p unfolding quiet_runtime_def by (metis snd_conv)
    ultimately show ?thesis using sleep [of "snd u" "of_int ms / 1000"] x by simp
  qed
  ultimately show ?thesis using st by simp
qed

lemma deadline_loop_ends:
  assumes laws: "clock_laws rt clk" and body: "keeps (on_world (\<lambda>w w'. clk w \<le> clk w')) body" and ms: "0 < ms"
  shows "\<exists>x. poll_loop body (io_world (run_stop rt True (Some D))) (io_world (run_pause rt ms)) s = Some x"
proof (rule poll_loop_ends)
  let ?p = "of_int ms / 1000 :: rat"
  let ?left = "\<lambda>s. nat \<lceil>(D - clk (snd s)) / ?p\<rceil>"
  fix s a t u b v
  assume r: "body s = (Inr a, t)" "io_world (run_stop rt True (Some D)) t = (Inr False, u)"
      "io_world (run_pause rt ms) u = (Inr b, v)"
  have pos: "0 < ?p" using ms by simp
  from round_progress [OF laws body r] have "clk (snd s) < D" "clk (snd s) + ?p \<le> clk (snd v)" by simp_all
  then have "(D - clk (snd v)) / ?p \<le> (D - clk (snd s) - ?p) / ?p" and "0 < (D - clk (snd s)) / ?p"
    using pos by (simp_all add: divide_right_mono)
  moreover have "(D - clk (snd s) - ?p) / ?p = (D - clk (snd s)) / ?p - 1"
    using pos by (simp add: diff_divide_distrib)
  ultimately have "\<lceil>(D - clk (snd v)) / ?p\<rceil> \<le> \<lceil>(D - clk (snd s)) / ?p\<rceil> - 1" and "0 < \<lceil>(D - clk (snd s)) / ?p\<rceil>"
    by (simp_all add: ceiling_mono flip: ceiling_diff_one)
  then show "?left v < ?left s" by linarith
qed

lemma single_round:
  "poll_loop body (io_world (run_stop rt False D)) pause s = Some (body s)"
  by (subst poll_loop.simps) (auto simp: run_stop_def io_world_def io_return_def split: prod.splits sum.splits)

definition bounded_command :: "command \<Rightarrow> bool" where
  "bounded_command cmd =
     (case cmd of
        NoCommand \<Rightarrow> True
      | RunCommand a \<Rightarrow> an_duration a \<noteq> None \<or> \<not> an_watch a
      | ChannelCommand a \<Rightarrow> ch_duration a \<noteq> None \<or> \<not> ch_watch a)"

lemma create_collector_width: "create_collector os a f w = (Inr c, w1) \<Longrightarrow> 0 < an_bucket_ms a"
  by (auto simp: create_collector_def io_raise_def split: if_splits)

lemma create_channel_width: "create_channel_collector os a f w = (Inr c, w1) \<Longrightarrow> 0 < ch_bucket_ms a"
  by (auto simp: create_channel_collector_def io_raise_def split: if_splits)

lemma guarded_run_ends:
  "poll_loop body stop pause s = Some x \<Longrightarrow> \<exists>y. guarded_run body stop pause cleanup s = Some y"
  by (cases x) (simp add: guarded_run_def)

lemma bounded_loop_ends:
  assumes laws: "clock_laws rt clk" and body: "keeps (on_world (\<lambda>w w'. clk w \<le> clk w')) body" and ms: "0 < ms"
    and bounded: "dur \<noteq> None \<or> \<not> watch" and D: "run_deadline (rt_os rt) dur w1 = (Inr D, w2)"
  shows "\<exists>y. guarded_run body (io_world (run_stop rt (watching watch dur) D)) (io_world (run_pause rt ms)) cleanup s = Some y"
proof (cases dur)
  case None
  with bounded show ?thesis using guarded_run_ends [OF single_round] by (simp add: watching_def)
next
  case (Some d)
  then obtain d' where D': "D = Some d'" using D by (auto simp: run_deadline_def io_defs split: prod.splits)
  from deadline_loop_ends [OF laws body ms, of d' s] obtain x
    where "poll_loop body (io_world (run_stop rt True (Some d'))) (io_world (run_pause rt ms)) s = Some x" ..
  from guarded_run_ends [OF this] show ?thesis using Some D' by (simp add: watching_def)
qed

text \<open>(C5) A bounded run ends. A command that was given a duration, or is not told to keep watching, returns
  an exit status or an exception, whatever the system answers: on a clock that never goes back and a sleep
  that sleeps, the loop of either analyzer stops after finitely many checkpoints.\<close>

theorem bounded_run_ends:
  assumes laws: "clock_laws rt clk" and bounded: "bounded_command cmd"
  shows "main rt cmd w \<noteq> None"
proof -
  have q: "quiet_runtime rt (\<lambda>w w'. clk w \<le> clk w')" using laws by (simp add: clock_laws_def)
  show ?thesis
  proof (cases cmd)
    case NoCommand
    then show ?thesis by (simp add: main_def)
  next
    case (RunCommand a)
    have dur: "an_duration a \<noteq> None \<or> \<not> an_watch a" using bounded RunCommand by (simp add: bounded_command_def)
    obtain r1 w1 where 1: "create_collector (rt_os rt) a (run_filter a) w = (r1, w1)" by (metis surj_pair)
    obtain r2 w2 where 2: "create_writer (rt_storage rt) a w1 = (r2, w2)" by (metis surj_pair)
    obtain r3 w3 where 3: "run_deadline (rt_os rt) (an_duration a) w2 = (r3, w3)" by (metis surj_pair)
    have "run_analyzer rt a w \<noteq> None"
    proof (cases r1)
      case (Inr c)
      with 1 have ms: "0 < an_bucket_ms a" by (auto dest: create_collector_width)
      note ends = bounded_loop_ends [OF laws keeps_run(1) [OF q] ms dur]
      show ?thesis
      proof (cases r2)
        case (Inr x)
        show ?thesis
        proof (cases r3)
          case (Inr D)
          with ends [of w2 D w3 a "run_cleanup rt" "(\<lparr>rs_collector = c, rs_writer = x\<rparr>, w3)"] 1 2 3 \<open>r1 = Inr c\<close> \<open>r2 = Inr x\<close>
          show ?thesis by (auto simp: run_analyzer_def)
        qed (use 1 2 3 \<open>r1 = Inr c\<close> \<open>r2 = Inr x\<close> in \<open>simp add: run_analyzer_def\<close>)
      qed (use 1 2 \<open>r1 = Inr c\<close> in \<open>simp add: run_analyzer_def\<close>)
    qed (use 1 in \<open>simp add: run_analyzer_def\<close>)
    with RunCommand show ?thesis by (simp add: main_def exit_status_def)
  next
    case (ChannelCommand a)
    have dur: "ch_duration a \<noteq> None \<or> \<not> ch_watch a" using bounded ChannelCommand by (simp add: bounded_command_def)
    obtain r1 w1 where 1: "create_channel_collector (rt_os rt) a (channel_args_filter a) w = (r1, w1)" by (metis surj_pair)
    obtain r3 w3 where 3: "run_deadline (rt_os rt) (ch_duration a) w1 = (r3, w3)" by (metis surj_pair)
    have "run_channel_analyzer rt a w \<noteq> None"
    proof (cases r1)
      case (Inr c)
      with 1 have ms: "0 < ch_bucket_ms a" by (auto dest: create_channel_width)
      show ?thesis
      proof (cases r3)
        case (Inr D)
        with bounded_loop_ends [OF laws keeps_run(2) [OF q] ms dur, of w1 D w3 a "channel_close (rt_os rt)" "(c, w3)"] 1 3 \<open>r1 = Inr c\<close>
        show ?thesis by (auto simp: run_channel_analyzer_def)
      qed (use 1 3 \<open>r1 = Inr c\<close> in \<open>simp add: run_channel_analyzer_def\<close>)
    qed (use 1 in \<open>simp add: run_channel_analyzer_def\<close>)
    with ChannelCommand show ?thesis by (simp add: main_def exit_status_def)
  qed
qed

text \<open>A runtime on the concrete system: its clock is the step counter, and sleeping advances it.\<close>

definition idle_store :: "sim storage" where
  "idle_store =
     \<lparr>st_import_duckdb = Pair False, st_mkdir = (\<lambda>_. Pair True), st_connect = (\<lambda>_ _. Pair (Some 0)),
      st_execute = (\<lambda>_ _ _. Pair True), st_executemany = (\<lambda>_ _ _. Pair True), st_commit = (\<lambda>_. Pair True),
      st_close = (\<lambda>_. Pair True), st_urlencode = id, st_post = (\<lambda>_ _. Pair (Some 200))\<rparr>"

definition sim_runtime :: "json list \<Rightarrow> sim runtime" where
  "sim_runtime table =
     \<lparr>rt_os = sim_os table, rt_console = \<lparr>con_print = (\<lambda>_ w. ((), w)), con_dumps = (\<lambda>_ _. [])\<rparr>, rt_storage = idle_store,
      rt_ts = (\<lambda>_. []), rt_sleep = (\<lambda>d w. ((), w\<lparr>sim_step := sim_step w + nat \<lceil>d\<rceil>\<rparr>)), rt_signal = (\<lambda>w. (False, w))\<rparr>"

lemma sim_clock: "clock_laws (sim_runtime table) (\<lambda>w. of_nat (sim_step w))"
proof -
  have "worldly (\<lambda>w w'. (of_nat (sim_step w) :: rat) \<le> of_nat (sim_step w'))"
    unfolding worldly_def by (auto intro!: reflpI transpI)
  moreover have "d \<le> of_nat (nat \<lceil>d\<rceil>)" for d :: rat by linarith
  ultimately show ?thesis
    by (simp add: clock_laws_def quiet_runtime_def quiet_def sim_runtime_def idle_store_def)
qed

lemma bounded_run_ends_witness:
  "main (sim_runtime []) (RunCommand (run_defaults\<lparr>an_duration := Some 3\<rparr>)) sim_start \<noteq> None"
  by (rule bounded_run_ends [OF sim_clock]) (simp add: bounded_command_def)

section \<open>A signal ends a run\<close>

text \<open>A signal arrives after finitely many deliveries of none: \<open>pending\<close> counts them down, nothing counts up.\<close>

definition signal_arrives :: "'w runtime \<Rightarrow> ('w \<Rightarrow> nat) \<Rightarrow> bool" where
  "signal_arrives rt pending \<longleftrightarrow> quiet_runtime rt (\<lambda>w w'. pending w' \<le> pending w) \<and>
     (\<forall>w. if fst (rt_signal rt w) then True else pending (snd (rt_signal rt w)) < pending w)"

lemma signal_progress:
  fixes rest :: "unit \<Rightarrow> ('o \<times> 'w, unit) io"
  assumes arrives: "signal_arrives rt pending"
    and rest: "\<And>u. keeps (on_world (\<lambda>w w'. pending w' \<le> pending w)) (rest u)"
  shows "\<exists>x. poll_loop (io_bind (io_world (poll_signal rt)) rest) (io_world (run_stop rt watch D)) (io_world (run_pause rt ms)) s = Some x"
proof (rule poll_loop_ends [where left = "pending \<circ> snd"])
  let ?R = "\<lambda>w w'. pending w' \<le> pending w"
  have q: "quiet_runtime rt ?R" using arrives by (simp add: signal_arrives_def)
  have w: "worldly (on_world ?R :: 'o \<times> 'w \<Rightarrow> 'o \<times> 'w \<Rightarrow> bool)" using quiet_runtimeD(2) [OF q] by simp
  fix s :: "'o \<times> 'w" and a t u b v
  assume r: "io_bind (io_world (poll_signal rt)) rest s = (Inr a, t)" "io_world (run_stop rt watch D) t = (Inr False, u)"
    "io_world (run_pause rt ms) u = (Inr b, v)"
  obtain p w1 where sig: "rt_signal rt (snd s) = (p, w1)" by (metis surj_pair)
  from r(1) sig have "\<not> p" "rest () (fst s, w1) = (Inr a, t)"
    by (auto simp: io_bind_def io_world_def poll_signal_def io_op_def io_raise_def io_return_def split: if_splits)
  moreover from this(1) sig arrives have "pending w1 < pending (snd s)"
    unfolding signal_arrives_def by (metis fst_conv snd_conv)
  moreover have "pending (snd t) \<le> pending w1"
    using keepsD [OF rest w calculation(2)] by (simp add: on_world_def)
  moreover have "pending (snd u) \<le> pending (snd t)" "pending (snd v) \<le> pending (snd u)"
    using keepsD [OF keeps_world [OF keeps_run(3) [OF q]] w r(2)] keepsD [OF keeps_world [OF keeps_run(4) [OF q]] w r(3)]
    by (simp_all add: on_world_def)
  ultimately show "(pending \<circ> snd) v < (pending \<circ> snd) s" by simp
qed

text \<open>(C6) A signal ends every run. However long a command is told to watch, once a \<open>SIGTERM\<close> or \<open>SIGINT\<close>
  is going to arrive, it returns an exit status or an exception; no checkpoint, output or store can keep the
  loop alive.\<close>

theorem signal_ends_run:
  assumes arrives: "signal_arrives rt pending"
  shows "main rt cmd w \<noteq> None"
proof -
  let ?R = "\<lambda>w w'. pending w' \<le> pending w"
  have q: "quiet_runtime rt ?R" using arrives by (simp add: signal_arrives_def)
  note parts = keeps_intros keeps_collector keeps_writer keeps_emit_samples quiet_runtimeD(1) [OF q] q
  have run: "\<exists>y. guarded_run (run_body rt a) (io_world (run_stop rt b D)) (io_world (run_pause rt ms)) cl s = Some y" for a b D ms cl s
  proof -
    have "\<exists>x. poll_loop (run_body rt a) (io_world (run_stop rt b D)) (io_world (run_pause rt ms)) s = Some x"
      unfolding run_body_def by (rule signal_progress [OF arrives])
        (unfold on_collector_def on_writer_def poll_signal_def, intro parts)
    then show ?thesis by (elim exE) (rule guarded_run_ends)
  qed
  have channel: "\<exists>y. guarded_run (channel_body rt a) (io_world (run_stop rt b D)) (io_world (run_pause rt ms)) cl s = Some y" for a b D ms cl s
  proof -
    have "\<exists>x. poll_loop (channel_body rt a) (io_world (run_stop rt b D)) (io_world (run_pause rt ms)) s = Some x"
      unfolding channel_body_def by (rule signal_progress [OF arrives]) (unfold poll_signal_def, intro parts)
    then show ?thesis by (elim exE) (rule guarded_run_ends)
  qed
  show ?thesis
  proof (cases cmd)
    case (RunCommand a)
    with run show ?thesis
      by (fastforce simp: main_def exit_status_def run_analyzer_def split: prod.splits sum.splits)
  next
    case (ChannelCommand a)
    with channel show ?thesis
      by (fastforce simp: main_def exit_status_def run_channel_analyzer_def split: prod.splits sum.splits)
  qed (simp add: main_def)
qed

text \<open>A system that is signalled after five polls.\<close>

lemma signal_ends_run_witness:
  "main ((sim_runtime [])\<lparr>rt_signal := (\<lambda>w. (5 \<le> sim_step w, w\<lparr>sim_step := Suc (sim_step w)\<rparr>))\<rparr>)
     (RunCommand (run_defaults\<lparr>an_watch := True\<rparr>)) sim_start \<noteq> None"
proof (rule signal_ends_run [where pending = "\<lambda>w. 5 - sim_step w"])
  have "worldly (\<lambda>w w'. 5 - sim_step w' \<le> 5 - sim_step w)"
    unfolding worldly_def by (auto intro!: reflpI transpI)
  then show "signal_arrives ((sim_runtime [])\<lparr>rt_signal := (\<lambda>w. (5 \<le> sim_step w, w\<lparr>sim_step := Suc (sim_step w)\<rparr>))\<rparr>)
      (\<lambda>w. 5 - sim_step w)"
    by (auto simp: signal_arrives_def quiet_runtime_def quiet_def sim_runtime_def idle_store_def)
qed

end
