(* ===== verification/RunOwners.thy ===== *)
theory RunOwners
  imports RunFacts
begin

text \<open>
  Process ownership over a whole run. A collector owns the loader it started; \<open>orphans\<close> are the running
  children that it does not own. Reading never makes an orphan, and closing leaves only orphans: so a run
  ends with the processes it began with, whatever ends its loop.
\<close>

section \<open>Orphans\<close>

definition orphans :: "('w \<Rightarrow> nat set) \<Rightarrow> ('o \<Rightarrow> nat set) \<Rightarrow> 'o \<times> 'w \<Rightarrow> nat set" where
  "orphans alive owned s = alive (snd s) - owned (fst s)"

definition no_new_orphans :: "('w \<Rightarrow> nat set) \<Rightarrow> ('o \<Rightarrow> nat set) \<Rightarrow> 'o \<times> 'w \<Rightarrow> 'o \<times> 'w \<Rightarrow> bool" where
  "no_new_orphans alive owned s t \<longleftrightarrow> orphans alive owned t \<subseteq> orphans alive owned s"

abbreviation fewer :: "('w \<Rightarrow> nat set) \<Rightarrow> 'w \<Rightarrow> 'w \<Rightarrow> bool" where
  "fewer alive \<equiv> \<lambda>w w'. alive w' \<subseteq> alive w"

lemma worldly_orphans [simp]: "worldly (no_new_orphans alive owned)"
  unfolding worldly_def no_new_orphans_def by (auto intro!: reflpI transpI)

lemma worldly_fewer [simp]: "worldly (fewer alive)"
  unfolding worldly_def by (auto intro!: reflpI transpI)

lemma keeps_orphans:
  assumes "keeps (on_world (fewer alive)) m" and "frames (owned \<circ> fst) m"
  shows "keeps (no_new_orphans alive owned) m"
  using assms by (fastforce simp: keeps_def frames_def no_new_orphans_def orphans_def on_world_def)

lemma keeps_orphans_world [keeps_intros]:
  "keeps (fewer alive) m \<Longrightarrow> keeps (no_new_orphans alive owned) (io_world m)"
  by (rule keeps_orphans) (auto intro: keeps_intros frame_intros)

lemma keeps_orphans_modify [keeps_intros]:
  "(\<And>s. snd (g s) = snd s) \<Longrightarrow> (\<And>s. owned (fst (g s)) = owned (fst s)) \<Longrightarrow>
    keeps (no_new_orphans alive owned) (io_modify g)"
  by (simp add: keeps_def io_modify_def no_new_orphans_def orphans_def)

lemma keeps_orphans_self:
  assumes m: "keeps (no_new_orphans alive owned) m" and put: "\<And>i ob. owned (get (put i ob)) = owned i"
    and get: "\<And>ob. owned' ob = owned (get ob)"
  shows "keeps (no_new_orphans alive owned') (io_self get put m)"
  unfolding keeps_def
proof (intro impI allI)
  fix s
  obtain r i w where e: "m (get (fst s), snd s) = (r, (i, w))" by (metis surj_pair)
  from keepsD [OF m worldly_orphans e] have "alive w - owned i \<subseteq> alive (snd s) - owned (get (fst s))"
    by (simp add: no_new_orphans_def orphans_def)
  with e show "no_new_orphans alive owned' s (snd (io_self get put m s))"
    by (simp add: io_self_def no_new_orphans_def orphans_def put get)
qed

lemma keeps_orphans_case:
  assumes m: "keeps (no_new_orphans alive owned) m" and wrap: "\<And>i. owned' (wrap i) = owned i"
  shows "orphans alive owned' (snd (io_case wrap i m w)) \<subseteq> alive w - owned i"
proof -
  obtain r j v where e: "m (i, w) = (r, (j, v))" by (metis surj_pair)
  from keepsD [OF m worldly_orphans e] show ?thesis
    by (simp add: e io_case_def no_new_orphans_def orphans_def wrap)
qed

section \<open>What the collectors own\<close>

definition flow_children :: "flow_collector \<Rightarrow> nat set" where
  "flow_children c = (case fl_attachment c of None \<Rightarrow> {} | Some a \<Rightarrow> set_option (fa_process a))"

definition collector_children :: "any_collector \<Rightarrow> nat set" where
  "collector_children c = (case c of DryRun _ \<Rightarrow> {} | Kernel k \<Rightarrow> owned_children k)"

definition channel_children :: "channel_collector \<Rightarrow> nat set" where
  "channel_children c =
     (case c of TcpKernel k \<Rightarrow> flow_children k | UdpKernel k \<Rightarrow> flow_children k | _ \<Rightarrow> {})"

lemma frames_read_owner: "frames ((\<lambda>c. (ic_receive_attachment c, ic_detach_on_close c)) \<circ> fst) (read_checkpoint os)"
  unfolding read_checkpoint_def read_ingress_def read_delivered_def Let_def on_reader_def
  by (intro frame_intros frames_ingress_emit frames_delivered_emit; auto simp: put_previous_def put_delivered_def)

lemma orphans_read_checkpoint:
  assumes q: "quiet os (fewer alive)"
  shows "keeps (no_new_orphans alive owned_children) (read_checkpoint os)"
proof (rule keeps_orphans [OF keeps_read_checkpoint [OF q]])
  show "frames (owned_children \<circ> fst) (read_checkpoint os)"
    using frames_read_owner [of os] unfolding frames_def owned_children_def by simp
qed

text \<open>A dead loader is forgotten only after the system said that it is dead.\<close>

lemma orphans_ensure_alive:
  assumes laws: "child_laws os alive"
  shows "keeps (no_new_orphans alive flow_children) (on_flow_attachment (flow_ensure_alive pr os))"
  unfolding keeps_def
proof (intro impI allI)
  fix s :: "flow_collector \<times> 'a"
  obtain c w where s: "s = (c, w)" by (cases s)
  show "no_new_orphans alive flow_children s (snd (on_flow_attachment (flow_ensure_alive pr os) s))"
  proof (cases "fl_attachment c")
    case None
    then show ?thesis by (simp add: s on_flow_attachment_def no_new_orphans_def)
  next
    case (Some a)
    obtain r a' w' where e: "flow_ensure_alive pr os (a, w) = (r, (a', w'))" by (metis surj_pair)
    have "alive w' - set_option (fa_process a') \<subseteq> alive w - set_option (fa_process a)"
    proof (cases "fa_process a")
      case None
      with e show ?thesis by (simp add: flow_ensure_alive_def io_defs)
    next
      case (Some h)
      obtain rc w1 where p: "os_poll os h w = (rc, w1)" by (cases "os_poll os h w")
      obtain x a2 w2 where st: "stderr_text os h (a, w1) = (x, (a2, w2))" by (metis surj_pair)
      have same: "alive w2 = alive w1" "\<exists>t. x = Inr t" "a2 = a"
        using framesD [OF frames_stderr_text [OF laws] st] st
        by (auto simp: stderr_text_def io_defs split: prod.splits if_splits)
      with e Some p st child_poll [OF laws p] show ?thesis
        by (cases rc) (auto simp: flow_ensure_alive_def close_stderr_def io_defs)
    qed
    with e Some show ?thesis
      by (simp add: s on_flow_attachment_def no_new_orphans_def orphans_def flow_children_def)
  qed
qed

lemma orphans_flow_checkpoint:
  assumes q: "quiet os (fewer alive)" and laws: "child_laws os alive"
  shows "keeps (no_new_orphans alive flow_children) (flow_checkpoint pr os)"
proof -
  have fr: "frames (flow_children \<circ> fst) (read_flows pr os b e)" for b e
    unfolding read_flows_def Let_def
    by (intro frame_intros frames_flow_emit; auto simp: put_flows_def flow_children_def)
  have "keeps (on_world (fewer alive)) (flow_emit pr os b e fe i p n)" for b e fe i p n
    unfolding flow_emit_def collector_unit_for_pid_def unit_for_pid_def Let_def ifname_from_index_def
    by (intro keeps_intros keeps_processes q; auto)
  then have "keeps (on_world (fewer alive)) (read_flows pr os b e)" for b e
    unfolding read_flows_def Let_def by (intro keeps_intros keeps_dumps q; auto)
  from keeps_orphans [OF this fr] show ?thesis
    unfolding flow_checkpoint_def Let_def
    by (intro keeps_intros orphans_ensure_alive laws q; auto simp: flow_children_def)
qed

section \<open>Reading and writing\<close>

lemma orphans_dry:
  assumes q: "quiet os (fewer alive)"
  shows "keeps (no_new_orphans alive (\<lambda>_. {})) (dry_run_checkpoint os)"
    "keeps (no_new_orphans alive (\<lambda>_. {})) (dry_checkpoint g os)"
  by (rule keeps_orphans; simp add: keeps_dry [OF q] frames_def)+

lemma orphans_read:
  assumes q: "quiet os (fewer alive)"
  shows "keeps (no_new_orphans alive collector_children) (collector_read os)"
proof -
  have "no_new_orphans alive collector_children s (snd (collector_read os s))" for s
  proof (cases "fst s")
    case (DryRun c)
    have "orphans alive collector_children (snd (io_case DryRun c (dry_run_checkpoint os) (snd s))) \<subseteq> alive (snd s) - {}"
      by (rule keeps_orphans_case [OF orphans_dry(1) [OF q]]) (simp add: collector_children_def)
    with DryRun show ?thesis
      by (simp add: no_new_orphans_def collector_read_def) (simp add: orphans_def collector_children_def)
  next
    case (Kernel c)
    have "orphans alive collector_children (snd (io_case Kernel c (read_checkpoint os) (snd s))) \<subseteq> alive (snd s) - owned_children c"
      by (rule keeps_orphans_case [OF orphans_read_checkpoint [OF q]]) (simp add: collector_children_def)
    with Kernel show ?thesis
      by (simp add: no_new_orphans_def collector_read_def) (simp add: orphans_def collector_children_def)
  qed
  then show ?thesis by (simp add: keeps_def)
qed

lemma orphans_channel_read:
  assumes q: "quiet os (fewer alive)" and laws: "child_laws os alive"
  shows "keeps (no_new_orphans alive channel_children) (channel_read os)"
proof -
  note dry = keeps_orphans_case [OF orphans_dry(2) [OF q], of channel_children]
    and kernel = keeps_orphans_case [OF orphans_flow_checkpoint [OF q laws], of channel_children]
  have wrap: "channel_children (TcpDry c) = {}" "channel_children (UdpDry c) = {}"
      "channel_children (TcpKernel k) = flow_children k" "channel_children (UdpKernel k) = flow_children k" for c k
    by (simp_all add: channel_children_def)
  have "orphans alive channel_children (snd (channel_read os s)) \<subseteq> alive (snd s) - channel_children (fst s)" for s
    by (cases "fst s"; simp only: channel_read_def channel_collector.case channel_modules wrap; rule dry kernel; simp only: wrap)
  then have "no_new_orphans alive channel_children s (snd (channel_read os s))" for s
    unfolding no_new_orphans_def orphans_def [of _ _ s] .
  then show ?thesis by (simp add: keeps_def)
qed

definition run_children :: "run_state \<Rightarrow> nat set" where
  "run_children s = collector_children (rs_collector s)"

lemma orphans_run_body:
  assumes q: "quiet_runtime rt (fewer alive)"
  shows "keeps (no_new_orphans alive run_children) (run_body rt a)"
proof -
  have read: "keeps (no_new_orphans alive run_children) (on_collector (collector_read (rt_os rt)))"
    unfolding on_collector_def
    by (rule keeps_orphans_self [OF orphans_read [OF quiet_runtimeD(1) [OF q]]]) (simp_all add: run_children_def)
  have save: "keeps (no_new_orphans alive run_children) (on_writer (writer_save rt rows))" for rows
    unfolding on_writer_def
    by (rule keeps_orphans) (auto intro!: keeps_intros frame_intros keeps_writer q simp: run_children_def)
  have signal: "keeps (fewer alive) (poll_signal rt)"
    unfolding poll_signal_def by (intro keeps_intros q)
  show ?thesis
    unfolding run_body_def by (intro keeps_intros read save signal keeps_emit_samples q)
qed

lemma orphans_channel_body:
  assumes q: "quiet_runtime rt (fewer alive)" and laws: "child_laws (rt_os rt) alive"
  shows "keeps (no_new_orphans alive channel_children) (channel_body rt a)"
proof -
  have signal: "keeps (fewer alive) (poll_signal rt)"
    unfolding poll_signal_def by (intro keeps_intros q)
  show ?thesis
    unfolding channel_body_def
    by (intro keeps_intros orphans_channel_read laws signal keeps_emit_samples quiet_runtimeD q)
qed

text \<open>The loop of a guarded run makes no orphan, so the clean-up starts without a new one.\<close>

lemma guarded_run_orphans:
  assumes q: "quiet_runtime rt (fewer alive)" and body: "keeps (no_new_orphans alive owned) body"
    and mode: "frames (mode \<circ> fst) body"
    and run: "guarded_run body (io_world (run_stop rt watch D)) (io_world (run_pause rt ms)) cleanup s = Some (r, u)"
  shows "\<exists>t. orphans alive owned t \<subseteq> orphans alive owned s \<and> mode (fst t) = mode (fst s) \<and> u = snd (cleanup t)"
proof -
  obtain x t where loop: "poll_loop body (io_world (run_stop rt watch D)) (io_world (run_pause rt ms)) s = Some (x, t)"
    using run by (auto simp: guarded_run_def split: option.splits)
  let ?I = "\<lambda>t. no_new_orphans alive owned s t \<and> mode (fst t) = mode (fst s)"
  have "?I t"
  proof (rule poll_loop_inv [where I = ?I, OF _ _ _ loop])
    show "?I v" if "?I u" "body u = (y, v)" for u y v
      using keepsD [OF body worldly_orphans that(2)] framesD [OF mode that(2)] that(1)
      by (auto simp: no_new_orphans_def)
    show "?I v" if "?I u" "io_world (run_stop rt watch D) u = (y, v)" for u y v
      using keepsD [OF keeps_orphans_world [OF keeps_run(3) [OF q]] worldly_orphans that(2)]
        framesD [OF frames_world that(2), of mode] that(1)
      by (auto simp: no_new_orphans_def)
    show "?I v" if "?I u" "io_world (run_pause rt ms) u = (y, v)" for u y v
      using keepsD [OF keeps_orphans_world [OF keeps_run(4) [OF q]] worldly_orphans that(2)]
        framesD [OF frames_world that(2), of mode] that(1)
      by (auto simp: no_new_orphans_def)
  qed (simp add: no_new_orphans_def)
  moreover have "u = snd (cleanup t)"
    using run loop by (auto simp: guarded_run_def io_finally_def split: prod.splits sum.splits)
  ultimately show ?thesis unfolding no_new_orphans_def by blast
qed

section \<open>Starting and closing\<close>

lemma frames_setup_detach: "frames (ic_detach_on_close \<circ> fst) (collector_setup os args)"
  unfolding collector_setup_def on_attachment_def on_reader_def
  by (intro frame_intros frames_configure_delivery; simp)

lemma new_ingress_children:
  assumes laws: "child_laws os alive" and run: "new_ingress_collector os args w = (Inr c, w')"
  shows "alive w' \<subseteq> alive w \<union> owned_children c \<and> ic_detach_on_close c = ia_detach_on_close args"
proof -
  obtain ifname w1 where nm: "collector_ifname os args w = (Inr ifname, w1)"
    using run by (auto simp: new_ingress_collector_def split: if_splits prod.splits sum.splits)
  let ?c0 = "initial_collector args ifname (effective_attribution args)"
  have raises: "\<exists>x. fst (collector_cleanup os args e s) = Inl x" for e s
    by (auto simp: collector_cleanup_def io_bind_def io_raise_def split: prod.splits sum.splits)
  obtain u where built: "collector_setup os args (?c0, w1) = (Inr u, (c, w'))"
  proof -
    obtain q d v where s: "collector_setup os args (?c0, w1) = (q, (d, v))" by (metis surj_pair)
    show ?thesis
    proof (cases q)
      case (Inl e)
      with run nm s raises [of e "(d, v)"] show ?thesis
        by (auto simp: new_ingress_collector_def io_catch_def split: if_splits prod.splits)
    next
      case (Inr u)
      with run nm s that show ?thesis
        by (auto simp: new_ingress_collector_def io_catch_def split: if_splits)
    qed
  qed
  have "alive w' \<subseteq> alive w1 \<union> owned_children c"
    by (rule collector_setup_children [OF laws built]) (simp_all add: initial_collector_def)
  moreover have "alive w1 = alive w" using framesD [OF frames_collector_ifname [OF laws] nm] .
  ultimately show ?thesis using framesD [OF frames_setup_detach built] by (simp add: initial_collector_def)
qed

lemma keeps_catalog:
  assumes q: "quiet os R"
  shows "keeps R (load_channel_catalog os a)"
proof -
  have env: "keeps R (urls_from_env_file os p)" for p
    unfolding urls_from_env_file_def
    by (intro keeps_intros q) (auto intro: keeps_intros split: read_outcome.splits)
  have target: "keeps R (target_of_urls os m subj unit urls)" for m subj unit urls
    unfolding target_of_urls_def by (cases urls; cases "tl urls") (auto intro!: keeps_intros q)
  have inst: "keeps R (instance_target os pre h t p)" for pre h t p
    unfolding instance_target_def Let_def by (intro keeps_intros env target)
  have tmpl: "keeps R (template_instance_targets os p u)" for p u
    unfolding template_instance_targets_def template_line_targets_def pattern_targets_def Let_def
    by (intro keeps_intros inst q)
  have unit: "keeps R (unit_targets os p u)" for p u
    unfolding unit_targets_def Let_def by (intro keeps_intros env target tmpl)
  have path: "keeps R (targets_of_path os p)" for p
    unfolding targets_of_path_def Let_def
    by (intro keeps_intros q) (auto intro!: keeps_intros tmpl unit split: read_outcome.splits)
  have resolve: "keeps R (resolve_target os t)" for t
    unfolding resolve_target_def by (intro keeps_intros q) (auto intro!: keeps_intros split: resolver_outcome.splits)
  show ?thesis
    unfolding load_channel_catalog_def catalog_paths_def units_in_dir_def default_user_unit_paths_def
      load_channel_targets_def catalog_resolve_def
    by (intro keeps_intros path resolve q)
qed

lemma io_case_world: "snd (snd (io_case wrap i m w)) = snd (snd (m (i, w)))"
    and io_case_object: "fst (snd (io_case wrap i m w)) = wrap (fst (snd (m (i, w))))"
  by (simp_all add: io_case_def split: prod.splits)

definition collector_detaches :: "any_collector \<Rightarrow> bool" where
  "collector_detaches c = (case c of DryRun _ \<Rightarrow> True | Kernel k \<Rightarrow> ic_detach_on_close k)"

definition detaches :: "run_state \<Rightarrow> bool" where
  "detaches s = collector_detaches (rs_collector s)"

lemma frames_part:
  assumes m: "frames (f \<circ> fst) m" and f: "\<And>i ob. f (get (put i ob)) = f i" "\<And>ob. g ob = f (get ob)"
  shows "frames (g \<circ> fst) (io_self get put m)"
  unfolding frames_def
proof
  fix s
  obtain r i w where e: "m (get (fst s), snd s) = (r, (i, w))" by (metis surj_pair)
  from framesD [OF m e] show "(g \<circ> fst) (snd (io_self get put m s)) = (g \<circ> fst) s"
    by (simp add: e io_self_def f)
qed

lemma frames_run_detach: "frames (detaches \<circ> fst) (run_body rt a)"
proof -
  have kernel: "ic_detach_on_close (fst (snd (read_checkpoint os (c, w)))) = ic_detach_on_close c" for os c w
    using frames_read_owner [of os] by (simp add: frames_def)
  have same: "collector_detaches (fst (snd (collector_read os s))) = collector_detaches (fst s)" for os s
    by (cases "fst s") (simp_all add: collector_read_def io_case_object collector_detaches_def kernel)
  have "frames (collector_detaches \<circ> fst) (collector_read os)" for os
    by (simp add: frames_def same)
  then have "frames (detaches \<circ> fst) (on_collector (collector_read os))" for os
    unfolding on_collector_def by (rule frames_part) (simp_all add: detaches_def)
  then show ?thesis
    unfolding run_body_def by (intro frame_intros; auto simp: on_writer_def detaches_def intro!: frame_intros)
qed

lemma run_deadline_returns: "\<exists>D v. run_deadline os d w = (Inr D, v)"
  by (cases d) (auto simp: run_deadline_def io_defs split: prod.splits)

lemma close_collector_children:
  assumes laws: "child_laws os alive" and detach: "ic_detach_on_close c"
  shows "alive (snd (snd (close_collector os (c, w)))) \<subseteq> alive w - owned_children c"
proof -
  obtain q1 c1 w1 where 1: "on_receive (receive_detach os) (c, w) = (q1, (c1, w1))" by (metis surj_pair)
  obtain u where u: "q1 = Inr u" using on_receive_detach_returns [of os "(c, w)"] 1 by auto
  obtain q2 c2 w2 where 2: "on_attachment (tc_detach os True) (c1, w1) = (q2, (c2, w2))" by (metis surj_pair)
  have "snd (snd (close_collector os (c, w))) = w2"
    using detach 1 2 u by (simp add: close_collector_def io_bind_def io_get_def)
  with on_receive_detach_dead [OF laws 1] on_part_children(2) [OF laws 2] show ?thesis by simp
qed

lemma run_cleanup_children:
  assumes laws: "child_laws (rt_os rt) alive" and q: "quiet_runtime rt (fewer alive)" and detach: "detaches (fst s)"
  shows "alive (snd (snd (run_cleanup rt s))) \<subseteq> orphans alive run_children s"
proof -
  obtain st w where s: "s = (st, w)" by (cases s)
  obtain r t where c: "on_collector (collector_close (rt_os rt)) s = (r, t)" by (metis surj_pair)
  have "alive (snd t) \<subseteq> orphans alive run_children s"
  proof (cases "rs_collector st")
    case (DryRun d)
    with c s have "snd t = w"
      by (auto simp: on_collector_def io_self_def collector_close_def io_case_def dry_run_close_def io_return_def)
    with s DryRun show ?thesis by (simp add: orphans_def run_children_def collector_children_def)
  next
    case (Kernel k)
    with c s have "snd t = snd (snd (close_collector (rt_os rt) (k, w)))"
      by (auto simp: on_collector_def io_self_def collector_close_def io_case_def split: prod.splits)
    with close_collector_children [OF laws, of k w] detach s Kernel show ?thesis
      by (simp add: orphans_def run_children_def collector_children_def detaches_def collector_detaches_def)
  qed
  moreover have "keeps (on_world (fewer alive)) (io_bind (on_writer (writer_flush rt)) (\<lambda>_. on_writer (writer_close rt)))"
    unfolding on_writer_def by (intro keeps_intros keeps_writer q)
  then have "on_world (fewer alive) t (snd (io_bind (on_writer (writer_flush rt)) (\<lambda>_. on_writer (writer_close rt)) t))"
    by (simp add: keeps_def del: split_paired_All)
  then have "alive (snd (snd (io_bind (on_writer (writer_flush rt)) (\<lambda>_. on_writer (writer_close rt)) t))) \<subseteq> alive (snd t)"
    by (simp add: on_world_def)
  ultimately show ?thesis using c by (cases r) (auto simp: run_cleanup_def io_bind_def [of "on_collector _"])
qed

lemma channel_close_children:
  assumes laws: "child_laws os alive"
  shows "alive (snd (snd (channel_close os s))) \<subseteq> orphans alive channel_children s"
proof -
  have flow: "alive (snd (snd (close_flow_collector os (k, w)))) \<subseteq> alive w - flow_children k" for k w
  proof (cases "fl_attachment k")
    case None
    then show ?thesis by (simp add: close_flow_collector_def on_flow_attachment_def flow_children_def)
  next
    case (Some a)
    obtain r a' w' where d: "flow_detach os (a, w) = (r, (a', w'))" by (metis surj_pair)
    with Some flow_detach_dead [OF laws d] show ?thesis
      by (simp add: close_flow_collector_def on_flow_attachment_def flow_children_def)
  qed
  show ?thesis
    by (cases "fst s"; simp add: channel_close_def channel_modules orphans_def channel_children_def io_case_world flow)
qed

section \<open>The whole run\<close>

text \<open>The command got as far as its loop: its collector, and its writer, could be made, and it does not ask to
  leave the filter and the loader attached.\<close>

definition started :: "'w runtime \<Rightarrow> command \<Rightarrow> 'w \<Rightarrow> bool" where
  "started rt cmd w =
     (case cmd of
        NoCommand \<Rightarrow> True
      | RunCommand a \<Rightarrow> \<not> an_keep_attached a \<and>
          (case create_collector (rt_os rt) a (run_filter a) w of
             (Inr c, w1) \<Rightarrow> (case create_writer (rt_storage rt) a w1 of (Inr x, w2) \<Rightarrow> True | _ \<Rightarrow> False)
           | _ \<Rightarrow> False)
      | ChannelCommand a \<Rightarrow>
          (case create_channel_collector (rt_os rt) a (channel_args_filter a) w of (Inr c, w1) \<Rightarrow> True | _ \<Rightarrow> False))"

lemma create_collector_children:
  assumes laws: "child_laws os alive" and run: "create_collector os a f w = (Inr c, w')"
  shows "alive w' \<subseteq> alive w \<union> collector_children c \<and>
    (case c of DryRun _ \<Rightarrow> True | Kernel k \<Rightarrow> ic_detach_on_close k = (\<not> an_keep_attached a))"
proof (cases c)
  case (DryRun d)
  with run show ?thesis
    by (auto simp: create_collector_def io_bind_Inr_iff io_return_def io_raise_def split: if_splits)
next
  case (Kernel k)
  with run have "new_ingress_collector os (kernel_args a f) w = (Inr k, w')"
    by (auto simp: create_collector_def new_ebpf_collector_def io_bind_Inr_iff io_return_def io_raise_def split: if_splits)
  from new_ingress_children [OF laws this] Kernel show ?thesis
    by (simp add: collector_children_def kernel_args_def)
qed

lemma create_channel_children:
  assumes laws: "child_laws os alive" and q: "quiet os (fewer alive)"
    and run: "create_channel_collector os a f w = (Inr c, w')"
  shows "alive w' \<subseteq> alive w \<union> channel_children c"
proof -
  obtain cat w1 where cat: "load_channel_catalog os a w = (Inr cat, w1)"
    using run by (auto simp: create_channel_collector_def io_bind_Inr_iff io_raise_def split: if_splits)
  have "alive w1 \<subseteq> alive w" using keepsD [OF keeps_catalog [OF q] worldly_fewer cat] .
  moreover have "alive w' \<subseteq> alive w1 \<union> channel_children c"
  proof (cases c)
    case (TcpKernel k)
    with run cat obtain g where "new_flow_collector tcp_flows os g w1 = (Inr k, w')"
      by (auto simp: create_channel_collector_def io_bind_Inr_iff io_raise_def io_return_def channel_modules split: if_splits)
    from new_flow_collector_child [OF laws this] TcpKernel show ?thesis
      by (simp add: channel_children_def flow_children_def)
  next
    case (UdpKernel k)
    with run cat obtain g where "new_flow_collector udp_flows os g w1 = (Inr k, w')"
      by (auto simp: create_channel_collector_def io_bind_Inr_iff io_raise_def io_return_def channel_modules split: if_splits)
    from new_flow_collector_child [OF laws this] UdpKernel show ?thesis
      by (simp add: channel_children_def flow_children_def)
  qed (use run cat in \<open>auto simp: create_channel_collector_def io_bind_Inr_iff io_raise_def io_return_def split: if_splits\<close>)
  ultimately show ?thesis by blast
qed

text \<open>(C4) A run leaves no process behind. Once the collector and the writer of a command exist, and unless it
  was asked to stay attached, every way the command can end (the deadline, a signal, an error of a
  checkpoint, of the output, of the store, or of the clean-up itself) leaves no process running that did not
  run before: the loaders of the UDP and of both channel collectors are always stopped.\<close>

theorem run_leaves_no_process:
  assumes laws: "child_laws (rt_os rt) alive" and quiet: "quiet_runtime rt (\<lambda>w w'. alive w' \<subseteq> alive w)"
    and started: "started rt cmd w" and ends: "main rt cmd w = Some (r, w')"
  shows "alive w' \<subseteq> alive w"
proof (cases cmd)
  case NoCommand
  with ends show ?thesis by (simp add: main_def)
next
  case (RunCommand a)
  obtain c w1 x w2 where 1: "create_collector (rt_os rt) a (run_filter a) w = (Inr c, w1)"
    and 2: "create_writer (rt_storage rt) a w1 = (Inr x, w2)" and detach: "\<not> an_keep_attached a"
    using started RunCommand by (auto simp: started_def split: prod.splits sum.splits)
  obtain D w3 where 3: "run_deadline (rt_os rt) (an_duration a) w2 = (Inr D, w3)" using run_deadline_returns by metis
  let ?s = "(\<lparr>rs_collector = c, rs_writer = x\<rparr>, w3)"
  have "alive w3 \<subseteq> alive w1"
    using keepsD [OF keeps_create_writer [OF quiet] worldly_fewer 2]
      keepsD [OF keeps_deadline [OF quiet_runtimeD(1) [OF quiet]] worldly_fewer 3] by blast
  with create_collector_children [OF laws 1] have start: "orphans alive run_children ?s \<subseteq> alive w" "detaches (fst ?s)"
    using detach by (auto simp: orphans_def run_children_def detaches_def collector_detaches_def split: any_collector.splits)
  from ends RunCommand 1 2 3 obtain p u where
    run: "guarded_run (run_body rt a) (io_world (run_stop rt (watching (an_watch a) (an_duration a)) D))
      (io_world (run_pause rt (an_bucket_ms a))) (run_cleanup rt) ?s = Some (p, u)" and w': "w' = snd u"
    by (auto simp: main_def exit_status_def run_analyzer_def)
  from guarded_run_orphans [OF quiet orphans_run_body [OF quiet] frames_run_detach run] start(2)
  obtain t where "orphans alive run_children t \<subseteq> orphans alive run_children ?s" "detaches (fst t)" "u = snd (run_cleanup rt t)"
    by auto
  with run_cleanup_children [OF laws quiet] start(1) w' show ?thesis by blast
next
  case (ChannelCommand a)
  obtain c w1 where 1: "create_channel_collector (rt_os rt) a (channel_args_filter a) w = (Inr c, w1)"
    using started ChannelCommand by (auto simp: started_def split: prod.splits sum.splits)
  obtain D w2 where 2: "run_deadline (rt_os rt) (ch_duration a) w1 = (Inr D, w2)" using run_deadline_returns by metis
  have "alive w2 \<subseteq> alive w1"
    using keepsD [OF keeps_deadline [OF quiet_runtimeD(1) [OF quiet]] worldly_fewer 2] .
  with create_channel_children [OF laws quiet_runtimeD(1) [OF quiet] 1]
  have start: "orphans alive channel_children (c, w2) \<subseteq> alive w" by (auto simp: orphans_def)
  from ends ChannelCommand 1 2 obtain p u where
    run: "guarded_run (channel_body rt a) (io_world (run_stop rt (watching (ch_watch a) (ch_duration a)) D))
      (io_world (run_pause rt (ch_bucket_ms a))) (channel_close (rt_os rt)) (c, w2) = Some (p, u)" and w': "w' = snd u"
    by (auto simp: main_def exit_status_def run_channel_analyzer_def)
  have "frames ((\<lambda>_. ()) \<circ> fst) (channel_body rt a)" by (simp add: frames_def)
  from guarded_run_orphans [OF quiet orphans_channel_body [OF quiet laws] this run]
  obtain t where "orphans alive channel_children t \<subseteq> orphans alive channel_children (c, w2)" "u = snd (channel_close (rt_os rt) t)"
    by auto
  with channel_close_children [OF laws] start w' show ?thesis by blast
qed

definition demo_channel_args :: channel_args where
  "demo_channel_args = channel_defaults\<lparr>ch_collector := ''ebpf'', ch_no_default_unit_dirs := True,
     ch_no_resolve_dns := True, ch_tcp_bpf_object := ''o'', ch_tcp_loader := ''l''\<rparr>"

lemma demo_path: "path_str (path_of ''o'') = ''o''" "path_str (path_of ''l'') = ''l''"
  by code_simp+

lemma run_leaves_no_process_witness:
  "\<exists>c w r w'. create_channel_collector (demo_flow_os 7) demo_channel_args (channel_args_filter demo_channel_args) sim_start = (Inr c, w) \<and>
     sim_alive w = [1] \<and>
     main (sim_runtime [JNull, JObj [(''map_id'', JInt 7)]]) (ChannelCommand demo_channel_args) sim_start = Some (r, w') \<and>
     sim_alive w' = []"
proof -
  let ?rt = "sim_runtime [JNull, JObj [(''map_id'', JInt 7)]]" and ?a = demo_channel_args
  have os: "rt_os ?rt = demo_flow_os 7" by (simp add: sim_runtime_def demo_flow_os_def)
  have "load_channel_catalog (demo_flow_os 7) ?a sim_start = (Inr \<lparr>cat_targets = []\<rparr>, sim_start)"
    by (simp add: load_channel_catalog_def catalog_paths_def load_channel_targets_def demo_channel_args_def
        channel_defaults_def io_bind_def io_return_def)
  then obtain c where c: "create_channel_collector (demo_flow_os 7) ?a (channel_args_filter ?a) sim_start =
      (Inr c, \<lparr>sim_step = 2, sim_alive = [1], sim_log = [btf_command]\<rparr>)"
    using demo_attach [of tcp_flows 7]
    by (auto simp: create_channel_collector_def new_flow_collector_def flow_source_def demo_channel_args_def channel_defaults_def
        flow_args_of_def demo_path io_defs Let_def new_flow_reader_def channel_modules)
  have started: "started ?rt (ChannelCommand ?a) sim_start" by (simp add: started_def os c)
  have once: "\<not> ch_watch ?a" "ch_duration ?a = None" by (simp_all add: demo_channel_args_def channel_defaults_def)
  obtain y where "guarded_run (channel_body ?rt ?a) (io_world (run_stop ?rt False None)) (io_world (run_pause ?rt (ch_bucket_ms ?a)))
      (channel_close (demo_flow_os 7)) (c, \<lparr>sim_step = 2, sim_alive = [1], sim_log = [btf_command]\<rparr>) = Some y"
    using guarded_run_ends [OF single_round] by blast
  then have "\<exists>y. main ?rt (ChannelCommand ?a) sim_start = Some y"
    using once by (simp add: main_def exit_status_def run_channel_analyzer_def os c watching_def run_deadline_def io_return_def)
  then obtain r w' where run: "main ?rt (ChannelCommand ?a) sim_start = Some (r, w')" by auto
  have quiet: "quiet_runtime ?rt (\<lambda>w w'. (set \<circ> sim_alive) w' \<subseteq> (set \<circ> sim_alive) w)"
    by (auto simp: quiet_runtime_def quiet_def sim_runtime_def idle_store_def)
  have "(set \<circ> sim_alive) w' \<subseteq> (set \<circ> sim_alive) sim_start"
    by (rule run_leaves_no_process [OF _ quiet started run]) (unfold os demo_flow_os_def, rule sim_child_laws)
  then have "sim_alive w' = []" by (simp add: sim_start_def)
  with c run show ?thesis by auto
qed

end
