(* ===== verification/Harness.thy ===== *)
theory Harness
  imports Output Collectors Models UrlText
begin

text \<open>
  \<open>harness/assert_output.py\<close>: the acceptance check of the analyzer's JSON lines. A rejected output is a
  \<open>SystemExit\<close>; a row of a shape the script does not expect raises what Python raises.
\<close>

section \<open>Rows\<close>

definition REQUIRED_FIELDS :: "string list" where
  "REQUIRED_FIELDS =
     [''ts'', ''bucket_ms'', ''src_ip'', ''dst_ip'', ''src_port'', ''dst_port'', ''ifindex'', ''ifname'',
      ''packets'', ''bytes'', ''layer'']"

text \<open>\<open>isinstance(v, int)\<close>: a Boolean is an integer. A list or a dict has no hash.\<close>

definition is_int :: "json \<Rightarrow> bool" where
  "is_int v = (case v of JInt _ \<Rightarrow> True | JBool _ \<Rightarrow> True | _ \<Rightarrow> False)"

definition hashable :: "json \<Rightarrow> bool" where
  "hashable v = (case v of JList _ \<Rightarrow> False | JObj _ \<Rightarrow> False | _ \<Rightarrow> True)"

text \<open>\<open>v < 0\<close> and \<open>v > 0\<close> of an integer.\<close>

definition int_value :: "json \<Rightarrow> int res" where
  "int_value v = (if is_int v then py_int v else Inl TypeError)"

text \<open>\<open>REQUIRED_FIELDS.difference(row)\<close>, sorted.\<close>

definition missing_fields :: "json \<Rightarrow> string list res" where
  "missing_fields row =
     bind_res (py_iter row) (\<lambda>keys.
       if \<not> list_all hashable keys then Inl TypeError
       else Inr (sort (filter (\<lambda>f. JStr f \<notin> set keys) REQUIRED_FIELDS)))"

definition check_int_field :: "nat \<Rightarrow> json \<Rightarrow> string \<Rightarrow> unit res" where
  "check_int_field index row field =
     bind_res (py_item row field) (\<lambda>v.
       if is_int v then Inr ()
       else Inl (SystemExit ''row {}: {} must be an integer'' [JInt (int index), JStr field]))"

definition check_row :: "nat \<Rightarrow> json \<Rightarrow> unit res" where
  "check_row index row =
     bind_res (missing_fields row) (\<lambda>missing.
     if missing \<noteq> [] then Inl (SystemExit ''row {}: missing fields: {}'' [JInt (int index), JList (map JStr missing)]) else
     bind_res (traverse (check_int_field index row) [''src_port'', ''dst_port'', ''ifindex'', ''packets'', ''bytes'']) (\<lambda>_.
     bind_res (bind_res (py_item row ''packets'') int_value) (\<lambda>packets.
     bind_res (bind_res (py_item row ''bytes'') int_value) (\<lambda>bts.
     if packets < 0 \<or> bts < 0 then Inl (SystemExit ''row {}: counters must not be negative'' [JInt (int index)]) else
     bind_res (py_item row ''layer'') (\<lambda>layer.
     if \<not> hashable layer then Inl TypeError
     else if layer \<notin> {JStr ''ingress'', JStr ''delivered''}
     then Inl (SystemExit ''row {}: unexpected layer {}'' [JInt (int index), layer])
     else Inr ())))))"

definition validate_rows :: "json list \<Rightarrow> bool \<Rightarrow> unit res" where
  "validate_rows rows allow_empty =
     (if rows = [] \<and> \<not> allow_empty then Inl (SystemExit ''no analyzer rows were produced'' [])
      else bind_res (traverse (\<lambda>(index, row). check_row index row) (enumerate 0 rows)) (\<lambda>_. Inr ()))"

section \<open>Profiles\<close>

definition expected_rows :: "(json \<times> json \<times> json \<times> json) list" where
  "expected_rows =
     [(JStr ''192.0.2.10'', JInt 5000, JStr ''delivered'', JStr ''ffmpeg''),
      (JStr ''192.0.2.11'', JInt 5001, JStr ''delivered'', JStr ''ffmpeg''),
      (JStr ''192.0.2.12'', JInt 5999, JStr ''ingress'', JStr [])]"

definition row_summary :: "json \<Rightarrow> (json \<times> json \<times> json \<times> json) res" where
  "row_summary row =
     bind_res (py_item row ''src_ip'') (\<lambda>src.
     bind_res (py_item row ''dst_port'') (\<lambda>port.
     bind_res (py_item row ''layer'') (\<lambda>layer.
     bind_res (py_get row ''process_name'' (JStr [])) (\<lambda>name.
       if list_all hashable [src, port, layer, name] then Inr (src, port, layer, name) else Inl TypeError))))"

definition summary_json :: "json \<times> json \<times> json \<times> json \<Rightarrow> json" where
  "summary_json = (\<lambda>(src, port, layer, name). JList [src, port, layer, name])"

definition validate_dry_run :: "json list \<Rightarrow> unit res" where
  "validate_dry_run rows =
     bind_res (traverse row_summary rows) (\<lambda>present.
       let missing = filter (\<lambda>e. e \<notin> set present) expected_rows in
       if missing \<noteq> [] then Inl (SystemExit ''dry-run output missing expected rows: {}'' (map summary_json missing))
       else Inr ())"

text \<open>\<open>any(...)\<close> stops at the first row that has the property.\<close>

fun any_row :: "(json \<Rightarrow> bool res) \<Rightarrow> json list \<Rightarrow> bool res" where
  "any_row test [] = Inr False"
| "any_row test (row # rows) = bind_res (test row) (\<lambda>b. if b then Inr True else any_row test rows)"

definition validate_ebpf :: "json list \<Rightarrow> bool \<Rightarrow> unit res" where
  "validate_ebpf rows allow_empty =
     (if allow_empty \<and> rows = [] then Inr () else
      bind_res (any_row (\<lambda>row. bind_res (py_item row ''layer'') (\<lambda>l. Inr (l = JStr ''ingress''))) rows) (\<lambda>ingress.
      if \<not> ingress then Inl (SystemExit ''eBPF output did not include ingress rows'' []) else
      bind_res (any_row (\<lambda>row. bind_res (bind_res (py_item row ''packets'') int_value) (\<lambda>n. Inr (n > 0))) rows) (\<lambda>positive.
      if \<not> positive then Inl (SystemExit ''eBPF output did not include positive packet counts'' []) else Inr ())))"

section \<open>The script\<close>

record harness_args =
  ha_input :: string
  ha_profile :: string
  ha_allow_empty :: bool

definition read_row :: "'w os \<Rightarrow> string \<Rightarrow> nat \<times> string \<Rightarrow> json list res" where
  "read_row os path = (\<lambda>(line_number, line).
     let stripped = strip line in
     if stripped = [] then Inr [] else
     case os_loads os stripped of
       None \<Rightarrow> Inl (SystemExit ''{}:{}: invalid JSON: {}'' [JStr path, JInt (int line_number), JStr stripped])
     | Some row \<Rightarrow> Inr [row])"

definition rows_of_text :: "'w os \<Rightarrow> string \<Rightarrow> string \<Rightarrow> json list res" where
  "rows_of_text os path content =
     bind_res (traverse (read_row os path) (enumerate 1 (split_on (CHR 10) content))) (\<lambda>rows. Inr (concat rows))"

definition read_rows :: "'w os \<Rightarrow> string \<Rightarrow> ('w, json list) io" where
  "read_rows os path =
     io_bind (io_op (os_read_text os path)) (\<lambda>r. case r of
         ReadOSError \<Rightarrow> io_raise OSError
       | ReadDecodeError \<Rightarrow> io_raise UnicodeDecodeError
       | ReadText content \<Rightarrow> io_res (rows_of_text os path content))"

definition validate_profile :: "harness_args \<Rightarrow> json list \<Rightarrow> unit res" where
  "validate_profile args rows =
     bind_res (validate_rows rows (ha_allow_empty args)) (\<lambda>_.
       if ha_profile args = ''dry-run'' then validate_dry_run rows
       else if ha_profile args = ''ebpf'' then validate_ebpf rows (ha_allow_empty args)
       else Inr ())"

definition assert_output :: "'w os \<Rightarrow> 'w console \<Rightarrow> harness_args \<Rightarrow> ('w, int) io" where
  "assert_output os con args =
     io_bind (read_rows os (path_str (path_of (ha_input args)))) (\<lambda>rows.
     io_bind (io_res (validate_profile args rows)) (\<lambda>_.
     io_bind (print_lines con [''ok: validated '' @ str_of_int (int (length rows)) @ '' rows from '' @ ha_input args]) (\<lambda>_.
       io_return 0)))"

end
