(* ===== verification/HarnessFacts.thy ===== *)
theory HarnessFacts
  imports Harness FlowCollector
begin

text \<open>
  The analyzer and its acceptance check fit together: what a dry run prints as JSON lines is read back and
  accepted. And the table does not fit the rows of the UDP channel collector.
\<close>

section \<open>Reading back\<close>

text \<open>What is documented of \<open>json\<close>: a dumped dict is one line, not blank, with no space around it, and
  \<open>loads\<close> of it gives a dict with the same items.\<close>

definition reads_back :: "'w os \<Rightarrow> 'v console \<Rightarrow> dict \<Rightarrow> bool" where
  "reads_back os con d \<longleftrightarrow>
     (let line = con_dumps con True (JObj d)
      in CHR 10 \<notin> set line \<and> strip line = line \<and> line \<noteq> [] \<and>
         (case os_loads os line of Some (JObj d') \<Rightarrow> map_of d' = map_of d | _ \<Rightarrow> False))"

definition read_dict :: "'w os \<Rightarrow> 'v console \<Rightarrow> dict \<Rightarrow> json" where
  "read_dict os con d = the (os_loads os (con_dumps con True (JObj d)))"

lemma read_dict_items: "reads_back os con d \<Longrightarrow> \<exists>d'. read_dict os con d = JObj d' \<and> map_of d' = map_of d"
  by (auto simp: reads_back_def read_dict_def Let_def split: option.splits json.splits)

definition as_file :: "string list \<Rightarrow> string" where
  "as_file lines = concat (map (\<lambda>l. l @ [CHR 10]) lines)"

lemma split_file: "\<forall>l \<in> set lines. CHR 10 \<notin> set l \<Longrightarrow> split_on (CHR 10) (as_file lines) = lines @ [[]]"
  by (induction lines) (auto simp: as_file_def split_on_append)

lemma strip_Nil: "strip [] = []"
  by (simp add: strip_def lstrip_def rstrip_def)

lemma read_lines:
  "\<forall>d \<in> set ds. reads_back os con d \<Longrightarrow>
    traverse (read_row os path) (enumerate n (map (\<lambda>d. con_dumps con True (JObj d)) ds @ [[]])) =
      Inr (map (\<lambda>d. [read_dict os con d]) ds @ [[]])"
proof (induction ds arbitrary: n)
  case Nil
  then show ?case by (simp add: read_row_def strip_Nil)
next
  case (Cons d ds)
  then show ?case
    by (auto simp: read_row_def reads_back_def read_dict_def Let_def split: option.splits)
qed

lemma rows_of_dicts:
  assumes "\<forall>d \<in> set ds. reads_back os con d"
  shows "rows_of_text os path (as_file (map (\<lambda>d. con_dumps con True (JObj d)) ds)) = Inr (map (read_dict os con) ds)"
proof -
  have "\<forall>l \<in> set (map (\<lambda>d. con_dumps con True (JObj d)) ds). CHR 10 \<notin> set l"
    using assms by (auto simp: reads_back_def Let_def)
  moreover have "concat (map (\<lambda>d. [g d]) ds @ [[]]) = map g ds" for g :: "dict \<Rightarrow> json"
    by (induction ds) auto
  ultimately show ?thesis
    using read_lines [OF assms, of path 1] by (simp add: rows_of_text_def split_file)
qed

section \<open>Accepting\<close>

lemma sample_keys:
  assumes "map_of d = map_of (udp_to_dict ts_of r)"
  shows "fst ` set d = set (map fst (udp_to_dict ts_of r))"
  using assms by (metis dom_map_of_conv_image_fst set_map)

lemma row_complete:
  assumes "map_of d = map_of (udp_to_dict ts_of r)"
  shows "missing_fields (JObj d) = Inr []"
proof -
  have "set REQUIRED_FIELDS \<subseteq> set (map fst (udp_to_dict ts_of r))"
    by (simp add: REQUIRED_FIELDS_def udp_to_dict_def)
  then have "\<forall>f \<in> set REQUIRED_FIELDS. f \<in> fst ` set d" using sample_keys [OF assms] by auto
  then have "filter (\<lambda>f. JStr f \<notin> set (map (\<lambda>kv. JStr (fst kv)) d)) REQUIRED_FIELDS = []"
    by (force simp: filter_empty_conv)
  moreover have "list_all hashable (map (\<lambda>kv. JStr (fst kv)) d)"
    by (simp add: list_all_iff hashable_def)
  ultimately show ?thesis by (simp add: missing_fields_def)
qed

lemma row_accepted:
  assumes items: "map_of d = map_of (udp_to_dict ts_of r)" and counts: "0 \<le> us_packets r" "0 \<le> us_bytes r"
    and layer: "us_layer r \<in> {''ingress'', ''delivered''}"
  shows "check_row i (JObj d) = Inr ()"
proof -
  have "map_of d ''src_port'' = Some (JInt (us_src_port r))" "map_of d ''dst_port'' = Some (JInt (us_dst_port r))"
    "map_of d ''ifindex'' = Some (JInt (us_ifindex r))" "map_of d ''packets'' = Some (JInt (us_packets r))"
    "map_of d ''bytes'' = Some (JInt (us_bytes r))" "map_of d ''layer'' = Some (JStr (us_layer r))"
    unfolding items by (simp_all add: udp_to_dict_def)
  with counts layer show ?thesis
    by (auto simp: check_row_def row_complete [OF items] check_int_field_def is_int_def int_value_def hashable_def)
qed

lemma row_summary_sample:
  assumes items: "map_of d = map_of (udp_to_dict ts_of r)"
  shows "row_summary (JObj d) =
    Inr (JStr (us_src_ip r), JInt (us_dst_port r), JStr (us_layer r), JStr (us_process_name r))"
proof -
  have "map_of d ''src_ip'' = Some (JStr (us_src_ip r))" "map_of d ''dst_port'' = Some (JInt (us_dst_port r))"
    "map_of d ''layer'' = Some (JStr (us_layer r))" "map_of d ''process_name'' = Some (JStr (us_process_name r))"
    unfolding items by (simp_all add: udp_to_dict_def)
  then show ?thesis by (simp add: row_summary_def hashable_def)
qed

text \<open>Rows with counters that are not negative and one of the two UDP layers are always accepted.\<close>

lemma list_all2_in_set1: "list_all2 P xs ys \<Longrightarrow> x \<in> set xs \<Longrightarrow> \<exists>y \<in> set ys. P x y"
  by (induction rule: list_all2_induct) auto

lemma rows_accepted:
  assumes "list_all2 (\<lambda>j r. \<exists>d. j = JObj d \<and> map_of d = map_of (udp_to_dict ts_of r)) js rows" and "rows = [] \<longrightarrow> allow_empty"
    and "\<forall>r \<in> set rows. 0 \<le> us_packets r \<and> 0 \<le> us_bytes r \<and> us_layer r \<in> {''ingress'', ''delivered''}"
  shows "validate_rows js allow_empty = Inr ()"
proof -
  have "check_row i j = Inr ()" if j: "j \<in> set js" for i j
  proof -
    obtain r d where "r \<in> set rows" "j = JObj d" "map_of d = map_of (udp_to_dict ts_of r)"
      using list_all2_in_set1 [OF assms(1) j] by blast
    with assms(3) show ?thesis by (auto intro: row_accepted)
  qed
  then have "traverse (\<lambda>(i, j). check_row i j) (enumerate 0 js) = Inr (map (\<lambda>_. ()) (enumerate 0 js))"
    by (intro traverse_Inr_map) (auto simp: enumerate_eq_zip dest!: set_zip_rightD)
  moreover have "js = [] \<longrightarrow> allow_empty" using assms(1,2) by auto
  ultimately show ?thesis by (auto simp: validate_rows_def)
qed

section \<open>The dry run passes\<close>

lemma demo_rows:
  assumes run: "dry_run_checkpoint os (new_dry_run ms None, w) = (Inr rows, s)"
  shows "\<exists>b. rows = map (\<lambda>(index, st). dry_run_sample b ms 1 index st) (enumerate 0 demo_streams)"
  using run
  by (auto simp: dry_run_checkpoint_def new_dry_run_def io_defs no_filter_def sample_matches_def
      split: prod.splits sum.splits)

lemma demo_rows_accepted:
  assumes "rows = map (\<lambda>(index, st). dry_run_sample b ms 1 index st) (enumerate 0 demo_streams)"
  shows "length rows = 3" "\<forall>r \<in> set rows. 0 \<le> us_packets r \<and> 0 \<le> us_bytes r \<and> us_layer r \<in> {''ingress'', ''delivered''}"
    "set expected_rows \<subseteq> (\<lambda>r. (JStr (us_src_ip r), JInt (us_dst_port r), JStr (us_layer r), JStr (us_process_name r))) ` set rows"
  unfolding assms by (simp_all add: demo_streams_def dry_run_sample_def expected_rows_def)

lemma three: "str_of_int 3 = ''3''"
  by code_simp

text \<open>(C12) The dry run passes its acceptance check, end to end. Run the first checkpoint of a dry run without a
  filter, print it as JSON, and give the file of the printed lines to the harness with the \<open>dry-run\<close>
  profile: it accepts all three rows, prints one line and exits with 0. For every clock and bucket width and
  every rendering of time stamps, if \<open>json\<close> reads back what it wrote.\<close>

theorem harness_accepts_dry_run:
  assumes run: "dry_run_checkpoint os (new_dry_run ms None, w) = (Inr rows, s)"
    and shows_lines: "prints con shown" and emit: "emit_samples os con (udp_to_dict ts_of) rows ''json'' v = (q, v')"
    and json: "\<forall>r \<in> set rows. reads_back os con (udp_to_dict ts_of r)"
    and input: "os_read_text os (path_str (path_of p)) u = (ReadText (as_file (drop (length (shown v)) (shown v'))), u')"
    and prints_out: "prints out told"
  shows "\<exists>u''. assert_output os out \<lparr>ha_input = p, ha_profile = ''dry-run'', ha_allow_empty = False\<rparr> u = (Inr 0, u'') \<and>
    told u'' = told u' @ [''ok: validated 3 rows from '' @ p] \<and> length rows = 3"
proof -
  let ?ds = "map (udp_to_dict ts_of) rows" and ?sum = "\<lambda>r. (JStr (us_src_ip r), JInt (us_dst_port r), JStr (us_layer r), JStr (us_process_name r))"
  let ?js = "map (read_dict os con) ?ds"
  obtain b where rows: "rows = map (\<lambda>(index, st). dry_run_sample b ms 1 index st) (enumerate 0 demo_streams)"
    using demo_rows [OF run] ..
  note demo = demo_rows_accepted [OF rows]
  have "drop (length (shown v)) (shown v') = map (\<lambda>d. con_dumps con True (JObj d)) ?ds"
    using emit print_lines_shown [OF shows_lines] by (auto simp: emit_samples_def)
  then have read: "rows_of_text os (path_str (path_of p)) (as_file (drop (length (shown v)) (shown v'))) = Inr ?js"
    using json rows_of_dicts [of ?ds os con] by simp
  have items: "\<exists>d. read_dict os con (udp_to_dict ts_of r) = JObj d \<and> map_of d = map_of (udp_to_dict ts_of r)" if "r \<in> set rows" for r
    using read_dict_items json that by blast
  have "validate_rows ?js False = Inr ()"
  proof (rule rows_accepted)
    show "list_all2 (\<lambda>j r. \<exists>d. j = JObj d \<and> map_of d = map_of (udp_to_dict ts_of r)) ?js rows"
      using items by (auto simp: list_all2_map1 list_all2_same)
  qed (use demo in auto)
  moreover have "traverse row_summary ?js = Inr (map ?sum rows)"
  proof -
    have "row_summary (read_dict os con (udp_to_dict ts_of r)) = Inr (?sum r)" if "r \<in> set rows" for r
      using items [OF that] row_summary_sample by metis
    then have "traverse (\<lambda>r. row_summary (read_dict os con (udp_to_dict ts_of r))) rows = Inr (map ?sum rows)"
      by (rule traverse_Inr_map)
    moreover have "traverse row_summary (map f xs) = traverse (\<lambda>r. row_summary (f r)) xs" for f and xs :: "udp_sample list"
      by (induction xs) auto
    ultimately show ?thesis by simp
  qed
  then have "validate_dry_run ?js = Inr ()"
    using demo(3) by (auto simp: validate_dry_run_def Let_def filter_empty_conv subset_iff)
  ultimately have "validate_profile \<lparr>ha_input = p, ha_profile = ''dry-run'', ha_allow_empty = False\<rparr> ?js = Inr ()"
    by (simp add: validate_profile_def)
  moreover obtain t u'' where "print_lines out [''ok: validated '' @ str_of_int 3 @ '' rows from '' @ p] u' = (t, u'')"
    by (metis surj_pair)
  moreover from print_lines_shown [OF prints_out this] have "told u'' = told u' @ [''ok: validated 3 rows from '' @ p]" "t = Inr ()"
    by (simp_all add: three)
  ultimately show ?thesis using read demo(1) input
    by (simp add: assert_output_def read_rows_def io_bind_def io_op_def io_res_def io_return_def)
qed

text \<open>A concrete run: the three rows of a first dry run, dumped as lines of one, two and three characters.\<close>

definition demo_dicts :: "dict list" where
  "demo_dicts = map (\<lambda>(index, st). udp_to_dict (\<lambda>_. ''t'') (dry_run_sample 1000000000 1000 1 index st))
     (enumerate 0 demo_streams)"

definition demo_console :: "sim console" where
  "demo_console = \<lparr>con_print = (\<lambda>l s. ((), s\<lparr>sim_log := sim_log s @ [[l]]\<rparr>)), con_dumps = (\<lambda>_ v.
     replicate (Suc (length (takeWhile (\<lambda>x. x \<noteq> v) (map JObj demo_dicts)))) CHR ''x'')\<rparr>"

definition demo_harness_os :: "sim os" where
  "demo_harness_os = (sim_os (map JObj demo_dicts))\<lparr>os_read_text := (\<lambda>_ s.
     (ReadText (as_file (map (\<lambda>d. con_dumps demo_console True (JObj d)) demo_dicts)), s))\<rparr>"

lemma strip_x: "strip (CHR ''x'' # replicate n CHR ''x'') = CHR ''x'' # replicate n CHR ''x''"
  by (rule strip_no_space) (simp add: is_space_def)

lemma demo_reads_back:
  assumes d: "d \<in> set demo_dicts"
  shows "reads_back demo_harness_os demo_console d"
proof -
  let ?t = "map JObj demo_dicts" and ?P = "\<lambda>x. x \<noteq> JObj d"
  have "\<not> list_all ?P ?t" using d by (auto simp: list_all_iff)
  then have "length (takeWhile ?P ?t) < length ?t"
    by (metis length_takeWhile_le le_neq_implies_less list_all_iff takeWhile_eq_all_conv takeWhile_eq_take take_all_iff order_refl)
  moreover from nth_length_takeWhile [OF this] have "?t ! length (takeWhile ?P ?t) = JObj d" by simp
  ultimately show ?thesis
    by (simp add: reads_back_def demo_console_def demo_harness_os_def sim_loads_def strip_x Let_def)
qed

lemma harness_accepts_dry_run_witness:
  "\<exists>rows s q v u''. dry_run_checkpoint demo_harness_os (new_dry_run 1000 None, sim_start) = (Inr rows, s) \<and>
    emit_samples demo_harness_os demo_console (udp_to_dict (\<lambda>_. ''t'')) rows ''json'' sim_start = (q, v) \<and> length (sim_log v) = 3 \<and>
    assert_output demo_harness_os demo_console \<lparr>ha_input = ''out.ndjson'', ha_profile = ''dry-run'', ha_allow_empty = False\<rparr>
      sim_start = (Inr 0, u'') \<and> map hd (sim_log u'') = [''ok: validated 3 rows from out.ndjson'']"
proof -
  let ?rows = "map (\<lambda>(index, st). dry_run_sample 1000000000 1000 1 index st) (enumerate 0 demo_streams)"
  have "\<exists>s. dry_run_checkpoint demo_harness_os (new_dry_run 1000 None, sim_start) = (Inr ?rows, s)"
    by (simp add: dry_run_checkpoint_def new_dry_run_def demo_harness_os_def io_defs bucket_start_ns_def sim_start_def
        no_filter_def sample_matches_def)
  then obtain s where run: "dry_run_checkpoint demo_harness_os (new_dry_run 1000 None, sim_start) = (Inr ?rows, s)" ..
  have dicts: "map (udp_to_dict (\<lambda>_. ''t'')) ?rows = demo_dicts" by (simp add: demo_dicts_def case_prod_beta)
  obtain q v where emit: "emit_samples demo_harness_os demo_console (udp_to_dict (\<lambda>_. ''t'')) ?rows ''json'' sim_start = (q, v)"
    by (metis surj_pair)
  let ?shown = "\<lambda>s. map hd (sim_log s)"
  have p: "prints demo_console ?shown" by (simp add: prints_def demo_console_def)
  have v: "?shown v = map (\<lambda>d. con_dumps demo_console True (JObj d)) demo_dicts"
    using emit print_lines_shown [OF p] unfolding dicts [symmetric]
    by (auto simp: emit_samples_def comp_def sim_start_def)
  have json: "\<forall>r \<in> set ?rows. reads_back demo_harness_os demo_console (udp_to_dict (\<lambda>_. ''t'') r)"
    using demo_reads_back unfolding dicts [symmetric] by auto
  have input: "os_read_text demo_harness_os (path_str (path_of ''out.ndjson'')) sim_start =
      (ReadText (as_file (drop (length (?shown sim_start)) (?shown v))), sim_start)"
    by (simp add: demo_harness_os_def v) (simp add: sim_start_def)
  have "length (?shown v) = 3" unfolding v by (simp add: demo_dicts_def demo_streams_def)
  then have "length (sim_log v) = 3" by simp
  moreover obtain u'' where "assert_output demo_harness_os demo_console
        \<lparr>ha_input = ''out.ndjson'', ha_profile = ''dry-run'', ha_allow_empty = False\<rparr> sim_start = (Inr 0, u'')"
      "?shown u'' = ?shown sim_start @ [''ok: validated 3 rows from '' @ ''out.ndjson'']"
    using harness_accepts_dry_run [OF run p emit json input p] by blast
  moreover have "?shown sim_start = []" by (simp add: sim_start_def)
  ultimately show ?thesis using run emit by auto
qed

section \<open>Tables of channel rows\<close>

text \<open>(C37) A table of TCP channel rows has only columns its rows have. A table of UDP channel rows gets the
  columns of the UDP analyzer: the channel, the unit, the status and the byte counters of its rows are not
  shown, although the rows have them.\<close>

theorem channel_table_columns:
  assumes rows: "rows \<noteq> []" and layers: "list_all (\<lambda>r. cs_layer r = layer) rows"
    and layer: "layer \<in> {''tcp_channel'', ''udp_channel''}"
  shows "if layer = ''tcp_channel''
    then table_columns (map (channel_to_dict ts_of) rows) = CHANNEL_TABLE_COLUMNS \<and>
      (\<forall>d \<in> channel_to_dict ts_of ` set rows. set CHANNEL_TABLE_COLUMNS \<subseteq> fst ` set d)
    else table_columns (map (channel_to_dict ts_of) rows) = TABLE_COLUMNS \<and>
      (\<forall>d \<in> channel_to_dict ts_of ` set rows.
         {''channel'', ''unit'', ''status'', ''tx_bytes'', ''rx_bytes''} \<subseteq> fst ` set d - set TABLE_COLUMNS)"
proof -
  have tag: "map_of (channel_to_dict ts_of x) ''layer'' = Some (JStr (cs_layer x))" for x
    by (simp add: channel_to_dict_def)
  have keys: "set CHANNEL_TABLE_COLUMNS \<subseteq> fst ` set (channel_to_dict ts_of x)" for x
    by (simp add: CHANNEL_TABLE_COLUMNS_def channel_to_dict_def)
  have lost: "{''channel'', ''unit'', ''status'', ''tx_bytes'', ''rx_bytes''} \<subseteq> fst ` set (channel_to_dict ts_of x) - set TABLE_COLUMNS" for x
    by (simp add: TABLE_COLUMNS_def channel_to_dict_def)
  show ?thesis
  proof (cases "layer = ''tcp_channel''")
    case True
    with rows layers have "table_columns (map (channel_to_dict ts_of) rows) = CHANNEL_TABLE_COLUMNS"
      by (cases rows) (simp_all add: table_columns_def tag)
    with True keys show ?thesis by simp
  next
    case False
    with layer layers have "table_columns (map (channel_to_dict ts_of) rows) = TABLE_COLUMNS"
      by (auto simp: table_columns_def tag list_ex_iff list_all_iff)
    with False lost show ?thesis by (auto simp del: insert_subset)
  qed
qed

lemma channel_table_columns_witness:
  "table_columns (map (channel_to_dict (\<lambda>_. ''t'')) [udp_dry_sample 0 (new_flow_dry_run \<lparr>cat_targets = []\<rparr> 1000 None)]) =
    TABLE_COLUMNS"
  using channel_table_columns [of "[udp_dry_sample 0 (new_flow_dry_run \<lparr>cat_targets = []\<rparr> 1000 None)]" "''udp_channel''" "\<lambda>_. ''t''"]
  by (simp add: udp_dry_sample_def Let_def)

end
