(* ===== verification/ChannelFacts.thy ===== *)
theory ChannelFacts
  imports Channels SimOs
begin

text \<open>
  What \<open>channels.py\<close> guarantees: how a URL comes apart, which text is taken for a URL, what a loaded target
  looks like and where it comes from, how a flow is classified, and what resolution changes.
\<close>

section \<open>URLs\<close>

text \<open>(C26) A URL is found wherever it stands alone: between two characters that no URL can hold (blanks,
  quotes, angle brackets) it is reported exactly once and unchanged, and the text before and after is
  searched as if it stood alone.\<close>

theorem find_urls_delimited:
  assumes "is_url u" and "\<not> url_char c" and "\<not> url_char d"
  shows "find_urls (pre @ c # u @ d # post) = find_urls pre @ u # find_urls post \<and>
    (\<forall>v \<in> set (find_urls (pre @ c # u @ d # post)). is_url v)"
proof -
  have "find_urls (pre @ c # u @ d # post) = find_urls pre @ find_urls (u @ d # post)"
    by (rule find_urls_cut [OF assms(2)])
  also have "find_urls (u @ d # post) = u # find_urls post"
    using find_urls_cut [OF assms(3), of u post] find_urls_word [OF assms(1)] by simp
  finally show ?thesis using find_urls_sound by blast
qed

lemma find_urls_delimited_witness:
  "find_urls ''-i udp://@239.1.1.1:5000 -f x'' = [''udp://@239.1.1.1:5000'']"
proof -
  have u: "is_url ''udp://@239.1.1.1:5000''"
    unfolding is_url_def url_schemes_def
    by (rule bexI [where x = "''udp''"], rule exI [where x = "''@239.1.1.1:5000''"])
       (auto simp: url_char_def is_space_def)
  have "\<not> url_char CHR '' ''" by (simp add: url_char_def is_space_def)
  from find_urls_delimited [OF u this this, of "''-i''" "''-f x''"]
  have "find_urls ''-i udp://@239.1.1.1:5000 -f x'' = find_urls ''-i'' @ ''udp://@239.1.1.1:5000'' # find_urls ''-f x''"
    by simp
  then show ?thesis by (simp add: find_urls_Cons url_at_def url_schemes_def startswith_def)
qed
















section \<open>Classification of a flow\<close>

text \<open>The dictionary comprehension keeps the last target of each unit.\<close>

lemma map_of_rev_last:
  "map_of (rev (map (\<lambda>t. (k t, t)) ts)) u = Some x \<longleftrightarrow>
     (\<exists>pre post. ts = pre @ x # post \<and> k x = u \<and> u \<notin> k ` set post)"
proof (induction ts rule: rev_induct)
  case (snoc t ts)
  show ?case
  proof (cases "k t = u")
    case True
    have "(\<exists>pre post. ts @ [t] = pre @ x # post \<and> k x = u \<and> u \<notin> k ` set post) \<longleftrightarrow> x = t"
    proof
      assume "\<exists>pre post. ts @ [t] = pre @ x # post \<and> k x = u \<and> u \<notin> k ` set post"
      then obtain pre post where split: "ts @ [t] = pre @ x # post" and later: "u \<notin> k ` set post" by blast
      have "post = []" using split later True by (cases post rule: rev_cases) auto
      with split show "x = t" by simp
    next
      assume "x = t"
      with True have "ts @ [t] = ts @ x # [] \<and> k x = u \<and> u \<notin> k ` set []" by simp
      then show "\<exists>pre post. ts @ [t] = pre @ x # post \<and> k x = u \<and> u \<notin> k ` set post" by blast
    qed
    with True show ?thesis by auto
  next
    case False
    have "(\<exists>pre post. ts @ [t] = pre @ x # post \<and> k x = u \<and> u \<notin> k ` set post) \<longleftrightarrow>
        (\<exists>pre post. ts = pre @ x # post \<and> k x = u \<and> u \<notin> k ` set post)"
    proof
      assume "\<exists>pre post. ts @ [t] = pre @ x # post \<and> k x = u \<and> u \<notin> k ` set post"
      then obtain pre post where split: "ts @ [t] = pre @ x # post" and x: "k x = u" "u \<notin> k ` set post" by blast
      from split x False obtain post' where "post = post' @ [t]" by (cases post rule: rev_cases) auto
      with split x have "ts = pre @ x # post' \<and> k x = u \<and> u \<notin> k ` set post'" by auto
      then show "\<exists>pre post. ts = pre @ x # post \<and> k x = u \<and> u \<notin> k ` set post" by blast
    next
      assume "\<exists>pre post. ts = pre @ x # post \<and> k x = u \<and> u \<notin> k ` set post"
      then obtain pre post where "ts @ [t] = pre @ x # (post @ [t])" "k x = u" "u \<notin> k ` set (post @ [t])"
        using False by auto
      then show "\<exists>pre post. ts @ [t] = pre @ x # post \<and> k x = u \<and> u \<notin> k ` set post" by blast
    qed
    with False snoc.IH show ?thesis by simp
  qed
qed simp

lemma by_unit_Some:
  "by_unit cat u = Some t \<longleftrightarrow>
     (\<exists>pre post. cat_targets cat = pre @ t # post \<and> ct_unit t = u \<and> u \<notin> ct_unit ` set post)"
  unfolding by_unit_def by (rule map_of_rev_last)

lemma by_unit_None: "by_unit cat u = None \<longleftrightarrow> u \<notin> ct_unit ` set (cat_targets cat)"
  by (simp add: by_unit_def map_of_eq_None_iff image_image)

text \<open>The verdict on a flow, over the list of targets: it is the last target of the unit that decides.\<close>

lemma catalog_match_last:
  assumes "cat_targets cat = pre @ t # post" and "ct_unit t = u" and "u \<notin> ct_unit ` set post"
  shows "catalog_match cat u ip port = \<lparr>cm_target = Some t, cm_status =
    if ct_port t = port \<and> (ct_addresses t = [] \<or> ip \<in> set (ct_addresses t)) then ''matched'' else ''unexpected_flow''\<rparr>"
proof -
  have "by_unit cat u = Some t" using assms unfolding by_unit_Some by blast
  then show ?thesis by (simp add: catalog_match_def)
qed

section \<open>Loaded targets\<close>

text \<open>What every target of a loaded catalog is.\<close>

definition good_target :: "channel_target \<Rightarrow> bool" where
  "good_target t \<longleftrightarrow> ct_scheme t \<in> {''http'', ''https'', ''udp'', ''rtp''} \<and> ct_host t \<noteq> [] \<and>
     0 \<le> ct_port t \<and> ct_port t \<le> 65535 \<and> ct_path t \<noteq> [] \<and> ct_addresses t = []"

lemma url_port_range: "url_port p = Inr (Some n) \<Longrightarrow> 0 \<le> n \<and> n \<le> 65535"
  by (auto simp: url_port_def Let_def split: if_splits option.splits)

lemma lower_Nil [simp]: "lower s = [] \<longleftrightarrow> s = []"
  by (simp add: lower_def)

lemma url_hostname_nonempty: "url_hostname p = Some h \<Longrightarrow> h \<noteq> []"
proof -
  assume "url_hostname p = Some h"
  then obtain t where t: "t \<noteq> []" "h = lower (before CHR ''%'' t) @ dropWhile (\<lambda>c. c \<noteq> CHR ''%'') t"
    by (auto simp: url_hostname_def Let_def split: if_splits)
  then show ?thesis by (cases t) (auto simp: before_def)
qed

lemma channel_target_good:
  assumes "channel_target_from_url ok unit url = Inr t"
  shows "good_target t \<and> ct_unit t = unit \<and> ct_channel t = removesuffix ''.service'' unit \<and> ct_url t = url"
proof -
  obtain parsed where scheme: "pu_scheme parsed \<in> {''http'', ''https'', ''udp'', ''rtp''}"
    and rest: "(case url_hostname parsed of
       None \<Rightarrow> Inl (RuntimeError ''{} URL has no host: {}'' [JStr unit, JStr url])
     | Some host \<Rightarrow> bind_res (url_port parsed) (\<lambda>po. bind_res (effective_port unit url (pu_scheme parsed) po) (\<lambda>port.
         let base = (if pu_path parsed \<noteq> [] then pu_path parsed else ''/'');
             full = (if pu_query parsed \<noteq> [] then base @ ''?'' @ pu_query parsed else base)
         in Inr \<lparr>ct_channel = removesuffix ''.service'' unit, ct_unit = unit, ct_url = url,
                 ct_scheme = pu_scheme parsed, ct_host = lower host, ct_port = port, ct_path = full,
                 ct_addresses = []\<rparr>))) = Inr t"
    using assms unfolding channel_target_from_url_def bind_res_Inr_iff if_Inl_iff by blast
  obtain host where host: "url_hostname parsed = Some host"
    using rest by (cases "url_hostname parsed") simp_all
  obtain po port where po: "url_port parsed = Inr po" and port: "effective_port unit url (pu_scheme parsed) po = Inr port"
    and t: "t = \<lparr>ct_channel = removesuffix ''.service'' unit, ct_unit = unit, ct_url = url,
      ct_scheme = pu_scheme parsed, ct_host = lower host, ct_port = port,
      ct_path = (let base = (if pu_path parsed \<noteq> [] then pu_path parsed else ''/'')
                 in if pu_query parsed \<noteq> [] then base @ ''?'' @ pu_query parsed else base),
      ct_addresses = []\<rparr>"
    using rest by (auto simp: host bind_res_Inr_iff Let_def)
  have "0 \<le> port \<and> port \<le> 65535"
    using port url_port_range [of parsed port] po by (auto simp: effective_port_def default_port_def split: option.splits if_splits)
  moreover have "host \<noteq> []" using url_hostname_nonempty [OF host] .
  ultimately show ?thesis using scheme by (simp add: t good_target_def Let_def)
qed

lemma target_of_urls_mem:
  assumes "target_of_urls os msg subject unit urls w = (Inr ts, w')" and "t \<in> set ts"
  shows "\<exists>url. urls = [url] \<and> ts = [t] \<and> channel_target_from_url (os_bracket_ok os) unit url = Inr t"
  using assms by (cases urls) (auto simp: target_of_urls_def io_bind_Inr_iff io_return_def io_res_def split: if_splits)

lemma io_traverse_mem:
  "io_traverse f xs s = (Inr ys, t) \<Longrightarrow> y \<in> set ys \<Longrightarrow> \<exists>x \<in> set xs. \<exists>u v. f x u = (Inr y, v)"
  by (induction xs arbitrary: ys s) (fastforce simp: io_bind_Inr_iff io_return_def)+

lemma io_traverse_concat:
  assumes "io_traverse f xs s = (Inr yss, t)" and "y \<in> set (concat yss)"
  shows "\<exists>x \<in> set xs. \<exists>ys u v. f x u = (Inr ys, v) \<and> y \<in> set ys"
proof -
  from assms(2) obtain ys where "ys \<in> set yss" "y \<in> set ys" by auto
  with io_traverse_mem [OF assms(1)] show ?thesis by blast
qed

lemma instance_target_good:
  assumes "instance_target os prfx fhead ftail p w = (Inr ts, w')" and "t \<in> set ts"
  shows "\<exists>inst. inst \<noteq> [] \<and> instance_of_name fhead ftail (path_name p) = Some inst \<and> good_target t \<and>
    ct_unit t = prfx @ ''@'' @ inst @ ''.service'' \<and> ct_channel t = inst"
proof -
  obtain inst where inst: "instance_of_name fhead ftail (path_name p) = Some inst"
    using assms by (cases "instance_of_name fhead ftail (path_name p)") (auto simp: instance_target_def io_return_def)
  then have "inst \<noteq> []" by (auto simp: instance_of_name_def Let_def split: if_splits)
  moreover obtain found xs u where "target_of_urls os ''{} contains {} URLs; expected one - skipping'' (path_str p)
      (prfx @ ''@'' @ inst @ ''.service'') (sorted_set found) u = (Inr xs, w')" and ts: "ts = map (\<lambda>t. t\<lparr>ct_channel := inst\<rparr>) xs"
    using assms(1) inst by (auto simp: instance_target_def io_bind_Inr_iff io_return_def)
  then obtain x url where x: "channel_target_from_url (os_bracket_ok os) (prfx @ ''@'' @ inst @ ''.service'') url = Inr x"
      "t = x\<lparr>ct_channel := inst\<rparr>"
    using assms(2) target_of_urls_mem by fastforce
  ultimately show ?thesis using channel_target_good [OF x(1)] inst by (simp add: good_target_def)
qed

text \<open>Where the target of a unit file comes from: the file itself, or an instance of the template.\<close>

definition target_of_unit :: "string \<Rightarrow> channel_target \<Rightarrow> bool" where
  "target_of_unit unit t =
     (if endswith unit ''@.service''
      then ct_channel t \<noteq> [] \<and> ct_unit t = take (length unit - length ''@.service'') unit @ ''@'' @ ct_channel t @ ''.service''
      else ct_unit t = unit \<and> ct_channel t = removesuffix ''.service'' unit)"

lemma pattern_targets_mem:
  assumes "pattern_targets os prfx q u = (Inr ys, v)" and "t \<in> set ys"
  shows "\<exists>fhead ftail p zs u' v'. instance_target os prfx fhead ftail p u' = (Inr zs, v') \<and> t \<in> set zs"
proof -
  obtain fhead ftail paths zss a b where trav: "io_traverse (instance_target os prfx fhead ftail) paths a = (Inr zss, b)"
      and ys: "ys = concat zss"
    using assms(1) by (auto simp: pattern_targets_def Let_def io_bind_Inr_iff io_return_def)
  from io_traverse_concat [OF trav assms(2) [unfolded ys]] show ?thesis by blast
qed

lemma template_line_mem:
  assumes "template_line_targets os p prfx line u = (Inr ys, v)" and "t \<in> set ys"
  shows "\<exists>fhead ftail q zs u' v'. instance_target os prfx fhead ftail q u' = (Inr zs, v') \<and> t \<in> set zs"
proof -
  obtain q where "pattern_targets os prfx q u = (Inr ys, v)"
    using assms
    by (cases "environment_file_spec line") (auto simp: template_line_targets_def Let_def io_return_def split: if_splits)
  from pattern_targets_mem [OF this assms(2)] show ?thesis .
qed

lemma template_targets_good:
  assumes "template_instance_targets os p joined w = (Inr ts, w')" and "t \<in> set ts"
    and template: "endswith (path_name p) ''@.service''"
  shows "good_target t \<and> target_of_unit (path_name p) t"
proof -
  let ?prfx = "take (length (path_name p) - length ''@.service'') (path_name p)"
  obtain yss where trav: "io_traverse (template_line_targets os p ?prfx) (splitlines joined) w = (Inr yss, w')"
      and ts: "ts = concat yss"
    using assms(1) by (auto simp: template_instance_targets_def Let_def io_bind_Inr_iff io_return_def)
  from io_traverse_concat [OF trav assms(2) [unfolded ts]] obtain line ys u v where
    line: "template_line_targets os p ?prfx line u = (Inr ys, v)" "t \<in> set ys" by blast
  from template_line_mem [OF line] obtain fhead ftail q zs u' v' where
    inst: "instance_target os ?prfx fhead ftail q u' = (Inr zs, v')" "t \<in> set zs" by blast
  from instance_target_good [OF inst] template show ?thesis by (auto simp: target_of_unit_def)
qed

lemma unit_targets_good:
  assumes "unit_targets os p text w = (Inr ts, w')" and "t \<in> set ts"
  shows "good_target t \<and> target_of_unit (path_name p) t"
proof (cases "endswith (path_name p) ''@.service''")
  case True
  with assms(1) have "template_instance_targets os p (join_systemd_continuations text) w = (Inr ts, w')"
    by (simp add: unit_targets_def Let_def)
  from template_targets_good [OF this assms(2) True] show ?thesis .
next
  case False
  with assms obtain urls u where
      "target_of_urls os ''{} contains {} URLs; expected one URL per unit - skipping'' (path_name p) (path_name p) urls u = (Inr ts, w')"
    by (auto simp: unit_targets_def Let_def io_bind_Inr_iff)
  from target_of_urls_mem [OF this assms(2)] False channel_target_good show ?thesis
    by (fastforce simp: target_of_unit_def)
qed

text \<open>(C23) A loaded catalog is sound: each target has one of the four schemes, a host, a port in range and
  a path, and belongs to a readable unit file of the list: to the unit itself, with the unit name without its
  suffix as the channel, or, for a template, to a named instance, with the instance as the channel.\<close>

theorem loaded_targets_sound:
  assumes "load_channel_targets os paths w = (Inr ts, w')" and "t \<in> set ts"
  shows "good_target t \<and> (\<exists>p \<in> set paths. target_of_unit (path_name p) t)"
proof -
  obtain yss where trav: "io_traverse (targets_of_path os) paths w = (Inr yss, w')" and ts: "ts = concat yss"
    using assms(1) by (auto simp: load_channel_targets_def io_bind_Inr_iff io_return_def)
  from io_traverse_concat [OF trav assms(2) [unfolded ts]] obtain p ys u v where
    p: "p \<in> set paths" "targets_of_path os p u = (Inr ys, v)" "t \<in> set ys" by blast
  obtain r u' where r: "os_read_text os (path_str p) u = (r, u')" by (metis surj_pair)
  show ?thesis
  proof (cases r)
    case (ReadText body)
    with p(2) r have "unit_targets os p body u' = (Inr ys, v)"
      by (simp add: targets_of_path_def io_bind_def io_op_def)
    from unit_targets_good [OF this p(3)] p(1) show ?thesis by blast
  qed (use p r in \<open>auto simp: targets_of_path_def io_bind_def io_op_def io_return_def io_raise_def\<close>)
qed

definition demo_unit_os :: "string \<Rightarrow> sim os" where
  "demo_unit_os contents = (sim_os [])\<lparr>os_read_text := (\<lambda>_ s. (ReadText contents, s))\<rparr>"

definition demo_tv :: channel_target where
  "demo_tv = \<lparr>ct_channel = ''tv'', ct_unit = ''tv.service'', ct_url = ''udp://@239.1.1.1:5000'', ct_scheme = ''udp'',
     ct_host = ''239.1.1.1'', ct_port = 5000, ct_path = ''/'', ct_addresses = []\<rparr>"

lemma demo_load:
  "fst (load_channel_targets (demo_unit_os ''ExecStart=ffmpeg -i udp://@239.1.1.1:5000'') [Path ''/'' [''tv.service'']] sim_start)
     = Inr [demo_tv]"
  by code_simp

lemma loaded_targets_sound_witness:
  "good_target demo_tv \<and> target_of_unit ''tv.service'' demo_tv"
proof -
  let ?os = "demo_unit_os ''ExecStart=ffmpeg -i udp://@239.1.1.1:5000''"
  obtain w' where "load_channel_targets ?os [Path ''/'' [''tv.service'']] sim_start = (Inr [demo_tv], w')"
    using demo_load by (metis fst_conv surj_pair)
  from loaded_targets_sound [OF this, of demo_tv] show ?thesis
    by (simp add: path_name_def)
qed

section \<open>Resolution\<close>

lemma addresses_of_rows_props:
  "sorted (addresses_of_rows rows)" "distinct (addresses_of_rows rows)"
  by (simp_all add: addresses_of_rows_def)

text \<open>What the resolver answered for a target: the addresses of its rows, none if it failed.\<close>

definition answered :: "resolver_outcome \<Rightarrow> string set" where
  "answered a = (case a of Resolved rows \<Rightarrow> {ip. \<exists>family rest. (family, ip # rest) \<in> set rows \<and> family \<in> {2, 10}}
     | ResolverOSError \<Rightarrow> {} | ResolverUnicodeError \<Rightarrow> {})"

lemma set_addresses_of_rows:
  "set (addresses_of_rows rows) = {ip. \<exists>family rest. (family, ip # rest) \<in> set rows \<and> family \<in> {2, 10}}"
proof -
  define f :: "int \<times> string list \<Rightarrow> string list" where
    "f = (\<lambda>(family, sockaddr). if family \<notin> {2, 10} then [] else case sockaddr of [] \<Rightarrow> [] | a # _ \<Rightarrow> [a])"
  have row: "ip \<in> set (f (family, sockaddr)) \<longleftrightarrow> family \<in> {2, 10} \<and> (\<exists>rest. sockaddr = ip # rest)" for ip family sockaddr
    by (cases sockaddr) (auto simp: f_def)
  have "addresses_of_rows rows = sorted_set (concat (map f rows))"
    by (simp add: addresses_of_rows_def f_def)
  then have "set (addresses_of_rows rows) = (\<Union>x \<in> set rows. set (f x))" by simp
  also have "\<dots> = {ip. \<exists>family rest. (family, ip # rest) \<in> set rows \<and> family \<in> {2, 10}}"
    using row by (intro set_eqI iffI) (clarsimp, blast)+
  finally show ?thesis .
qed

definition resolved_from :: "'w os \<Rightarrow> channel_target \<Rightarrow> channel_target \<Rightarrow> bool" where
  "resolved_from os t t' \<longleftrightarrow> (\<exists>w a w'. os_getaddrinfo os (ct_host t) (ct_port t) w = (a, w') \<and>
     a \<noteq> ResolverUnicodeError \<and> t' = t\<lparr>ct_addresses := ct_addresses t'\<rparr> \<and>
     sorted (ct_addresses t') \<and> distinct (ct_addresses t') \<and> set (ct_addresses t') = answered a)"

lemma resolve_target_result:
  assumes "resolve_target os t w = (Inr t', w')"
  shows "resolved_from os t t'"
proof -
  obtain a v where a: "os_getaddrinfo os (ct_host t) (ct_port t) w = (a, v)" by (metis surj_pair)
  have "\<exists>rows. t' = t\<lparr>ct_addresses := addresses_of_rows rows\<rparr> \<and> a \<noteq> ResolverUnicodeError \<and>
      answered a = set (addresses_of_rows rows)"
  proof (cases a)
    case (Resolved rs)
    with assms a have "t' = t\<lparr>ct_addresses := addresses_of_rows rs\<rparr>" by (simp add: resolve_target_def io_defs)
    with Resolved show ?thesis by (auto simp: answered_def set_addresses_of_rows)
  next
    case ResolverOSError
    with assms a have "t' = t\<lparr>ct_addresses := addresses_of_rows []\<rparr>" by (simp add: resolve_target_def io_defs)
    then show ?thesis
      by (intro exI [of _ "[]"]) (use ResolverOSError in \<open>simp add: answered_def set_addresses_of_rows\<close>)
  next
    case ResolverUnicodeError
    with assms a show ?thesis by (simp add: resolve_target_def io_defs)
  qed
  then obtain rows where t': "t' = t\<lparr>ct_addresses := addresses_of_rows rows\<rparr>" "a \<noteq> ResolverUnicodeError"
      "answered a = set (addresses_of_rows rows)" by blast
  with a addresses_of_rows_props [of rows] show ?thesis by (auto simp: resolved_from_def)
qed

text \<open>
  Resolution changes nothing but addresses: a resolved catalog has the same targets, position by position,
  each with the sorted distinct addresses that the resolver answered for its host and port.
\<close>

lemma resolve_keeps_targets:
  assumes "catalog_resolve os cat w = (Inr d, v)"
  shows "list_all2 (resolved_from os) (cat_targets cat) (cat_targets d)"
proof -
  have "io_traverse (resolve_target os) ts w = (Inr ts', v) \<Longrightarrow> list_all2 (resolved_from os) ts ts'" for ts ts' w
  proof (induction ts arbitrary: w ts')
    case (Cons t ts)
    then obtain t' w1 us where "resolve_target os t w = (Inr t', w1)"
        "io_traverse (resolve_target os) ts w1 = (Inr us, v)" "ts' = t' # us"
      by (auto simp: io_bind_Inr_iff io_return_def)
    with Cons.IH resolve_target_result show ?case by (metis list.rel_intros(2))
  qed (simp add: io_return_def)
  with assms show ?thesis by (auto simp: catalog_resolve_def io_bind_Inr_iff io_return_def)
qed

text \<open>(C24) The verdict of a resolved catalog on a flow, over the targets that were loaded. A unit that no target
  names is \<open>unknown_unit\<close>. Otherwise the last loaded target of the unit decides (earlier ones of the same unit
  are dead): the verdict names it, with the addresses that the resolver answered for its host and port in
  place, and is \<open>matched\<close> exactly when the flow has its port and either one of those addresses or, the resolver
  having answered none, any address; else it is \<open>unexpected_flow\<close>.\<close>

theorem resolved_catalog_verdict:
  assumes "catalog_resolve os cat w = (Inr d, v)"
  shows "if u \<notin> ct_unit ` set (cat_targets cat)
    then catalog_match d u ip port = \<lparr>cm_target = None, cm_status = ''unknown_unit''\<rparr>
    else \<exists>pre t post t' w1 a w2. cat_targets cat = pre @ t # post \<and> ct_unit t = u \<and> u \<notin> ct_unit ` set post \<and>
      os_getaddrinfo os (ct_host t) (ct_port t) w1 = (a, w2) \<and> a \<noteq> ResolverUnicodeError \<and>
      t' = t\<lparr>ct_addresses := ct_addresses t'\<rparr> \<and> set (ct_addresses t') = answered a \<and>
      catalog_match d u ip port = \<lparr>cm_target = Some t', cm_status =
        if ct_port t = port \<and> (answered a = {} \<or> ip \<in> answered a) then ''matched'' else ''unexpected_flow''\<rparr>"
proof -
  have rel: "list_all2 (resolved_from os) (cat_targets cat) (cat_targets d)"
    by (rule resolve_keeps_targets) (rule assms)
  have unit: "resolved_from os t t' \<Longrightarrow> ct_unit t' = ct_unit t \<and> ct_port t' = ct_port t" for t t'
    unfolding resolved_from_def by (metis channel_target.select_convs(2,6) channel_target.surjective channel_target.update_convs(8))
  have units: "ct_unit ` set ts' = ct_unit ` set ts" if "list_all2 (resolved_from os) ts ts'" for ts ts'
    using that by (induction rule: list_all2_induct) (use unit in auto)
  show ?thesis
  proof (cases "u \<in> ct_unit ` set (cat_targets cat)")
    case False
    then have "by_unit d u = None" using units [OF rel] by (simp add: by_unit_None)
    with False show ?thesis by (simp add: catalog_match_def)
  next
    case True
    then obtain t where "by_unit cat u = Some t" using by_unit_None [of cat u] by auto
    then obtain pre post where t: "cat_targets cat = pre @ t # post" "ct_unit t = u" "u \<notin> ct_unit ` set post"
      unfolding by_unit_Some by blast
    with rel obtain pre' t' post' where t': "cat_targets d = pre' @ t' # post'" "resolved_from os t t'"
        "list_all2 (resolved_from os) post post'"
      by (auto simp: list_all2_append1 list_all2_Cons1)
    obtain w1 a w2 where ans: "os_getaddrinfo os (ct_host t) (ct_port t) w1 = (a, w2)" "a \<noteq> ResolverUnicodeError"
        "t' = t\<lparr>ct_addresses := ct_addresses t'\<rparr>" "set (ct_addresses t') = answered a"
      using t'(2) unfolding resolved_from_def by blast
    have "u \<notin> ct_unit ` set post'" using t(3) units [OF t'(3)] by simp
    from catalog_match_last [OF t'(1) _ this, of ip port] unit [OF t'(2)] t(2)
    have verdict: "catalog_match d u ip port = \<lparr>cm_target = Some t', cm_status =
        if ct_port t = port \<and> (ct_addresses t' = [] \<or> ip \<in> set (ct_addresses t')) then ''matched'' else ''unexpected_flow''\<rparr>"
      by simp
    have "ct_addresses t' = [] \<longleftrightarrow> answered a = {}" using ans(4) by auto
    with verdict ans(4) have "catalog_match d u ip port = \<lparr>cm_target = Some t', cm_status =
        if ct_port t = port \<and> (answered a = {} \<or> ip \<in> answered a) then ''matched'' else ''unexpected_flow''\<rparr>"
      by simp
    with True t ans show ?thesis by (simp only: not_True_eq_False if_False) blast
  qed
qed

text \<open>A unit file and a later one of the same unit: the later one decides, and its port is the one that matches.\<close>

definition resolving_os :: "sim os" where
  "resolving_os = (sim_os [])\<lparr>os_getaddrinfo := \<lambda>h p w. (Resolved [(2, [''192.0.2.7'', ''81'']), (1, [''x''])], w)\<rparr>"

definition two_targets :: "channel_catalog" where
  "two_targets = \<lparr>cat_targets =
     [\<lparr>ct_channel = ''tv'', ct_unit = ''tv.service'', ct_url = ''http://a/'', ct_scheme = ''http'', ct_host = ''a'',
       ct_port = 80, ct_path = ''/'', ct_addresses = []\<rparr>,
      \<lparr>ct_channel = ''tv'', ct_unit = ''tv.service'', ct_url = ''http://b:81/'', ct_scheme = ''http'', ct_host = ''b'',
       ct_port = 81, ct_path = ''/'', ct_addresses = []\<rparr>]\<rparr>"

lemma resolved_catalog_verdict_witness:
  "\<exists>d. catalog_resolve resolving_os two_targets sim_start = (Inr d, sim_start) \<and>
    cm_status (catalog_match d ''tv.service'' ''192.0.2.7'' 81) = ''matched''"
proof -
  obtain d where run: "catalog_resolve resolving_os two_targets sim_start = (Inr d, sim_start)"
    by (simp add: catalog_resolve_def resolve_target_def two_targets_def resolving_os_def io_defs)
  have ans: "os_getaddrinfo resolving_os h p w1 = (a, w2) \<Longrightarrow> answered a = {''192.0.2.7''}" for h p w1 a w2
    by (auto simp: resolving_os_def answered_def)
  have last: "ct_port t = 81" if "cat_targets two_targets = pre @ t # post" "''tv.service'' \<notin> ct_unit ` set post" for pre t post
    using that by (cases pre; cases post) (auto simp: two_targets_def Cons_eq_append_conv)
  have listed: "\<not> ''tv.service'' \<notin> ct_unit ` set (cat_targets two_targets)" by (simp add: two_targets_def)
  obtain pre t post t' w1 a w2 where "cat_targets two_targets = pre @ t # post" "''tv.service'' \<notin> ct_unit ` set post"
      "os_getaddrinfo resolving_os (ct_host t) (ct_port t) w1 = (a, w2)"
      "catalog_match d ''tv.service'' ''192.0.2.7'' 81 = \<lparr>cm_target = Some t', cm_status =
        if ct_port t = 81 \<and> (answered a = {} \<or> ''192.0.2.7'' \<in> answered a) then ''matched'' else ''unexpected_flow''\<rparr>"
    using resolved_catalog_verdict [OF run, of "''tv.service''" "''192.0.2.7''" 81] unfolding if_not_P [OF listed] by blast
  with last ans have "cm_status (catalog_match d ''tv.service'' ''192.0.2.7'' 81) = ''matched''" by simp
  with run show ?thesis by blast
qed

section \<open>Unit file text\<close>

lemma join_lines_no_backslash:
  "l \<in> set (join_lines pending lines) \<Longrightarrow> (pending = [] \<or> last pending = CHR '' '') \<Longrightarrow>
     l = [] \<or> last l \<noteq> CHR 0x5C"
proof (induction pending lines arbitrary: l rule: join_lines.induct)
  case (1 pending)
  then show ?case by (auto split: if_splits)
next
  case (2 pending raw rest)
  show ?case
  proof (cases "endswith (rstrip raw) [CHR 0x5C]")
    case True
    with 2 show ?thesis by (simp add: Let_def)
  next
    case False
    then have "rstrip raw = [] \<or> last (rstrip raw) \<noteq> CHR 0x5C"
      by (metis append_butlast_last_id endswith_iff)
    with 2 False show ?thesis by (auto simp: Let_def last_append split: if_splits)
  qed
qed

text \<open>Continuations are joined completely: no logical line of a unit file ends with a backslash, so no
  later step sees half a command line.\<close>

theorem continuations_joined:
  "list_all (\<lambda>l. if l = [] then True else last l \<noteq> CHR 0x5C) (join_lines [] lines)"
  using join_lines_no_backslash [of _ "[]" lines] by (auto simp: list_all_iff)

text \<open>Words of an \<open>Environment=\<close> value that need no quoting are split back into the words that were
  joined, so no URL in them is lost or cut.\<close>

theorem environment_words:
  assumes "\<forall>w \<in> set ws. w \<noteq> [] \<and> (\<forall>c \<in> set w. plain_char c)"
  shows "extract_urls_from_environment (join '' '' ws) = concat (map (\<lambda>w. find_urls (after_equals w)) ws)"
  using shlex_split_plain [OF assms] by (simp add: extract_urls_from_environment_def)

lemma environment_words_witness:
  "extract_urls_from_environment (join '' '' [''A=http://h/x'', ''B=1'']) = [''http://h/x'']"
proof -
  have plain: "\<forall>w \<in> set [''A=http://h/x'', ''B=1'']. w \<noteq> [] \<and> (\<forall>c \<in> set w. plain_char c)"
    by code_simp
  have urls: "concat (map (\<lambda>w. find_urls (after_equals w)) [''A=http://h/x'', ''B=1'']) = [''http://h/x'']"
    by code_simp
  show ?thesis using environment_words [OF plain] urls by (rule trans)
qed

end
