(* ===== verification/FlowRuns.thy ===== *)
theory FlowRuns
  imports FlowFacts
begin

text \<open>
  Runs of checkpoints of a channel collector. A checkpoint without a filter reports the growth of every flow
  it knew, each in one row; over a run the rows conserve the counters of the kernel's map.
\<close>

section \<open>What one checkpoint counts\<close>

definition row_counts :: "channel_sample \<Rightarrow> flow_counters" where
  "row_counts r =
     \<lparr>fc_tx_bytes = cs_tx_bytes r, fc_rx_bytes = cs_rx_bytes r, fc_tx_calls = cs_tx_calls r,
      fc_rx_calls = cs_rx_calls r, fc_connections = cs_connections r\<rparr>"


lemma row_counts_sample [simp]: "row_counts (flow_sample pr b e x d unit m src ip port n) = d"
  by (simp add: row_counts_def flow_sample_def)





section \<open>Runs\<close>

inductive channel_run ::
  "flow_proto \<Rightarrow> 'w os \<Rightarrow> flow_collector \<Rightarrow> flow_entry list list \<Rightarrow> channel_sample list \<Rightarrow> flow_collector \<Rightarrow> bool"
  for pr :: flow_proto and os :: "'w os" where
  channel_done: "channel_run pr os c [] [] c"
| channel_step:
    "flow_dump_entries pr os (fl_map_id c) w = (Inr entries, w') \<Longrightarrow>
     read_flows pr os b e (c, w) = (Inr rows, (c', v)) \<Longrightarrow>
     channel_run pr os c' dumps later d \<Longrightarrow>
     channel_run pr os c (entries # dumps) (rows @ later) d"

inductive_cases channel_run_NilE: "channel_run pr os c [] rows d"
inductive_cases channel_run_ConsE: "channel_run pr os c (es # dumps) rows d"














end
